theory Spec2Isabelle
  imports Complex_Main "HOL-Library.Char_ord" "HOL-Library.List_Lexorder"
    "HOL-Library.Product_Lexorder"
begin

section \<open>Values of the Python runtime\<close>

text \<open>
  A \<^verbatim>\<open>datetime.date\<close> is modelled by its proleptic Gregorian ordinal
  (\<^verbatim>\<open>date.toordinal()\<close>): dates compare as their ordinals do, and adding a
  \<^verbatim>\<open>timedelta\<close> of whole days adds to the ordinal and raises
  \<^verbatim>\<open>OverflowError\<close> outside \<^verbatim>\<open>date.min .. date.max\<close>
  (ordinals 1 .. 3652059). A \<^verbatim>\<open>datetime.time\<close> produced by the format
  \<^verbatim>\<open>%H:%M\<close> has an hour and a minute; its seconds and microseconds are 0.
  A Python \<^verbatim>\<open>float\<close> is modelled by the real number it denotes; the numeric
  library operations (rounding, true division, the aggregates of the database) are
  parameters of the model, collected in the record \<open>pylib\<close> below.
\<close>

type_synonym date = int

record time =
  hour :: nat
  minute :: nat

datatype pyexc =
    ValueError | TypeError | OverflowError | UnboundLocalError | IntegrityError
  | AttributeError | DatabaseError

definition MAXORDINAL :: int where
  "MAXORDINAL = 3652059"

definition valid_date :: "date \<Rightarrow> bool" where
  "valid_date d \<longleftrightarrow> 1 \<le> d \<and> d \<le> MAXORDINAL"

definition valid_time :: "time \<Rightarrow> bool" where
  "valid_time t \<longleftrightarrow> hour t < 24 \<and> minute t < 60"

text \<open>\<^verbatim>\<open>date + timedelta(days=n)\<close>.\<close>

definition date_add_days :: "date \<Rightarrow> int \<Rightarrow> pyexc + date" where
  "date_add_days d n =
     (if valid_date (d + n) then Inr (d + n) else Inl OverflowError)"

text \<open>
  \<^verbatim>\<open>datetime.combine(date, time)\<close>, as the number of seconds since midnight
  of ordinal 0. Datetimes compare, and subtract to a \<^verbatim>\<open>timedelta\<close>, as these
  numbers do.
\<close>

definition combine :: "date \<Rightarrow> time \<Rightarrow> int" where
  "combine d t = d * 86400 + int (hour t) * 3600 + int (minute t) * 60"

text \<open>
  \<^verbatim>\<open>int(delta.total_seconds() / 60)\<close>: \<^verbatim>\<open>int\<close> truncates towards zero.
  The seconds of the model are whole and below \<open>2 ^ 53\<close>, so the float division is
  exact whenever the quotient is whole.
\<close>

definition int_total_seconds_div_60 :: "int \<Rightarrow> int" where
  "int_total_seconds_div_60 secs =
     (if 0 \<le> secs then secs div 60 else - ((- secs) div 60))"

section \<open>Session duration (routes/fishing\_sessions.py, lines 77-84 and 179-185)\<close>

definition calc_duration :: "date \<Rightarrow> time \<Rightarrow> time \<Rightarrow> pyexc + int" where
  "calc_duration d start_time end_time =
     (let start_datetime = combine d start_time;
          end_datetime = combine d end_time
      in if end_datetime < start_datetime
         then (case date_add_days d 1 of
                 Inl e \<Rightarrow> Inl e
               | Inr d' \<Rightarrow>
                   Inr (int_total_seconds_div_60 (combine d' end_time - start_datetime)))
         else Inr (int_total_seconds_div_60 (end_datetime - start_datetime)))"

text \<open>
  The duration as the specification words it: with both times taken as minutes of
  the day, \<open>end - start\<close> if the end is not before the start, and
  \<open>end - start + 24h\<close> otherwise.
\<close>

definition minute_of_day :: "time \<Rightarrow> int" where
  "minute_of_day t = int (hour t) * 60 + int (minute t)"

definition spec_duration :: "time \<Rightarrow> time \<Rightarrow> int" where
  "spec_duration start_time end_time =
     (if minute_of_day start_time \<le> minute_of_day end_time
      then minute_of_day end_time - minute_of_day start_time
      else minute_of_day end_time - minute_of_day start_time + 1440)"

section \<open>The library, request payloads and the store\<close>

text \<open>
  The library functions whose results the routes use. \<open>strptime_date s\<close> stands for
  \<^verbatim>\<open>datetime.strptime(s, '%Y-%m-%d')\<close> and yields the ordinal that the parsed
  fields denote, \<open>strptime_time s\<close> stands for \<^verbatim>\<open>datetime.strptime(s, '%H:%M')\<close>
  and yields the parsed hour and minute; \<open>None\<close> is \<^verbatim>\<open>ValueError\<close>.
  \<open>float_of_str\<close> is \<^verbatim>\<open>float\<close> on a string, \<open>py_round x n\<close> is
  \<^verbatim>\<open>round(x, n)\<close>, \<open>truediv a b\<close> is \<^verbatim>\<open>a / b\<close> on integers with
  \<open>b \<noteq> 0\<close>, \<open>fmul\<close> is the product of floats, \<open>db_sum\<close> and \<open>db_avg\<close>
  are the aggregates \<^verbatim>\<open>SUM\<close> and \<^verbatim>\<open>AVG\<close> of the database over the
  non-null values of a float column, \<open>date_trunc_month d\<close> is
  \<^verbatim>\<open>date_trunc('month', d)\<close> of the database (the first day of the month of
  \<open>d\<close>), \<open>strftime_ym d\<close> is \<^verbatim>\<open>strftime('%Y-%m')\<close> of a date, and
  \<open>ilike pattern s\<close> is the operator \<^verbatim>\<open>ILIKE\<close> of the database.
  \<open>page_window page per_page total\<close> stands for the arithmetic of
  \<^verbatim>\<open>paginate(page, per_page, error_out=False)\<close> over a query of \<open>total\<close> rows:
  the offset and the limit of the page, the number of pages, and the page and the page
  size it reports. The
  database is PostgreSQL, the only one of the two configured in \<^verbatim>\<open>main.py\<close>
  that has \<^verbatim>\<open>date_trunc\<close>; it rejects a negative \<^verbatim>\<open>LIMIT\<close>.
\<close>

record pylib =
  strptime_date :: "string \<Rightarrow> int option"
  strptime_time :: "string \<Rightarrow> (nat \<times> nat) option"
  float_of_str :: "string \<Rightarrow> real option"
  py_round :: "real \<Rightarrow> nat \<Rightarrow> real"
  truediv :: "int \<Rightarrow> int \<Rightarrow> real"
  fmul :: "real \<Rightarrow> real \<Rightarrow> real"
  db_sum :: "real list \<Rightarrow> real"
  db_avg :: "real list \<Rightarrow> real"
  date_trunc_month :: "date \<Rightarrow> date"
  strftime_ym :: "date \<Rightarrow> string"
  ilike :: "string \<Rightarrow> string \<Rightarrow> bool"
  page_window :: "int \<Rightarrow> int \<Rightarrow> nat \<Rightarrow> nat \<times> nat \<times> nat \<times> int \<times> int"

text \<open>
  The constructors of \<^verbatim>\<open>date\<close> and \<^verbatim>\<open>time\<close> check the ranges of their
  fields and raise \<^verbatim>\<open>ValueError\<close>, so every parsed value is in range.
\<close>

definition parse_date :: "pylib \<Rightarrow> string \<Rightarrow> date option" where
  "parse_date L s =
     (case strptime_date L s of
        None \<Rightarrow> None
      | Some d \<Rightarrow> if valid_date d then Some d else None)"

definition parse_time :: "pylib \<Rightarrow> string \<Rightarrow> time option" where
  "parse_time L s =
     (case strptime_time L s of
        None \<Rightarrow> None
      | Some (h, m) \<Rightarrow>
          if h < 24 \<and> m < 60 then Some \<lparr>hour = h, minute = m\<rparr> else None)"

text \<open>
  The JSON body of a request is a dictionary. A key is absent (\<open>None\<close>) or carries
  a value of the JSON type its column has: a string or null for the text, date and
  time fields, a number, a string or null for the float fields, a boolean or null
  for the flag.
\<close>

datatype jtext = Null | Str string

datatype jnumber = NumNull | Num real | NumStr string

datatype jbool = BoolNull | Bool bool

record session_data =
  d_location_id :: "jtext option"
  d_date :: "jtext option"
  d_start_time :: "jtext option"
  d_end_time :: "jtext option"
  d_weather_conditions :: "jtext option"
  d_temperature_celsius :: "jnumber option"
  d_notes :: "jtext option"

text \<open>\<^verbatim>\<open>data.get(key)\<close> when it is truthy: a non-empty string.\<close>

fun required :: "jtext option \<Rightarrow> string option" where
  "required (Some (Str s)) = (if s = [] then None else Some s)"
| "required _ = None"

text \<open>\<^verbatim>\<open>data.get(key)\<close> and \<^verbatim>\<open>data[key]\<close> of a present key: a string or
  \<^verbatim>\<open>None\<close>.\<close>

fun text_value :: "jtext option \<Rightarrow> string option" where
  "text_value (Some (Str s)) = Some s"
| "text_value _ = None"

text \<open>\<^verbatim>\<open>float(v) if v else None\<close> for \<open>v = data.get(key)\<close>.\<close>

fun float_if_truthy :: "pylib \<Rightarrow> jnumber option \<Rightarrow> pyexc + real option" where
  "float_if_truthy L None = Inr None"
| "float_if_truthy L (Some NumNull) = Inr None"
| "float_if_truthy L (Some (Num x)) = Inr (if x = 0 then None else Some x)"
| "float_if_truthy L (Some (NumStr s)) =
     (if s = [] then Inr None
      else case float_of_str L s of None \<Rightarrow> Inl ValueError | Some x \<Rightarrow> Inr (Some x))"

record location =
  loc_id :: string
  loc_user_id :: string
  loc_name :: string
  loc_latitude :: real
  loc_longitude :: real
  loc_description :: "string option"

record fishing_session =
  fs_id :: string
  fs_user_id :: string
  fs_location_id :: string
  fs_date :: date
  fs_start_time :: time
  fs_end_time :: time
  fs_duration_minutes :: "int option"
  fs_weather_conditions :: "string option"
  fs_temperature_celsius :: "real option"
  fs_notes :: "string option"

record catch =
  c_id :: string
  c_session_id :: string
  c_species :: string
  c_weight_kg :: "real option"
  c_length_cm :: "real option"
  c_bait_used :: "string option"
  c_released :: bool
  c_photo_url :: "string option"
  c_created_at :: int

text \<open>
  The tables, each in the order in which the database returns its rows when a
  query gives no \<^verbatim>\<open>ORDER BY\<close>. The server-stamped \<^verbatim>\<open>created_at\<close> and
  \<^verbatim>\<open>updated_at\<close> columns are left out, except \<^verbatim>\<open>created_at\<close> of a catch,
  by which two queries order. Length limits of the string columns are not
  modelled.
\<close>

record store =
  locations :: "location list"
  sessions :: "fishing_session list"
  catches :: "catch list"

datatype error_body =
    Local_obrigatorio
  | Data_obrigatoria
  | Hora_de_inicio_obrigatoria
  | Hora_de_termino_obrigatoria
  | Local_nao_encontrado
  | Formato_de_data_hora_invalido
  | Erro_de_validacao
  | Sessao_nao_encontrada
  | ID_da_sessao_obrigatorio
  | Especie_obrigatoria
  | Captura_nao_encontrada
  | Local_com_sessoes_associadas
  | Nome_do_local_obrigatorio
  | Latitude_obrigatoria
  | Longitude_obrigatoria
  | Ja_existe_um_local_com_este_nome
  | Latitude_e_longitude_invalidas
  | Exception_text pyexc

datatype 'a response = Json nat 'a | JsonError nat error_body

text \<open>\<^verbatim>\<open>FishingSession.to_dict\<close>: the columns, the name of the location the
  relationship finds, and the number of catches of the session.\<close>

record session_dict =
  sd_session :: fishing_session
  sd_location_name :: "string option"
  sd_catches_count :: nat

definition session_to_dict :: "store \<Rightarrow> fishing_session \<Rightarrow> session_dict" where
  "session_to_dict st s =
     \<lparr>sd_session = s,
      sd_location_name =
        map_option loc_name (find (\<lambda>l. loc_id l = fs_location_id s) (locations st)),
      sd_catches_count = length (filter (\<lambda>c. c_session_id c = fs_id s) (catches st))\<rparr>"

section \<open>Sessions (routes/fishing\_sessions.py)\<close>

text \<open>
  \<^verbatim>\<open>db.session.add(session); db.session.commit()\<close>: the primary key is unique
  and the location exists, or the database raises \<^verbatim>\<open>IntegrityError\<close>.
\<close>

definition insert_session :: "fishing_session \<Rightarrow> store \<Rightarrow> pyexc + store" where
  "insert_session s st =
     (if fs_id s \<in> set (map fs_id (sessions st)) then Inl IntegrityError
      else if fs_location_id s \<notin> set (map loc_id (locations st)) then Inl IntegrityError
      else Inr (st\<lparr>sessions := sessions st @ [s]\<rparr>))"

text \<open>\<open>new_id\<close> is the result of \<^verbatim>\<open>generate_uuid()\<close>.\<close>

definition create_session ::
  "pylib \<Rightarrow> string \<Rightarrow> string \<Rightarrow> session_data \<Rightarrow> store \<Rightarrow> session_dict response \<times> store"
where
  "create_session L current_user_id new_id data st =
     (case required (d_location_id data) of
        None \<Rightarrow> (JsonError 400 Local_obrigatorio, st)
      | Some location_id \<Rightarrow>
     (case required (d_date data) of
        None \<Rightarrow> (JsonError 400 Data_obrigatoria, st)
      | Some date_str \<Rightarrow>
     (case required (d_start_time data) of
        None \<Rightarrow> (JsonError 400 Hora_de_inicio_obrigatoria, st)
      | Some start_str \<Rightarrow>
     (case required (d_end_time data) of
        None \<Rightarrow> (JsonError 400 Hora_de_termino_obrigatoria, st)
      | Some end_str \<Rightarrow>
     (case find (\<lambda>l. loc_id l = location_id \<and> loc_user_id l = current_user_id)
             (locations st) of
        None \<Rightarrow> (JsonError 404 Local_nao_encontrado, st)
      | Some location \<Rightarrow>
     (case parse_date L date_str of
        None \<Rightarrow> (JsonError 400 Formato_de_data_hora_invalido, st)
      | Some date \<Rightarrow>
     (case parse_time L start_str of
        None \<Rightarrow> (JsonError 400 Formato_de_data_hora_invalido, st)
      | Some start_time \<Rightarrow>
     (case parse_time L end_str of
        None \<Rightarrow> (JsonError 400 Formato_de_data_hora_invalido, st)
      | Some end_time \<Rightarrow>
     (case calc_duration date start_time end_time of
        Inl e \<Rightarrow> (JsonError 500 (Exception_text e), st)
      | Inr duration_minutes \<Rightarrow>
     (case float_if_truthy L (d_temperature_celsius data) of
        Inl e \<Rightarrow>
          (if e = ValueError then (JsonError 400 Erro_de_validacao, st)
           else (JsonError 500 (Exception_text e), st))
      | Inr temperature \<Rightarrow>
     (let session =
            \<lparr>fs_id = new_id,
             fs_user_id = current_user_id,
             fs_location_id = location_id,
             fs_date = date,
             fs_start_time = start_time,
             fs_end_time = end_time,
             fs_duration_minutes = Some duration_minutes,
             fs_weather_conditions = text_value (d_weather_conditions data),
             fs_temperature_celsius = temperature,
             fs_notes = text_value (d_notes data)\<rparr>
      in case insert_session session st of
           Inl e \<Rightarrow> (JsonError 500 (Exception_text e), st)
         | Inr st' \<Rightarrow> (Json 201 (session_to_dict st' session), st'))))))))))))"

text \<open>The assignments of \<^verbatim>\<open>update_session\<close>, lines 164-175, each under its
  \<^verbatim>\<open>if key in data\<close>.\<close>

fun set_date :: "pylib \<Rightarrow> jtext option \<Rightarrow> fishing_session \<Rightarrow> pyexc + fishing_session" where
  "set_date L None s = Inr s"
| "set_date L (Some Null) s = Inl TypeError"
| "set_date L (Some (Str x)) s =
     (case parse_date L x of
        None \<Rightarrow> Inl ValueError
      | Some d \<Rightarrow> Inr (s\<lparr>fs_date := d\<rparr>))"

fun set_start_time :: "pylib \<Rightarrow> jtext option \<Rightarrow> fishing_session \<Rightarrow> pyexc + fishing_session" where
  "set_start_time L None s = Inr s"
| "set_start_time L (Some Null) s = Inl TypeError"
| "set_start_time L (Some (Str x)) s =
     (case parse_time L x of
        None \<Rightarrow> Inl ValueError
      | Some t \<Rightarrow> Inr (s\<lparr>fs_start_time := t\<rparr>))"

fun set_end_time :: "pylib \<Rightarrow> jtext option \<Rightarrow> fishing_session \<Rightarrow> pyexc + fishing_session" where
  "set_end_time L None s = Inr s"
| "set_end_time L (Some Null) s = Inl TypeError"
| "set_end_time L (Some (Str x)) s =
     (case parse_time L x of
        None \<Rightarrow> Inl ValueError
      | Some t \<Rightarrow> Inr (s\<lparr>fs_end_time := t\<rparr>))"

definition set_weather_conditions :: "jtext option \<Rightarrow> fishing_session \<Rightarrow> fishing_session" where
  "set_weather_conditions v s =
     (case v of None \<Rightarrow> s | Some x \<Rightarrow> s\<lparr>fs_weather_conditions := text_value (Some x)\<rparr>)"

definition set_temperature_celsius ::
  "pylib \<Rightarrow> jnumber option \<Rightarrow> fishing_session \<Rightarrow> pyexc + fishing_session" where
  "set_temperature_celsius L v s =
     (case v of
        None \<Rightarrow> Inr s
      | Some x \<Rightarrow>
          (case float_if_truthy L (Some x) of
             Inl e \<Rightarrow> Inl e
           | Inr t \<Rightarrow> Inr (s\<lparr>fs_temperature_celsius := t\<rparr>)))"

definition set_notes :: "jtext option \<Rightarrow> fishing_session \<Rightarrow> fishing_session" where
  "set_notes v s = (case v of None \<Rightarrow> s | Some x \<Rightarrow> s\<lparr>fs_notes := text_value (Some x)\<rparr>)"

text \<open>Lines 178-185: the duration is computed again when one of the three keys is in
  the payload.\<close>

definition recalc_duration :: "session_data \<Rightarrow> fishing_session \<Rightarrow> pyexc + fishing_session" where
  "recalc_duration data s =
     (if d_date data \<noteq> None \<or> d_start_time data \<noteq> None \<or> d_end_time data \<noteq> None
      then (case calc_duration (fs_date s) (fs_start_time s) (fs_end_time s) of
              Inl e \<Rightarrow> Inl e
            | Inr m \<Rightarrow> Inr (s\<lparr>fs_duration_minutes := Some m\<rparr>))
      else Inr s)"

text \<open>
  The assignments in the order of the source; the first exception ends them. The
  assignment to \<^verbatim>\<open>location_id\<close> cannot raise; a null or unknown location is
  refused by the database at the commit.
\<close>

definition apply_session_fields ::
  "pylib \<Rightarrow> session_data \<Rightarrow> fishing_session \<Rightarrow> pyexc + fishing_session" where
  "apply_session_fields L data s =
     (case set_date L (d_date data) s of Inl e \<Rightarrow> Inl e | Inr s1 \<Rightarrow>
     (case set_start_time L (d_start_time data) s1 of Inl e \<Rightarrow> Inl e | Inr s2 \<Rightarrow>
     (case set_end_time L (d_end_time data) s2 of Inl e \<Rightarrow> Inl e | Inr s3 \<Rightarrow>
     (case set_temperature_celsius L (d_temperature_celsius data)
             (set_weather_conditions (d_weather_conditions data) s3) of
        Inl e \<Rightarrow> Inl e
      | Inr s4 \<Rightarrow> recalc_duration data (set_notes (d_notes data) s4)))))"

text \<open>The value \<^verbatim>\<open>session.location_id\<close> holds after line 163.\<close>

fun assigned_location_id :: "jtext option \<Rightarrow> fishing_session \<Rightarrow> string option" where
  "assigned_location_id None s = Some (fs_location_id s)"
| "assigned_location_id (Some v) s = text_value (Some v)"

text \<open>
  \<^verbatim>\<open>db.session.commit()\<close> of the changed row, found by its primary key: the
  location column is not null, and a changed location exists.
\<close>

definition commit_session ::
  "fishing_session \<Rightarrow> string option \<Rightarrow> fishing_session \<Rightarrow> store \<Rightarrow> pyexc + fishing_session \<times> store"
where
  "commit_session old location_id s st =
     (case location_id of
        None \<Rightarrow> Inl IntegrityError
      | Some l \<Rightarrow>
          if l \<noteq> fs_location_id old \<and> l \<notin> set (map loc_id (locations st))
          then Inl IntegrityError
          else (let s' = s\<lparr>fs_location_id := l\<rparr>
                in Inr (s', st\<lparr>sessions :=
                              map (\<lambda>r. if fs_id r = fs_id old then s' else r) (sessions st)\<rparr>)))"

definition update_session ::
  "pylib \<Rightarrow> string \<Rightarrow> string \<Rightarrow> session_data \<Rightarrow> store \<Rightarrow> session_dict response \<times> store"
where
  "update_session L current_user_id session_id data st =
     (case find (\<lambda>s. fs_id s = session_id \<and> fs_user_id s = current_user_id) (sessions st) of
        None \<Rightarrow> (JsonError 404 Sessao_nao_encontrada, st)
      | Some session \<Rightarrow>
          if (case required (d_location_id data) of
                None \<Rightarrow> False
              | Some l \<Rightarrow>
                  l \<noteq> fs_location_id session \<and>
                  find (\<lambda>x. loc_id x = l \<and> loc_user_id x = current_user_id) (locations st) = None)
          then (JsonError 404 Local_nao_encontrado, st)
          else
            (case apply_session_fields L data session of
               Inl e \<Rightarrow>
                 (if e = ValueError then (JsonError 400 Erro_de_validacao, st)
                  else (JsonError 500 (Exception_text e), st))
             | Inr s \<Rightarrow>
                 (case commit_session session (assigned_location_id (d_location_id data) session) s st of
                    Inl e \<Rightarrow> (JsonError 500 (Exception_text e), st)
                  | Inr (s', st') \<Rightarrow> (Json 200 (session_to_dict st' s'), st'))))"

text \<open>\<^verbatim>\<open>session.delete(session)\<close> with the cascade of the relationship
  \<^verbatim>\<open>catches\<close>; the response names the date and the location.\<close>

definition delete_session :: "string \<Rightarrow> string \<Rightarrow> store \<Rightarrow> (date \<times> string) response \<times> store" where
  "delete_session current_user_id session_id st =
     (case find (\<lambda>s. fs_id s = session_id \<and> fs_user_id s = current_user_id) (sessions st) of
        None \<Rightarrow> (JsonError 404 Sessao_nao_encontrada, st)
      | Some session \<Rightarrow>
          (case find (\<lambda>l. loc_id l = fs_location_id session) (locations st) of
             None \<Rightarrow> (JsonError 500 (Exception_text AttributeError), st)
           | Some location \<Rightarrow>
               (Json 200 (fs_date session, loc_name location),
                st\<lparr>sessions := filter (\<lambda>s. fs_id s \<noteq> fs_id session) (sessions st),
                   catches := filter (\<lambda>c. c_session_id c \<noteq> fs_id session) (catches st)\<rparr>)))"

section \<open>Locations (routes/locations.py)\<close>

record location_data =
  d_name :: "jtext option"
  d_latitude :: "jnumber option"
  d_longitude :: "jnumber option"
  d_description :: "jtext option"

text \<open>\<^verbatim>\<open>data.get(key)\<close> of a float field when it is truthy: a number other
  than 0 or a non-empty string.\<close>

fun required_number :: "jnumber option \<Rightarrow> jnumber option" where
  "required_number (Some (Num x)) = (if x = 0 then None else Some (Num x))"
| "required_number (Some (NumStr s)) = (if s = [] then None else Some (NumStr s))"
| "required_number _ = None"

text \<open>\<^verbatim>\<open>float(data[key])\<close> of a present key.\<close>

fun float_of :: "pylib \<Rightarrow> jnumber \<Rightarrow> pyexc + real" where
  "float_of L NumNull = Inl TypeError"
| "float_of L (Num x) = Inr x"
| "float_of L (NumStr s) =
     (case float_of_str L s of None \<Rightarrow> Inl ValueError | Some x \<Rightarrow> Inr x)"

definition get_locations :: "string \<Rightarrow> store \<Rightarrow> location list response" where
  "get_locations current_user_id st =
     Json 200 (filter (\<lambda>l. loc_user_id l = current_user_id) (locations st))"

definition create_location ::
  "pylib \<Rightarrow> string \<Rightarrow> string \<Rightarrow> location_data \<Rightarrow> store \<Rightarrow> location response \<times> store"
where
  "create_location L current_user_id new_id data st =
     (case required (d_name data) of
        None \<Rightarrow> (JsonError 400 Nome_do_local_obrigatorio, st)
      | Some name \<Rightarrow>
     (case required_number (d_latitude data) of
        None \<Rightarrow> (JsonError 400 Latitude_obrigatoria, st)
      | Some lat \<Rightarrow>
     (case required_number (d_longitude data) of
        None \<Rightarrow> (JsonError 400 Longitude_obrigatoria, st)
      | Some lon \<Rightarrow>
          if find (\<lambda>l. loc_user_id l = current_user_id \<and> loc_name l = name) (locations st)
               \<noteq> None
          then (JsonError 400 Ja_existe_um_local_com_este_nome, st)
          else
            (case float_of L lat of
               Inl e \<Rightarrow>
                 (if e = ValueError then (JsonError 400 Latitude_e_longitude_invalidas, st)
                  else (JsonError 500 (Exception_text e), st))
             | Inr latitude \<Rightarrow>
            (case float_of L lon of
               Inl e \<Rightarrow>
                 (if e = ValueError then (JsonError 400 Latitude_e_longitude_invalidas, st)
                  else (JsonError 500 (Exception_text e), st))
             | Inr longitude \<Rightarrow>
                 (let location =
                        \<lparr>loc_id = new_id, loc_user_id = current_user_id, loc_name = name,
                         loc_latitude = latitude, loc_longitude = longitude,
                         loc_description = text_value (d_description data)\<rparr>
                  in if new_id \<in> set (map loc_id (locations st))
                     then (JsonError 500 (Exception_text IntegrityError), st)
                     else (Json 201 location, st\<lparr>locations := locations st @ [location]\<rparr>)))))))"

definition get_location :: "string \<Rightarrow> string \<Rightarrow> store \<Rightarrow> location response" where
  "get_location current_user_id location_id st =
     (case find (\<lambda>l. loc_id l = location_id \<and> loc_user_id l = current_user_id) (locations st) of
        None \<Rightarrow> JsonError 404 Local_nao_encontrado
      | Some location \<Rightarrow> Json 200 location)"

text \<open>The assignments of \<^verbatim>\<open>update_location\<close>, lines 112-119. The name column is
  not null: a null name is refused by the database at the commit, after the other
  assignments have run.\<close>

definition set_latitude :: "pylib \<Rightarrow> jnumber option \<Rightarrow> location \<Rightarrow> pyexc + location" where
  "set_latitude L v l =
     (case v of
        None \<Rightarrow> Inr l
      | Some x \<Rightarrow> (case float_of L x of Inl e \<Rightarrow> Inl e | Inr y \<Rightarrow> Inr (l\<lparr>loc_latitude := y\<rparr>)))"

definition set_longitude :: "pylib \<Rightarrow> jnumber option \<Rightarrow> location \<Rightarrow> pyexc + location" where
  "set_longitude L v l =
     (case v of
        None \<Rightarrow> Inr l
      | Some x \<Rightarrow> (case float_of L x of Inl e \<Rightarrow> Inl e | Inr y \<Rightarrow> Inr (l\<lparr>loc_longitude := y\<rparr>)))"

definition set_description :: "jtext option \<Rightarrow> location \<Rightarrow> location" where
  "set_description v l =
     (case v of None \<Rightarrow> l | Some x \<Rightarrow> l\<lparr>loc_description := text_value (Some x)\<rparr>)"

fun assigned_name :: "jtext option \<Rightarrow> location \<Rightarrow> string option" where
  "assigned_name None l = Some (loc_name l)"
| "assigned_name (Some v) l = text_value (Some v)"

definition update_location ::
  "pylib \<Rightarrow> string \<Rightarrow> string \<Rightarrow> location_data \<Rightarrow> store \<Rightarrow> location response \<times> store"
where
  "update_location L current_user_id location_id data st =
     (case find (\<lambda>l. loc_id l = location_id \<and> loc_user_id l = current_user_id) (locations st) of
        None \<Rightarrow> (JsonError 404 Local_nao_encontrado, st)
      | Some location \<Rightarrow>
          if (case required (d_name data) of
                None \<Rightarrow> False
              | Some name \<Rightarrow>
                  name \<noteq> loc_name location \<and>
                  find (\<lambda>l. loc_user_id l = current_user_id \<and> loc_name l = name) (locations st)
                    \<noteq> None)
          then (JsonError 400 Ja_existe_um_local_com_este_nome, st)
          else
            (case set_latitude L (d_latitude data) location of
               Inl e \<Rightarrow>
                 (if e = ValueError then (JsonError 400 Latitude_e_longitude_invalidas, st)
                  else (JsonError 500 (Exception_text e), st))
             | Inr l1 \<Rightarrow>
            (case set_longitude L (d_longitude data) l1 of
               Inl e \<Rightarrow>
                 (if e = ValueError then (JsonError 400 Latitude_e_longitude_invalidas, st)
                  else (JsonError 500 (Exception_text e), st))
             | Inr l2 \<Rightarrow>
            (case assigned_name (d_name data) location of
               None \<Rightarrow> (JsonError 500 (Exception_text IntegrityError), st)
             | Some name \<Rightarrow>
                 (let l' = (set_description (d_description data) l2)\<lparr>loc_name := name\<rparr>
                  in (Json 200 l',
                      st\<lparr>locations :=
                           map (\<lambda>r. if loc_id r = loc_id location then l' else r)
                             (locations st)\<rparr>))))))"

text \<open>
  \<^verbatim>\<open>location.fishing_sessions\<close> is the list of the sessions whose
  \<^verbatim>\<open>location_id\<close> is the id of the location. The response names the deleted
  location.
\<close>

definition delete_location :: "string \<Rightarrow> string \<Rightarrow> store \<Rightarrow> string response \<times> store" where
  "delete_location current_user_id location_id st =
     (case find (\<lambda>l. loc_id l = location_id \<and> loc_user_id l = current_user_id) (locations st) of
        None \<Rightarrow> (JsonError 404 Local_nao_encontrado, st)
      | Some location \<Rightarrow>
          if filter (\<lambda>s. fs_location_id s = loc_id location) (sessions st) \<noteq> []
          then (JsonError 400 Local_com_sessoes_associadas, st)
          else (Json 200 (loc_name location),
                st\<lparr>locations := filter (\<lambda>l. loc_id l \<noteq> loc_id location) (locations st)\<rparr>))"

section \<open>Catches (routes/catches.py)\<close>

record catch_data =
  d_session_id :: "jtext option"
  d_species :: "jtext option"
  d_weight_kg :: "jnumber option"
  d_length_cm :: "jnumber option"
  d_bait_used :: "jtext option"
  d_released :: "jbool option"
  d_photo_url :: "jtext option"

text \<open>\<^verbatim>\<open>bool(data.get('released', False))\<close> and \<^verbatim>\<open>bool(data['released'])\<close>.\<close>

fun bool_value :: "jbool option \<Rightarrow> bool" where
  "bool_value (Some (Bool b)) = b"
| "bool_value _ = False"

text \<open>The join of a catch with its session, filtered by the owner of the session.\<close>

definition catch_of_user :: "store \<Rightarrow> string \<Rightarrow> catch \<Rightarrow> bool" where
  "catch_of_user st user_id c =
     list_ex (\<lambda>s. fs_id s = c_session_id c \<and> fs_user_id s = user_id) (sessions st)"

text \<open>\<open>new_id\<close> is the result of \<^verbatim>\<open>generate_uuid()\<close>, \<open>now\<close> that of
  \<^verbatim>\<open>datetime.utcnow()\<close>.\<close>

definition create_catch ::
  "pylib \<Rightarrow> string \<Rightarrow> string \<Rightarrow> int \<Rightarrow> catch_data \<Rightarrow> store \<Rightarrow> catch response \<times> store"
where
  "create_catch L current_user_id new_id now data st =
     (case required (d_session_id data) of
        None \<Rightarrow> (JsonError 400 ID_da_sessao_obrigatorio, st)
      | Some session_id \<Rightarrow>
     (case required (d_species data) of
        None \<Rightarrow> (JsonError 400 Especie_obrigatoria, st)
      | Some species \<Rightarrow>
     (case find (\<lambda>s. fs_id s = session_id \<and> fs_user_id s = current_user_id) (sessions st) of
        None \<Rightarrow> (JsonError 404 Sessao_nao_encontrada, st)
      | Some session \<Rightarrow>
     (case float_if_truthy L (d_weight_kg data) of
        Inl e \<Rightarrow>
          (if e = ValueError then (JsonError 400 Erro_de_validacao, st)
           else (JsonError 500 (Exception_text e), st))
      | Inr weight \<Rightarrow>
     (case float_if_truthy L (d_length_cm data) of
        Inl e \<Rightarrow>
          (if e = ValueError then (JsonError 400 Erro_de_validacao, st)
           else (JsonError 500 (Exception_text e), st))
      | Inr length_cm \<Rightarrow>
          (let catch =
                 \<lparr>c_id = new_id, c_session_id = session_id, c_species = species,
                  c_weight_kg = weight, c_length_cm = length_cm,
                  c_bait_used = text_value (d_bait_used data),
                  c_released = bool_value (d_released data),
                  c_photo_url = text_value (d_photo_url data),
                  c_created_at = now\<rparr>
           in if new_id \<in> set (map c_id (catches st))
              then (JsonError 500 (Exception_text IntegrityError), st)
              else (Json 201 catch, st\<lparr>catches := catches st @ [catch]\<rparr>)))))))"

definition get_catch :: "string \<Rightarrow> string \<Rightarrow> store \<Rightarrow> catch response" where
  "get_catch current_user_id catch_id st =
     (case find (\<lambda>c. c_id c = catch_id \<and> catch_of_user st current_user_id c) (catches st) of
        None \<Rightarrow> JsonError 404 Captura_nao_encontrada
      | Some catch \<Rightarrow> Json 200 catch)"

text \<open>The assignments of \<^verbatim>\<open>update_catch\<close>, lines 143-156. The session and
  species columns are not null, and the session of a catch exists: the database
  checks both at the commit.\<close>

definition set_weight_kg :: "pylib \<Rightarrow> jnumber option \<Rightarrow> catch \<Rightarrow> pyexc + catch" where
  "set_weight_kg L v c =
     (case v of
        None \<Rightarrow> Inr c
      | Some x \<Rightarrow>
          (case float_if_truthy L (Some x) of
             Inl e \<Rightarrow> Inl e
           | Inr w \<Rightarrow> Inr (c\<lparr>c_weight_kg := w\<rparr>)))"

definition set_length_cm :: "pylib \<Rightarrow> jnumber option \<Rightarrow> catch \<Rightarrow> pyexc + catch" where
  "set_length_cm L v c =
     (case v of
        None \<Rightarrow> Inr c
      | Some x \<Rightarrow>
          (case float_if_truthy L (Some x) of
             Inl e \<Rightarrow> Inl e
           | Inr w \<Rightarrow> Inr (c\<lparr>c_length_cm := w\<rparr>)))"

definition set_bait_used :: "jtext option \<Rightarrow> catch \<Rightarrow> catch" where
  "set_bait_used v c = (case v of None \<Rightarrow> c | Some x \<Rightarrow> c\<lparr>c_bait_used := text_value (Some x)\<rparr>)"

definition set_released :: "jbool option \<Rightarrow> catch \<Rightarrow> catch" where
  "set_released v c = (case v of None \<Rightarrow> c | Some x \<Rightarrow> c\<lparr>c_released := bool_value (Some x)\<rparr>)"

definition set_photo_url :: "jtext option \<Rightarrow> catch \<Rightarrow> catch" where
  "set_photo_url v c = (case v of None \<Rightarrow> c | Some x \<Rightarrow> c\<lparr>c_photo_url := text_value (Some x)\<rparr>)"

fun assigned_text :: "jtext option \<Rightarrow> string \<Rightarrow> string option" where
  "assigned_text None old = Some old"
| "assigned_text (Some v) old = text_value (Some v)"

definition update_catch ::
  "pylib \<Rightarrow> string \<Rightarrow> string \<Rightarrow> catch_data \<Rightarrow> store \<Rightarrow> catch response \<times> store"
where
  "update_catch L current_user_id catch_id data st =
     (case find (\<lambda>c. c_id c = catch_id \<and> catch_of_user st current_user_id c) (catches st) of
        None \<Rightarrow> (JsonError 404 Captura_nao_encontrada, st)
      | Some catch \<Rightarrow>
          if (case required (d_session_id data) of
                None \<Rightarrow> False
              | Some sid \<Rightarrow>
                  sid \<noteq> c_session_id catch \<and>
                  find (\<lambda>s. fs_id s = sid \<and> fs_user_id s = current_user_id) (sessions st) = None)
          then (JsonError 404 Sessao_nao_encontrada, st)
          else
            (case set_weight_kg L (d_weight_kg data) catch of
               Inl e \<Rightarrow>
                 (if e = ValueError then (JsonError 400 Erro_de_validacao, st)
                  else (JsonError 500 (Exception_text e), st))
             | Inr c1 \<Rightarrow>
            (case set_length_cm L (d_length_cm data) c1 of
               Inl e \<Rightarrow>
                 (if e = ValueError then (JsonError 400 Erro_de_validacao, st)
                  else (JsonError 500 (Exception_text e), st))
             | Inr c2 \<Rightarrow>
            (case (assigned_text (d_session_id data) (c_session_id catch),
                   assigned_text (d_species data) (c_species catch)) of
               (Some sid, Some species) \<Rightarrow>
                 if sid \<noteq> c_session_id catch \<and> sid \<notin> set (map fs_id (sessions st))
                 then (JsonError 500 (Exception_text IntegrityError), st)
                 else
                   (let c' = (set_photo_url (d_photo_url data)
                               (set_released (d_released data)
                                 (set_bait_used (d_bait_used data) c2)))
                             \<lparr>c_session_id := sid, c_species := species\<rparr>
                    in (Json 200 c',
                        st\<lparr>catches :=
                             map (\<lambda>r. if c_id r = c_id catch then c' else r) (catches st)\<rparr>))
             | _ \<Rightarrow> (JsonError 500 (Exception_text IntegrityError), st)))))"

text \<open>The response names the species and the weight of the deleted catch.\<close>

definition delete_catch ::
  "string \<Rightarrow> string \<Rightarrow> store \<Rightarrow> (string \<times> real option) response \<times> store" where
  "delete_catch current_user_id catch_id st =
     (case find (\<lambda>c. c_id c = catch_id \<and> catch_of_user st current_user_id c) (catches st) of
        None \<Rightarrow> (JsonError 404 Captura_nao_encontrada, st)
      | Some catch \<Rightarrow>
          (Json 200 (c_species catch, c_weight_kg catch),
           st\<lparr>catches := filter (\<lambda>c. c_id c \<noteq> c_id catch) (catches st)\<rparr>))"

section \<open>Statistics (routes/stats.py)\<close>

subsection \<open>Queries\<close>

definition user_sessions :: "store \<Rightarrow> string \<Rightarrow> fishing_session list" where
  "user_sessions st user_id = filter (\<lambda>s. fs_user_id s = user_id) (sessions st)"

definition user_locations :: "store \<Rightarrow> string \<Rightarrow> location list" where
  "user_locations st user_id = filter (\<lambda>l. loc_user_id l = user_id) (locations st)"

text \<open>\<^verbatim>\<open>query(Catch).join(FishingSession)\<close>: a row for each catch and each session
  whose id is the \<^verbatim>\<open>session_id\<close> of the catch.\<close>

definition catch_join :: "store \<Rightarrow> (catch \<times> fishing_session) list" where
  "catch_join st =
     concat (map (\<lambda>c. map (Pair c) (filter (\<lambda>s. fs_id s = c_session_id c) (sessions st)))
               (catches st))"

definition user_catch_rows :: "store \<Rightarrow> string \<Rightarrow> (catch \<times> fishing_session) list" where
  "user_catch_rows st user_id = filter (\<lambda>r. fs_user_id (snd r) = user_id) (catch_join st)"

definition non_null :: "'a option list \<Rightarrow> 'a list" where
  "non_null xs = concat (map (\<lambda>x. case x of None \<Rightarrow> [] | Some v \<Rightarrow> [v]) xs)"

text \<open>The aggregates \<^verbatim>\<open>SUM\<close> and \<^verbatim>\<open>AVG\<close> are null over no value.\<close>

definition sum_int :: "int list \<Rightarrow> int option" where
  "sum_int xs = (if xs = [] then None else Some (sum_list xs))"

definition sum_float :: "pylib \<Rightarrow> real list \<Rightarrow> real option" where
  "sum_float L xs = (if xs = [] then None else Some (db_sum L xs))"

definition avg_float :: "pylib \<Rightarrow> real list \<Rightarrow> real option" where
  "avg_float L xs = (if xs = [] then None else Some (db_avg L xs))"

text \<open>\<^verbatim>\<open>GROUP BY\<close>, \<^verbatim>\<open>ORDER BY\<close> and \<^verbatim>\<open>LIMIT\<close>. Rows with equal keys keep
  the order they had.\<close>

definition group_by :: "('a \<Rightarrow> 'k) \<Rightarrow> 'a list \<Rightarrow> ('k \<times> 'a list) list" where
  "group_by key rows =
     map (\<lambda>k. (k, filter (\<lambda>r. key r = k) rows)) (remdups (map key rows))"

definition order_by_asc :: "('a \<Rightarrow> 'k::linorder) \<Rightarrow> 'a list \<Rightarrow> 'a list" where
  "order_by_asc key rows = sort_key key rows"

definition order_by_desc :: "('a \<Rightarrow> 'k::linorder) \<Rightarrow> 'a list \<Rightarrow> 'a list" where
  "order_by_desc key rows = rev (sort_key key (rev rows))"

definition sql_limit :: "int \<Rightarrow> 'a list \<Rightarrow> pyexc + 'a list" where
  "sql_limit n rows = (if n < 0 then Inl DatabaseError else Inr (take (nat n) rows))"

text \<open>The key of \<^verbatim>\<open>desc(FishingSession.date), desc(FishingSession.start_time)\<close>.\<close>

definition session_order_key :: "fishing_session \<Rightarrow> int \<times> nat \<times> nat" where
  "session_order_key s = (fs_date s, hour (fs_start_time s), minute (fs_start_time s))"

text \<open>\<^verbatim>\<open>round(x, 2) if x else None\<close>, \<^verbatim>\<open>round(x, 2) if x else 0\<close> and
  \<^verbatim>\<open>round(m / 60, 1) if m else 0\<close> for a nullable aggregate.\<close>

definition round2_or_none :: "pylib \<Rightarrow> real option \<Rightarrow> real option" where
  "round2_or_none L x =
     (case x of None \<Rightarrow> None | Some v \<Rightarrow> if v = 0 then None else Some (py_round L v 2))"

definition round2_or_zero :: "pylib \<Rightarrow> real option \<Rightarrow> real" where
  "round2_or_zero L x =
     (case x of None \<Rightarrow> 0 | Some v \<Rightarrow> if v = 0 then 0 else py_round L v 2)"

definition hours_or_zero :: "pylib \<Rightarrow> int option \<Rightarrow> real" where
  "hours_or_zero L total_minutes =
     (case total_minutes of
        None \<Rightarrow> 0
      | Some m \<Rightarrow> if m = 0 then 0 else py_round L (truediv L m 60) 1)"

subsection \<open>Overview\<close>

record overview =
  ov_total_sessions :: nat
  ov_total_catches :: nat
  ov_total_locations :: nat
  ov_released_count :: nat
  ov_kept_count :: int
  ov_total_weight_kg :: real
  ov_total_hours :: real
  ov_last_session_date :: "date option"
  ov_last_session_location :: "string option"

definition get_overview_stats :: "pylib \<Rightarrow> string \<Rightarrow> store \<Rightarrow> overview response" where
  "get_overview_stats L current_user_id st =
     (let n_sessions = length (user_sessions st current_user_id);
          n_catches = length (user_catch_rows st current_user_id);
          n_locations = length (user_locations st current_user_id);
          n_released =
            length (filter (\<lambda>r. c_released (fst r)) (user_catch_rows st current_user_id));
          n_kept = int n_catches - int n_released;
          total_weight =
            (case sum_float L
                    (non_null (map (\<lambda>r. c_weight_kg (fst r))
                                 (user_catch_rows st current_user_id))) of
               None \<Rightarrow> 0
             | Some w \<Rightarrow> w);
          total_minutes =
            (case sum_int (non_null (map fs_duration_minutes
                                       (user_sessions st current_user_id))) of
               None \<Rightarrow> 0
             | Some m \<Rightarrow> m);
          hours = (if total_minutes > 0 then py_round L (truediv L total_minutes 60) 1 else 0);
          weight = (if total_weight = 0 then 0 else py_round L total_weight 2)
      in case order_by_desc session_order_key (user_sessions st current_user_id) of
           [] \<Rightarrow>
             Json 200
               \<lparr>ov_total_sessions = n_sessions, ov_total_catches = n_catches,
                ov_total_locations = n_locations, ov_released_count = n_released,
                ov_kept_count = n_kept, ov_total_weight_kg = weight, ov_total_hours = hours,
                ov_last_session_date = None, ov_last_session_location = None\<rparr>
         | last_session # _ \<Rightarrow>
             (case find (\<lambda>l. loc_id l = fs_location_id last_session) (locations st) of
                None \<Rightarrow> JsonError 500 (Exception_text AttributeError)
              | Some location \<Rightarrow>
                  Json 200
                    \<lparr>ov_total_sessions = n_sessions, ov_total_catches = n_catches,
                     ov_total_locations = n_locations, ov_released_count = n_released,
                     ov_kept_count = n_kept, ov_total_weight_kg = weight, ov_total_hours = hours,
                     ov_last_session_date = Some (fs_date last_session),
                     ov_last_session_location = Some (loc_name location)\<rparr>))"

subsection \<open>Species\<close>

record species_entry =
  sp_species :: string
  sp_count :: nat
  sp_avg_weight_kg :: "real option"
  sp_total_weight_kg :: "real option"
  sp_released_count :: nat
  sp_kept_count :: int

definition species_entry_of :: "pylib \<Rightarrow> string \<times> (catch \<times> fishing_session) list \<Rightarrow> species_entry"
where
  "species_entry_of L g =
     (let weights = non_null (map (\<lambda>r. c_weight_kg (fst r)) (snd g));
          n_released = length (filter (\<lambda>r. c_released (fst r)) (snd g))
      in \<lparr>sp_species = fst g,
          sp_count = length (snd g),
          sp_avg_weight_kg = round2_or_none L (avg_float L weights),
          sp_total_weight_kg = round2_or_none L (sum_float L weights),
          sp_released_count = n_released,
          sp_kept_count = int (length (snd g)) - int n_released\<rparr>)"

definition get_species_stats ::
  "pylib \<Rightarrow> string \<Rightarrow> int \<Rightarrow> store \<Rightarrow> species_entry list response" where
  "get_species_stats L current_user_id limit st =
     (case sql_limit limit
             (order_by_desc (\<lambda>g. length (snd g))
                (group_by (\<lambda>r. c_species (fst r)) (user_catch_rows st current_user_id))) of
        Inl e \<Rightarrow> JsonError 500 (Exception_text e)
      | Inr species_counts \<Rightarrow> Json 200 (map (species_entry_of L) species_counts))"

subsection \<open>Locations\<close>

text \<open>\<^verbatim>\<open>Location.outerjoin(FishingSession).outerjoin(Catch)\<close>: the rows that one
  location gives. A location without a session gives one row with no session and no
  catch, a session without a catch one row with no catch, and a session with catches
  one row for each of its catches.\<close>

definition location_join ::
  "store \<Rightarrow> location \<Rightarrow> (fishing_session option \<times> catch option) list" where
  "location_join st l =
     (case filter (\<lambda>s. fs_location_id s = loc_id l) (sessions st) of
        [] \<Rightarrow> [(None, None)]
      | ss \<Rightarrow>
          concat (map (\<lambda>s. case filter (\<lambda>c. c_session_id c = fs_id s) (catches st) of
                              [] \<Rightarrow> [(Some s, None)]
                            | cs \<Rightarrow> map (\<lambda>c. (Some s, Some c)) cs) ss))"

definition location_rows ::
  "store \<Rightarrow> string \<Rightarrow> (location \<times> fishing_session option \<times> catch option) list" where
  "location_rows st user_id =
     concat (map (\<lambda>l. map (Pair l) (location_join st l)) (user_locations st user_id))"

record location_entry =
  le_location_id :: string
  le_location_name :: string
  le_sessions_count :: nat
  le_catches_count :: nat
  le_total_hours :: real
  le_avg_weight_kg :: "real option"

text \<open>\<^verbatim>\<open>count(FishingSession.id)\<close> and \<^verbatim>\<open>count(Catch.id)\<close> count the rows of
  the group in which the session, or the catch, is not null;
  \<^verbatim>\<open>sum(FishingSession.duration_minutes)\<close> adds the duration of the session of
  every row of the group.\<close>

definition location_entry_of ::
  "pylib \<Rightarrow> (string \<times> string) \<times> (location \<times> fishing_session option \<times> catch option) list
     \<Rightarrow> location_entry" where
  "location_entry_of L g =
     (let row_sessions = non_null (map (\<lambda>r. fst (snd r)) (snd g));
          row_catches = non_null (map (\<lambda>r. snd (snd r)) (snd g))
      in \<lparr>le_location_id = fst (fst g),
          le_location_name = snd (fst g),
          le_sessions_count = length row_sessions,
          le_catches_count = length row_catches,
          le_total_hours =
            hours_or_zero L (sum_int (non_null (map fs_duration_minutes row_sessions))),
          le_avg_weight_kg =
            round2_or_none L (avg_float L (non_null (map c_weight_kg row_catches)))\<rparr>)"

definition get_location_stats :: "pylib \<Rightarrow> string \<Rightarrow> store \<Rightarrow> location_entry list response"
where
  "get_location_stats L current_user_id st =
     Json 200
       (order_by_desc le_sessions_count
          (map (location_entry_of L)
             (group_by (\<lambda>r. (loc_id (fst r), loc_name (fst r)))
                (location_rows st current_user_id))))"

subsection \<open>Baits\<close>

record bait_entry =
  b_bait :: "string option"
  b_count :: nat
  b_avg_weight_kg :: "real option"
  b_released_count :: nat
  b_kept_count :: int
  b_success_rate :: real

text \<open>
  \<^verbatim>\<open>round((count / total_catches * 100), 1) if total_catches > 0 else 0\<close>. The
  condition is evaluated first; \<open>total_catches\<close> is the binding of the local variable
  of that name, \<open>None\<close> while nothing has been assigned to it, and reading it then
  raises \<^verbatim>\<open>UnboundLocalError\<close>.
\<close>

definition success_rate :: "pylib \<Rightarrow> nat \<Rightarrow> nat option \<Rightarrow> pyexc + real" where
  "success_rate L count total_catches =
     (case total_catches of
        None \<Rightarrow> Inl UnboundLocalError
      | Some t \<Rightarrow>
          Inr (if t > 0 then py_round L (fmul L (truediv L (int count) (int t)) 100) 1 else 0))"

text \<open>The first loop, lines 157-165, run while \<^verbatim>\<open>total_catches\<close> has the binding
  \<open>total_catches\<close>.\<close>

fun bait_entries ::
  "pylib \<Rightarrow> nat option \<Rightarrow> (string option \<times> (catch \<times> fishing_session) list) list
     \<Rightarrow> pyexc + bait_entry list" where
  "bait_entries L total_catches [] = Inr []"
| "bait_entries L total_catches (g # gs) =
     (let n_released = length (filter (\<lambda>r. c_released (fst r)) (snd g))
      in case success_rate L (length (snd g)) total_catches of
           Inl e \<Rightarrow> Inl e
         | Inr rate \<Rightarrow>
             (case bait_entries L total_catches gs of
                Inl e \<Rightarrow> Inl e
              | Inr es \<Rightarrow>
                  Inr (\<lparr>b_bait = fst g,
                        b_count = length (snd g),
                        b_avg_weight_kg =
                          round2_or_none L
                            (avg_float L (non_null (map (\<lambda>r. c_weight_kg (fst r)) (snd g)))),
                        b_released_count = n_released,
                        b_kept_count = int (length (snd g)) - int n_released,
                        b_success_rate = rate\<rparr> # es)))"

text \<open>The second loop, lines 173-174, after the assignment of line 168.\<close>

definition recompute_success_rate :: "pylib \<Rightarrow> nat \<Rightarrow> bait_entry \<Rightarrow> bait_entry" where
  "recompute_success_rate L n_catches bait_data =
     bait_data\<lparr>b_success_rate :=
       (if n_catches > 0
        then py_round L (fmul L (truediv L (int (b_count bait_data)) (int n_catches)) 100) 1
        else 0)\<rparr>"

definition bait_rows :: "store \<Rightarrow> string \<Rightarrow> (catch \<times> fishing_session) list" where
  "bait_rows st user_id =
     filter (\<lambda>r. c_bait_used (fst r) \<noteq> None \<and> c_bait_used (fst r) \<noteq> Some [])
       (user_catch_rows st user_id)"

definition get_bait_stats :: "pylib \<Rightarrow> string \<Rightarrow> int \<Rightarrow> store \<Rightarrow> bait_entry list response"
where
  "get_bait_stats L current_user_id limit st =
     (case sql_limit limit
             (order_by_desc (\<lambda>g. length (snd g))
                (group_by (\<lambda>r. c_bait_used (fst r)) (bait_rows st current_user_id))) of
        Inl e \<Rightarrow> JsonError 500 (Exception_text e)
      | Inr bait_stats \<Rightarrow>
          (case bait_entries L None bait_stats of
             Inl e \<Rightarrow> JsonError 500 (Exception_text e)
           | Inr baits_data \<Rightarrow>
               (let n_catches = length (user_catch_rows st current_user_id)
                in Json 200 (map (recompute_success_rate L n_catches) baits_data))))"

subsection \<open>Months\<close>

record month_entry =
  m_month :: string
  m_sessions_count :: nat
  m_total_hours :: real
  m_catches_count :: nat
  m_total_weight_kg :: real

text \<open>A Python dictionary, as the list of its items in the order of insertion, and
  the assignment \<^verbatim>\<open>d[k] = v\<close>.\<close>

definition dict_set :: "'k \<Rightarrow> 'v \<Rightarrow> ('k \<times> 'v) list \<Rightarrow> ('k \<times> 'v) list" where
  "dict_set k v d =
     (if k \<in> set (map fst d) then map (\<lambda>kv. if fst kv = k then (k, v) else kv) d
      else d @ [(k, v)])"

text \<open>The two queries, lines 192-199 and 202-209: the month, the number of rows and
  the sum of the group.\<close>

definition monthly_sessions ::
  "pylib \<Rightarrow> store \<Rightarrow> string \<Rightarrow> date \<Rightarrow> (date \<times> nat \<times> int option) list" where
  "monthly_sessions L st user_id twelve_months_ago =
     map (\<lambda>g. (fst g, length (snd g), sum_int (non_null (map fs_duration_minutes (snd g)))))
       (order_by_asc fst
          (group_by (\<lambda>s. date_trunc_month L (fs_date s))
             (filter (\<lambda>s. twelve_months_ago \<le> fs_date s) (user_sessions st user_id))))"

definition monthly_catches ::
  "pylib \<Rightarrow> store \<Rightarrow> string \<Rightarrow> date \<Rightarrow> (date \<times> nat \<times> real option) list" where
  "monthly_catches L st user_id twelve_months_ago =
     map (\<lambda>g. (fst g, length (snd g),
                sum_float L (non_null (map (\<lambda>r. c_weight_kg (fst r)) (snd g)))))
       (order_by_asc fst
          (group_by (\<lambda>r. date_trunc_month L (fs_date (snd r)))
             (filter (\<lambda>r. twelve_months_ago \<le> fs_date (snd r))
                (user_catch_rows st user_id))))"

text \<open>The bodies of the two loops, lines 214-222 and 224-228.\<close>

definition add_month_sessions ::
  "pylib \<Rightarrow> date \<times> nat \<times> int option \<Rightarrow> (string \<times> month_entry) list
     \<Rightarrow> (string \<times> month_entry) list" where
  "add_month_sessions L row monthly_data =
     (let month_str = strftime_ym L (fst row)
      in dict_set month_str
           \<lparr>m_month = month_str,
            m_sessions_count = fst (snd row),
            m_total_hours = hours_or_zero L (snd (snd row)),
            m_catches_count = 0,
            m_total_weight_kg = 0\<rparr> monthly_data)"

definition add_month_catches ::
  "pylib \<Rightarrow> date \<times> nat \<times> real option \<Rightarrow> (string \<times> month_entry) list
     \<Rightarrow> (string \<times> month_entry) list" where
  "add_month_catches L row monthly_data =
     (let month_str = strftime_ym L (fst row)
      in if month_str \<in> set (map fst monthly_data)
         then map (\<lambda>kv. if fst kv = month_str
                         then (fst kv,
                               (snd kv)\<lparr>m_catches_count := fst (snd row),
                                        m_total_weight_kg := round2_or_zero L (snd (snd row))\<rparr>)
                         else kv) monthly_data
         else monthly_data)"

text \<open>\<open>today\<close> is \<^verbatim>\<open>datetime.now().date()\<close>.\<close>

definition get_monthly_stats ::
  "pylib \<Rightarrow> string \<Rightarrow> date \<Rightarrow> store \<Rightarrow> month_entry list response" where
  "get_monthly_stats L current_user_id today st =
     (case date_add_days today (- 365) of
        Inl e \<Rightarrow> JsonError 500 (Exception_text e)
      | Inr twelve_months_ago \<Rightarrow>
          (let monthly_data =
                 fold (add_month_catches L)
                   (monthly_catches L st current_user_id twelve_months_ago)
                   (fold (add_month_sessions L)
                      (monthly_sessions L st current_user_id twelve_months_ago) [])
           in Json 200 (sort_key m_month (map snd monthly_data))))"

text \<open>The invariant of the two loops: the keys of the dictionary are distinct, and
  every entry carries its key as its month.\<close>

definition keyed :: "(string \<times> month_entry) list \<Rightarrow> bool" where
  "keyed d \<longleftrightarrow> distinct (map fst d) \<and> list_all (\<lambda>kv. m_month (snd kv) = fst kv) d"

section \<open>The mutating requests of the API\<close>

text \<open>
  The requests that write to the tables of locations, sessions and catches, each with
  the values the server draws for it (the new id, the creation time), and their
  replies.
\<close>

datatype mutation =
    Create_location string location_data
  | Update_location string location_data
  | Delete_location string
  | Create_session string session_data
  | Update_session string session_data
  | Delete_session string
  | Create_catch string int catch_data
  | Update_catch string catch_data
  | Delete_catch string

datatype reply =
    Location_reply "location response"
  | Session_reply "session_dict response"
  | Catch_reply "catch response"
  | Deleted_location_reply "string response"
  | Deleted_session_reply "(date \<times> string) response"
  | Deleted_catch_reply "(string \<times> real option) response"

fun perform :: "pylib \<Rightarrow> string \<Rightarrow> mutation \<Rightarrow> store \<Rightarrow> reply \<times> store" where
  "perform L u (Create_location new_id data) st =
     (case create_location L u new_id data st of (r, st') \<Rightarrow> (Location_reply r, st'))"
| "perform L u (Update_location location_id data) st =
     (case update_location L u location_id data st of (r, st') \<Rightarrow> (Location_reply r, st'))"
| "perform L u (Delete_location location_id) st =
     (case delete_location u location_id st of (r, st') \<Rightarrow> (Deleted_location_reply r, st'))"
| "perform L u (Create_session new_id data) st =
     (case create_session L u new_id data st of (r, st') \<Rightarrow> (Session_reply r, st'))"
| "perform L u (Update_session session_id data) st =
     (case update_session L u session_id data st of (r, st') \<Rightarrow> (Session_reply r, st'))"
| "perform L u (Delete_session session_id) st =
     (case delete_session u session_id st of (r, st') \<Rightarrow> (Deleted_session_reply r, st'))"
| "perform L u (Create_catch new_id now data) st =
     (case create_catch L u new_id now data st of (r, st') \<Rightarrow> (Catch_reply r, st'))"
| "perform L u (Update_catch catch_id data) st =
     (case update_catch L u catch_id data st of (r, st') \<Rightarrow> (Catch_reply r, st'))"
| "perform L u (Delete_catch catch_id) st =
     (case delete_catch u catch_id st of (r, st') \<Rightarrow> (Deleted_catch_reply r, st'))"

text \<open>The stores that requests of any users build from the empty tables.\<close>

definition empty_store :: store where
  "empty_store = \<lparr>locations = [], sessions = [], catches = []\<rparr>"

inductive reachable :: "pylib \<Rightarrow> store \<Rightarrow> bool" for L :: pylib where
  reachable_empty: "reachable L empty_store"
| reachable_perform: "reachable L st \<Longrightarrow> reachable L (snd (perform L u m st))"

text \<open>A stored duration that is not negative and less than a day.\<close>

definition duration_in_range :: "fishing_session \<Rightarrow> bool" where
  "duration_in_range s =
     (case fs_duration_minutes s of None \<Rightarrow> False | Some m \<Rightarrow> 0 \<le> m \<and> m < 1440)"

text \<open>The invariant of the stored sessions: times of the day, and the duration that
  belongs to them.\<close>

definition session_ok :: "fishing_session \<Rightarrow> bool" where
  "session_ok s \<longleftrightarrow>
     valid_time (fs_start_time s) \<and> valid_time (fs_end_time s) \<and>
     fs_duration_minutes s = Some (spec_duration (fs_start_time s) (fs_end_time s))"

section \<open>The reading requests of the API\<close>

record 'a page =
  pg_items :: "'a list"
  pg_total :: nat
  pg_pages :: nat
  pg_current_page :: int
  pg_per_page :: int

definition paginate :: "pylib \<Rightarrow> int \<Rightarrow> int \<Rightarrow> 'a list \<Rightarrow> 'a page" where
  "paginate L page per_page rows =
     (case page_window L page per_page (length rows) of
        (offset, limit, n_pages, current, page_size) \<Rightarrow>
          \<lparr>pg_items = take limit (drop offset rows), pg_total = length rows,
           pg_pages = n_pages, pg_current_page = current, pg_per_page = page_size\<rparr>)"

text \<open>The truth value of a query parameter that is a string.\<close>

fun param_truthy :: "string option \<Rightarrow> bool" where
  "param_truthy (Some s) = (s \<noteq> [])"
| "param_truthy None = False"

definition get_sessions ::
  "pylib \<Rightarrow> string \<Rightarrow> int \<Rightarrow> int \<Rightarrow> string option \<Rightarrow> store \<Rightarrow> session_dict page response"
where
  "get_sessions L current_user_id page per_page location_id st =
     (let query = filter (\<lambda>s. fs_user_id s = current_user_id) (sessions st);
          query = (if param_truthy location_id
                   then filter (\<lambda>s. Some (fs_location_id s) = location_id) query
                   else query);
          query = order_by_desc session_order_key query;
          p = paginate L page per_page query
      in Json 200
           \<lparr>pg_items = map (session_to_dict st) (pg_items p), pg_total = pg_total p,
            pg_pages = pg_pages p, pg_current_page = pg_current_page p,
            pg_per_page = pg_per_page p\<rparr>)"

text \<open>\<^verbatim>\<open>session.catches\<close> is the list of the catches whose \<^verbatim>\<open>session_id\<close>
  is the id of the session.\<close>

definition get_session ::
  "string \<Rightarrow> string \<Rightarrow> store \<Rightarrow> (session_dict \<times> catch list) response" where
  "get_session current_user_id session_id st =
     (case find (\<lambda>s. fs_id s = session_id \<and> fs_user_id s = current_user_id) (sessions st) of
        None \<Rightarrow> JsonError 404 Sessao_nao_encontrada
      | Some session \<Rightarrow>
          Json 200 (session_to_dict st session,
                    filter (\<lambda>c. c_session_id c = fs_id session) (catches st)))"

definition get_catches ::
  "pylib \<Rightarrow> string \<Rightarrow> int \<Rightarrow> int \<Rightarrow> string option \<Rightarrow> string option \<Rightarrow> bool option \<Rightarrow> store
     \<Rightarrow> catch page response" where
  "get_catches L current_user_id page per_page session_id species released st =
     (let query = map fst (user_catch_rows st current_user_id);
          query = (if param_truthy session_id
                   then filter (\<lambda>c. Some (c_session_id c) = session_id) query
                   else query);
          query = (case species of
                     None \<Rightarrow> query
                   | Some sp \<Rightarrow>
                       if sp = [] then query
                       else filter (\<lambda>c. ilike L (''%'' @ sp @ ''%'') (c_species c)) query);
          query = (case released of
                     None \<Rightarrow> query
                   | Some r \<Rightarrow> filter (\<lambda>c. c_released c = r) query);
          query = order_by_desc c_created_at query
      in Json 200 (paginate L page per_page query))"

text \<open>The response carries the catches and the id, the date and the name of the
  location of the session.\<close>

definition get_catches_by_session ::
  "string \<Rightarrow> string \<Rightarrow> store \<Rightarrow> (catch list \<times> string \<times> date \<times> string) response" where
  "get_catches_by_session current_user_id session_id st =
     (case find (\<lambda>s. fs_id s = session_id \<and> fs_user_id s = current_user_id) (sessions st) of
        None \<Rightarrow> JsonError 404 Sessao_nao_encontrada
      | Some session \<Rightarrow>
          (case find (\<lambda>l. loc_id l = fs_location_id session) (locations st) of
             None \<Rightarrow> JsonError 500 (Exception_text AttributeError)
           | Some location \<Rightarrow>
               Json 200
                 (order_by_desc c_created_at
                    (filter (\<lambda>c. c_session_id c = session_id) (catches st)),
                  fs_id session, fs_date session, loc_name location)))"

definition get_recent_activity ::
  "string \<Rightarrow> int \<Rightarrow> store \<Rightarrow> (session_dict list \<times> catch list) response" where
  "get_recent_activity current_user_id limit st =
     (case sql_limit limit
             (order_by_desc session_order_key (user_sessions st current_user_id)) of
        Inl e \<Rightarrow> JsonError 500 (Exception_text e)
      | Inr recent_sessions \<Rightarrow>
          (case sql_limit limit
                  (order_by_desc c_created_at (map fst (user_catch_rows st current_user_id))) of
             Inl e \<Rightarrow> JsonError 500 (Exception_text e)
           | Inr recent_catches \<Rightarrow>
               Json 200 (map (session_to_dict st) recent_sessions, recent_catches)))"

datatype query =
    Get_locations
  | Get_location string
  | Get_sessions int int "string option"
  | Get_session string
  | Get_catches int int "string option" "string option" "bool option"
  | Get_catch string
  | Get_catches_by_session string
  | Get_overview_stats
  | Get_species_stats int
  | Get_location_stats
  | Get_bait_stats int
  | Get_monthly_stats date
  | Get_recent_activity int

datatype answer =
    Locations_answer "location list response"
  | Location_answer "location response"
  | Sessions_answer "session_dict page response"
  | Session_answer "(session_dict \<times> catch list) response"
  | Catches_answer "catch page response"
  | Catch_answer "catch response"
  | Session_catches_answer "(catch list \<times> string \<times> date \<times> string) response"
  | Overview_answer "overview response"
  | Species_answer "species_entry list response"
  | Location_stats_answer "location_entry list response"
  | Bait_answer "bait_entry list response"
  | Monthly_answer "month_entry list response"
  | Recent_answer "(session_dict list \<times> catch list) response"

text \<open>The date of \<^verbatim>\<open>Get_monthly_stats\<close> is the day of the request.\<close>

fun answer_query :: "pylib \<Rightarrow> string \<Rightarrow> query \<Rightarrow> store \<Rightarrow> answer" where
  "answer_query L u Get_locations st = Locations_answer (get_locations u st)"
| "answer_query L u (Get_location location_id) st = Location_answer (get_location u location_id st)"
| "answer_query L u (Get_sessions page per_page location_id) st =
     Sessions_answer (get_sessions L u page per_page location_id st)"
| "answer_query L u (Get_session session_id) st = Session_answer (get_session u session_id st)"
| "answer_query L u (Get_catches page per_page session_id species released) st =
     Catches_answer (get_catches L u page per_page session_id species released st)"
| "answer_query L u (Get_catch catch_id) st = Catch_answer (get_catch u catch_id st)"
| "answer_query L u (Get_catches_by_session session_id) st =
     Session_catches_answer (get_catches_by_session u session_id st)"
| "answer_query L u Get_overview_stats st = Overview_answer (get_overview_stats L u st)"
| "answer_query L u (Get_species_stats limit) st = Species_answer (get_species_stats L u limit st)"
| "answer_query L u Get_location_stats st = Location_stats_answer (get_location_stats L u st)"
| "answer_query L u (Get_bait_stats limit) st = Bait_answer (get_bait_stats L u limit st)"
| "answer_query L u (Get_monthly_stats today) st = Monthly_answer (get_monthly_stats L u today st)"
| "answer_query L u (Get_recent_activity limit) st = Recent_answer (get_recent_activity u limit st)"

section \<open>The rows of a user\<close>

text \<open>
  The store cut down to the rows that a user owns: the user's locations, the user's
  sessions, and the catches of the user's sessions.
\<close>

definition restrict :: "string \<Rightarrow> store \<Rightarrow> store" where
  "restrict user_id st =
     \<lparr>locations = filter (\<lambda>l. loc_user_id l = user_id) (locations st),
      sessions = filter (\<lambda>s. fs_user_id s = user_id) (sessions st),
      catches = filter (catch_of_user st user_id) (catches st)\<rparr>"

text \<open>
  What the database and the routes keep true of the tables: the primary keys are
  distinct and not empty (they are UUIDs), and a location that a session refers to
  belongs to the user of the session.
\<close>

definition consistent :: "store \<Rightarrow> bool" where
  "consistent st \<longleftrightarrow>
     distinct (map loc_id (locations st)) \<and>
     distinct (map fs_id (sessions st)) \<and>
     distinct (map c_id (catches st)) \<and>
     [] \<notin> set (map loc_id (locations st)) \<and>
     [] \<notin> set (map fs_id (sessions st)) \<and>
     list_all (\<lambda>s. list_all (\<lambda>l. loc_id l = fs_location_id s \<longrightarrow> loc_user_id l = fs_user_id s)
                  (locations st)) (sessions st)"

fun is_create :: "mutation \<Rightarrow> bool" where
  "is_create (Create_location new_id data) = True"
| "is_create (Create_session new_id data) = True"
| "is_create (Create_catch new_id now data) = True"
| "is_create m = False"

text \<open>
  The tables as PostgreSQL keeps them: \<open>consistent\<close>, and the foreign key of a session,
  whose location is a row of the table of locations.
\<close>

definition referential :: "store \<Rightarrow> bool" where
  "referential st \<longleftrightarrow>
     consistent st \<and>
     list_all (\<lambda>s. fs_location_id s \<in> set (map loc_id (locations st))) (sessions st)"

text \<open>The primary key that \<^verbatim>\<open>generate_uuid\<close> gives a new row is not the empty string.\<close>

fun uuid_given :: "mutation \<Rightarrow> bool" where
  "uuid_given (Create_location new_id data) = (new_id \<noteq> [])"
| "uuid_given (Create_session new_id data) = (new_id \<noteq> [])"
| "uuid_given (Create_catch new_id now data) = (new_id \<noteq> [])"
| "uuid_given m = True"

text \<open>A sequence of mutating requests, each with the user that sends it.\<close>

fun run :: "pylib \<Rightarrow> (string \<times> mutation) list \<Rightarrow> store \<Rightarrow> store" where
  "run L [] st = st"
| "run L ((u, m) # ms) st = run L ms (snd (perform L u m st))"

section \<open>Sample values\<close>

text \<open>A library instance and small stores on which the operations are run below. The
  parsers of \<open>sample_lib\<close> know the strings that occur there, and its calendar knows
  January 2024 (ordinals 738886 to 738916), October 2026 (739890 to 739920) and
  January 2028 (740347 to 740377).\<close>

definition sample_lib :: pylib where
  "sample_lib =
     \<lparr>strptime_date = (\<lambda>s. if s = ''2024-01-01'' then Some 738886 else None),
      strptime_time = (\<lambda>s. if s = ''22:00'' then Some (22, 0)
                           else if s = ''02:00'' then Some (2, 0)
                           else if s = ''20:00'' then Some (20, 0)
                           else if s = ''23:30'' then Some (23, 30) else None),
      float_of_str = (\<lambda>s. None),
      py_round = (\<lambda>x n. x),
      truediv = (\<lambda>a b. real_of_int a / real_of_int b),
      fmul = (\<lambda>x y. x * y),
      db_sum = sum_list,
      db_avg = (\<lambda>xs. sum_list xs / real (length xs)),
      date_trunc_month =
        (\<lambda>d. if 738886 \<le> d \<and> d \<le> 738916 then 738886
             else if 739890 \<le> d \<and> d \<le> 739920 then 739890
             else if 740347 \<le> d \<and> d \<le> 740377 then 740347 else d),
      strftime_ym =
        (\<lambda>d. if 738886 \<le> d \<and> d \<le> 738916 then ''2024-01''
             else if 739890 \<le> d \<and> d \<le> 739920 then ''2026-10''
             else if 740347 \<le> d \<and> d \<le> 740377 then ''2028-01'' else []),
      ilike = (\<lambda>pattern s. pattern = s),
      page_window =
        (\<lambda>page per_page total.
           (nat ((page - 1) * per_page), nat per_page,
            (total + nat per_page - 1) div nat per_page, page, per_page))\<rparr>"

definition lake1 :: location where
  "lake1 = \<lparr>loc_id = ''L1'', loc_user_id = ''a'', loc_name = ''Lake1'',
            loc_latitude = 1, loc_longitude = 2, loc_description = None\<rparr>"

definition store_lake :: store where
  "store_lake = \<lparr>locations = [lake1], sessions = [], catches = []\<rparr>"

definition no_data :: session_data where
  "no_data = \<lparr>d_location_id = None, d_date = None, d_start_time = None, d_end_time = None,
              d_weather_conditions = None, d_temperature_celsius = None, d_notes = None\<rparr>"

definition night_data :: session_data where
  "night_data = no_data\<lparr>d_location_id := Some (Str ''L1''), d_date := Some (Str ''2024-01-01''),
                  d_start_time := Some (Str ''22:00''), d_end_time := Some (Str ''02:00'')\<rparr>"

definition night_session :: fishing_session where
  "night_session =
     \<lparr>fs_id = ''S1'', fs_user_id = ''a'', fs_location_id = ''L1'', fs_date = 738886,
      fs_start_time = \<lparr>hour = 22, minute = 0\<rparr>, fs_end_time = \<lparr>hour = 2, minute = 0\<rparr>,
      fs_duration_minutes = Some 240, fs_weather_conditions = None,
      fs_temperature_celsius = None, fs_notes = None\<rparr>"

definition store_night :: store where
  "store_night = \<lparr>locations = [lake1], sessions = [night_session], catches = []\<rparr>"

definition evening_data :: session_data where
  "evening_data = no_data\<lparr>d_end_time := Some (Str ''23:30'')\<rparr>"

definition evening_session :: fishing_session where
  "evening_session =
     night_session\<lparr>fs_end_time := \<lparr>hour = 23, minute = 30\<rparr>, fs_duration_minutes := Some 90\<rparr>"

definition store_evening :: store where
  "store_evening = \<lparr>locations = [lake1], sessions = [evening_session], catches = []\<rparr>"





definition bass :: catch where
  "bass =
     \<lparr>c_id = ''C1'', c_session_id = ''S1'', c_species = ''Bass'', c_weight_kg = Some 2.5,
      c_length_cm = None, c_bait_used = None, c_released = False, c_photo_url = None,
      c_created_at = 1\<rparr>"

definition scenario_session :: fishing_session where
  "scenario_session =
     \<lparr>fs_id = ''S1'', fs_user_id = ''a'', fs_location_id = ''L1'', fs_date = 738886,
      fs_start_time = \<lparr>hour = 20, minute = 0\<rparr>, fs_end_time = \<lparr>hour = 23, minute = 30\<rparr>,
      fs_duration_minutes = Some 210, fs_weather_conditions = None,
      fs_temperature_celsius = None, fs_notes = None\<rparr>"

definition store_scenario :: store where
  "store_scenario = \<lparr>locations = [lake1], sessions = [scenario_session], catches = [bass]\<rparr>"

definition overview_scenario :: overview where
  "overview_scenario =
     \<lparr>ov_total_sessions = 1, ov_total_catches = 1, ov_total_locations = 1,
      ov_released_count = 0, ov_kept_count = 1, ov_total_weight_kg = 2.5,
      ov_total_hours = 3.5, ov_last_session_date = Some 738886,
      ov_last_session_location = Some ''Lake1''\<rparr>"

definition overview_lake :: overview where
  "overview_lake =
     \<lparr>ov_total_sessions = 0, ov_total_catches = 0, ov_total_locations = 1,
      ov_released_count = 0, ov_kept_count = 0, ov_total_weight_kg = 0,
      ov_total_hours = 0, ov_last_session_date = None,
      ov_last_session_location = None\<rparr>"

definition worm_bass :: catch where
  "worm_bass = bass\<lparr>c_bait_used := Some ''worm''\<rparr>"

definition store_worm :: store where
  "store_worm = \<lparr>locations = [lake1], sessions = [scenario_session], catches = [worm_bass]\<rparr>"

definition second_bass :: catch where
  "second_bass = bass\<lparr>c_id := ''C2'', c_created_at := 2\<rparr>"

definition store_two_catches :: store where
  "store_two_catches =
     \<lparr>locations = [lake1], sessions = [scenario_session], catches = [bass, second_bass]\<rparr>"

definition future_session :: fishing_session where
  "future_session = scenario_session\<lparr>fs_date := 740361\<rparr>"

definition store_future :: store where
  "store_future = \<lparr>locations = [lake1], sessions = [future_session], catches = []\<rparr>"

definition october_session :: fishing_session where
  "october_session = scenario_session\<lparr>fs_date := 739899\<rparr>"

definition store_october :: store where
  "store_october = \<lparr>locations = [lake1], sessions = [october_session], catches = [bass]\<rparr>"

definition lake1_data :: location_data where
  "lake1_data =
     \<lparr>d_name = Some (Str ''Lake1''), d_latitude = Some (Num 1), d_longitude = Some (Num 2),
      d_description = None\<rparr>"

definition noon_data :: session_data where
  "noon_data = no_data\<lparr>d_start_time := Some (Str ''20:00''), d_end_time := Some (Str ''20:00'')\<rparr>"

definition noon_session :: fishing_session where
  "noon_session =
     night_session\<lparr>fs_start_time := \<lparr>hour = 20, minute = 0\<rparr>,
       fs_end_time := \<lparr>hour = 20, minute = 0\<rparr>, fs_duration_minutes := Some 0\<rparr>"

definition store_noon :: store where
  "store_noon = \<lparr>locations = [lake1], sessions = [noon_session], catches = []\<rparr>"







definition pond_b :: location where
  "pond_b = \<lparr>loc_id = ''L2'', loc_user_id = ''b'', loc_name = ''Pond'',
             loc_latitude = 3, loc_longitude = 4, loc_description = None\<rparr>"

definition session_b :: fishing_session where
  "session_b = scenario_session\<lparr>fs_id := ''S2'', fs_user_id := ''b'', fs_location_id := ''L2''\<rparr>"

definition catch_b :: catch where
  "catch_b = bass\<lparr>c_id := ''C2'', c_session_id := ''S2'', c_species := ''Trout''\<rparr>"

definition store_shared :: store where
  "store_shared =
     \<lparr>locations = [lake1, pond_b], sessions = [scenario_session, session_b],
      catches = [bass, catch_b]\<rparr>"

definition store_b :: store where
  "store_b = \<lparr>locations = [pond_b], sessions = [session_b], catches = [catch_b]\<rparr>"

section \<open>Properties\<close>

subsection \<open>Duration\<close>

lemma combine_minutes: "combine d t = d * 86400 + minute_of_day t * 60"
  by (simp add: combine_def minute_of_day_def)

lemma combine_less_iff:
  "combine d e < combine d s \<longleftrightarrow> minute_of_day e < minute_of_day s"
  by (simp add: combine_minutes)

lemma int_total_seconds_div_60_whole: "int_total_seconds_div_60 (k * 60) = k"
proof -
  have "- (k * 60) = (- k) * 60" by simp
  then have "(- (k * 60)) div 60 = - k" by simp
  then show ?thesis by (simp add: int_total_seconds_div_60_def)
qed

lemma calc_duration_same_day:
  assumes "minute_of_day s \<le> minute_of_day e"
  shows "calc_duration d s e = Inr (minute_of_day e - minute_of_day s)"
proof -
  have eq: "combine d e - combine d s = (minute_of_day e - minute_of_day s) * 60"
    by (simp add: combine_minutes algebra_simps)
  from assms have "\<not> minute_of_day e < minute_of_day s" by simp
  then show ?thesis
    by (simp only: calc_duration_def Let_def combine_less_iff eq
          int_total_seconds_div_60_whole if_False)
qed

lemma calc_duration_overnight:
  assumes "minute_of_day e < minute_of_day s" and "valid_date (d + 1)"
  shows "calc_duration d s e = Inr (minute_of_day e - minute_of_day s + 1440)"
proof -
  have eq: "combine (d + 1) e - combine d s
              = (minute_of_day e - minute_of_day s + 1440) * 60"
    by (simp add: combine_minutes algebra_simps)
  show ?thesis
    using assms
    by (simp only: calc_duration_def Let_def combine_less_iff date_add_days_def eq
          int_total_seconds_div_60_whole if_True sum.case)
qed

lemma set_date_success:
  assumes "set_date L v s = Inr s1"
  shows "fs_id s1 = fs_id s" "fs_user_id s1 = fs_user_id s" "fs_location_id s1 = fs_location_id s"
    "fs_start_time s1 = fs_start_time s" "fs_end_time s1 = fs_end_time s"
    "fs_duration_minutes s1 = fs_duration_minutes s"
    "fs_weather_conditions s1 = fs_weather_conditions s"
    "fs_temperature_celsius s1 = fs_temperature_celsius s" "fs_notes s1 = fs_notes s"
    "case v of None \<Rightarrow> fs_date s1 = fs_date s
             | Some j \<Rightarrow> \<exists>x. j = Str x \<and> parse_date L x = Some (fs_date s1)"
  using assms
  by (cases "(L, v, s)" rule: set_date.cases; auto split: option.splits)+

lemma set_start_time_success:
  assumes "set_start_time L v s = Inr s1"
  shows "fs_id s1 = fs_id s" "fs_user_id s1 = fs_user_id s" "fs_location_id s1 = fs_location_id s"
    "fs_date s1 = fs_date s" "fs_end_time s1 = fs_end_time s"
    "fs_duration_minutes s1 = fs_duration_minutes s"
    "fs_weather_conditions s1 = fs_weather_conditions s"
    "fs_temperature_celsius s1 = fs_temperature_celsius s" "fs_notes s1 = fs_notes s"
    "case v of None \<Rightarrow> fs_start_time s1 = fs_start_time s
             | Some j \<Rightarrow> \<exists>x. j = Str x \<and> parse_time L x = Some (fs_start_time s1)"
  using assms
  by (cases "(L, v, s)" rule: set_start_time.cases; auto split: option.splits)+

lemma set_end_time_success:
  assumes "set_end_time L v s = Inr s1"
  shows "fs_id s1 = fs_id s" "fs_user_id s1 = fs_user_id s" "fs_location_id s1 = fs_location_id s"
    "fs_date s1 = fs_date s" "fs_start_time s1 = fs_start_time s"
    "fs_duration_minutes s1 = fs_duration_minutes s"
    "fs_weather_conditions s1 = fs_weather_conditions s"
    "fs_temperature_celsius s1 = fs_temperature_celsius s" "fs_notes s1 = fs_notes s"
    "case v of None \<Rightarrow> fs_end_time s1 = fs_end_time s
             | Some j \<Rightarrow> \<exists>x. j = Str x \<and> parse_time L x = Some (fs_end_time s1)"
  using assms
  by (cases "(L, v, s)" rule: set_end_time.cases; auto split: option.splits)+

lemma set_weather_conditions_fields:
  "fs_id (set_weather_conditions v s) = fs_id s"
  "fs_user_id (set_weather_conditions v s) = fs_user_id s"
  "fs_location_id (set_weather_conditions v s) = fs_location_id s"
  "fs_date (set_weather_conditions v s) = fs_date s"
  "fs_start_time (set_weather_conditions v s) = fs_start_time s"
  "fs_end_time (set_weather_conditions v s) = fs_end_time s"
  "fs_duration_minutes (set_weather_conditions v s) = fs_duration_minutes s"
  "fs_temperature_celsius (set_weather_conditions v s) = fs_temperature_celsius s"
  "fs_notes (set_weather_conditions v s) = fs_notes s"
  "fs_weather_conditions (set_weather_conditions v s) =
     (case v of None \<Rightarrow> fs_weather_conditions s | Some j \<Rightarrow> text_value (Some j))"
  by (simp_all add: set_weather_conditions_def split: option.splits)

lemma set_notes_fields:
  "fs_id (set_notes v s) = fs_id s"
  "fs_user_id (set_notes v s) = fs_user_id s"
  "fs_location_id (set_notes v s) = fs_location_id s"
  "fs_date (set_notes v s) = fs_date s"
  "fs_start_time (set_notes v s) = fs_start_time s"
  "fs_end_time (set_notes v s) = fs_end_time s"
  "fs_duration_minutes (set_notes v s) = fs_duration_minutes s"
  "fs_temperature_celsius (set_notes v s) = fs_temperature_celsius s"
  "fs_weather_conditions (set_notes v s) = fs_weather_conditions s"
  "fs_notes (set_notes v s) = (case v of None \<Rightarrow> fs_notes s | Some j \<Rightarrow> text_value (Some j))"
  by (simp_all add: set_notes_def split: option.splits)

lemma set_temperature_celsius_success:
  assumes "set_temperature_celsius L v s = Inr s1"
  shows "fs_id s1 = fs_id s" "fs_user_id s1 = fs_user_id s" "fs_location_id s1 = fs_location_id s"
    "fs_date s1 = fs_date s" "fs_start_time s1 = fs_start_time s" "fs_end_time s1 = fs_end_time s"
    "fs_duration_minutes s1 = fs_duration_minutes s"
    "fs_weather_conditions s1 = fs_weather_conditions s" "fs_notes s1 = fs_notes s"
    "case v of None \<Rightarrow> fs_temperature_celsius s1 = fs_temperature_celsius s
             | Some j \<Rightarrow> float_if_truthy L (Some j) = Inr (fs_temperature_celsius s1)"
  using assms
  by (auto simp: set_temperature_celsius_def split: option.splits sum.splits)

lemma recalc_duration_success:
  assumes "recalc_duration data s = Inr s1"
  shows "fs_id s1 = fs_id s" "fs_user_id s1 = fs_user_id s" "fs_location_id s1 = fs_location_id s"
    "fs_date s1 = fs_date s" "fs_start_time s1 = fs_start_time s" "fs_end_time s1 = fs_end_time s"
    "fs_weather_conditions s1 = fs_weather_conditions s"
    "fs_temperature_celsius s1 = fs_temperature_celsius s" "fs_notes s1 = fs_notes s"
    "if d_date data \<noteq> None \<or> d_start_time data \<noteq> None \<or> d_end_time data \<noteq> None
     then \<exists>m. calc_duration (fs_date s) (fs_start_time s) (fs_end_time s) = Inr m \<and>
              fs_duration_minutes s1 = Some m
     else fs_duration_minutes s1 = fs_duration_minutes s"
  using assms
  by (auto simp: recalc_duration_def split: if_splits sum.splits)


lemma apply_session_fields_success:
  assumes "apply_session_fields L data s = Inr s'"
  shows "fs_id s' = fs_id s" "fs_user_id s' = fs_user_id s"
    "fs_location_id s' = fs_location_id s"
    "case d_date data of
       None \<Rightarrow> fs_date s' = fs_date s
     | Some v \<Rightarrow> \<exists>x. v = Str x \<and> parse_date L x = Some (fs_date s')"
    "case d_start_time data of
       None \<Rightarrow> fs_start_time s' = fs_start_time s
     | Some v \<Rightarrow> \<exists>x. v = Str x \<and> parse_time L x = Some (fs_start_time s')"
    "case d_end_time data of
       None \<Rightarrow> fs_end_time s' = fs_end_time s
     | Some v \<Rightarrow> \<exists>x. v = Str x \<and> parse_time L x = Some (fs_end_time s')"
    "fs_weather_conditions s' =
       (case d_weather_conditions data of
          None \<Rightarrow> fs_weather_conditions s
        | Some v \<Rightarrow> text_value (Some v))"
    "case d_temperature_celsius data of
       None \<Rightarrow> fs_temperature_celsius s' = fs_temperature_celsius s
     | Some v \<Rightarrow> float_if_truthy L (Some v) = Inr (fs_temperature_celsius s')"
    "fs_notes s' =
       (case d_notes data of None \<Rightarrow> fs_notes s | Some v \<Rightarrow> text_value (Some v))"
    "if d_date data \<noteq> None \<or> d_start_time data \<noteq> None \<or> d_end_time data \<noteq> None
     then \<exists>m. calc_duration (fs_date s') (fs_start_time s') (fs_end_time s') = Inr m \<and>
              fs_duration_minutes s' = Some m
     else fs_duration_minutes s' = fs_duration_minutes s"
proof -
  from assms obtain s1 s2 s3 s4 where
    1: "set_date L (d_date data) s = Inr s1" and
    2: "set_start_time L (d_start_time data) s1 = Inr s2" and
    3: "set_end_time L (d_end_time data) s2 = Inr s3" and
    4: "set_temperature_celsius L (d_temperature_celsius data)
          (set_weather_conditions (d_weather_conditions data) s3) = Inr s4" and
    5: "recalc_duration data (set_notes (d_notes data) s4) = Inr s'"
    by (auto simp: apply_session_fields_def split: sum.splits)
  note a = set_date_success[OF 1]
  note b = set_start_time_success[OF 2]
  note c = set_end_time_success[OF 3]
  note d = set_temperature_celsius_success[OF 4]
  note e = recalc_duration_success[OF 5]
  note w = set_weather_conditions_fields
  note n = set_notes_fields
  show "fs_id s' = fs_id s"
    by (simp only: e(1) n(1) d(1) w(1) c(1) b(1) a(1))
  show "fs_user_id s' = fs_user_id s"
    by (simp only: e(2) n(2) d(2) w(2) c(2) b(2) a(2))
  show "fs_location_id s' = fs_location_id s"
    by (simp only: e(3) n(3) d(3) w(3) c(3) b(3) a(3))
  have dt: "fs_date s' = fs_date s1"
    by (simp only: e(4) n(4) d(4) w(4) c(4) b(4))
  have st: "fs_start_time s' = fs_start_time s2"
    by (simp only: e(5) n(5) d(5) w(5) c(5))
  have en: "fs_end_time s' = fs_end_time s3"
    by (simp only: e(6) n(6) d(6) w(6))
  show "case d_date data of
       None \<Rightarrow> fs_date s' = fs_date s
     | Some v \<Rightarrow> \<exists>x. v = Str x \<and> parse_date L x = Some (fs_date s')"
    using a(10) by (simp only: dt)
  show "case d_start_time data of
       None \<Rightarrow> fs_start_time s' = fs_start_time s
     | Some v \<Rightarrow> \<exists>x. v = Str x \<and> parse_time L x = Some (fs_start_time s')"
    using b(10) by (simp only: st a(4))
  show "case d_end_time data of
       None \<Rightarrow> fs_end_time s' = fs_end_time s
     | Some v \<Rightarrow> \<exists>x. v = Str x \<and> parse_time L x = Some (fs_end_time s')"
    using c(10) by (simp only: en b(5) a(5))
  show "fs_weather_conditions s' =
       (case d_weather_conditions data of
          None \<Rightarrow> fs_weather_conditions s
        | Some v \<Rightarrow> text_value (Some v))"
    by (simp only: e(7) n(9) d(8) w(10) c(7) b(7) a(7))
  have "fs_temperature_celsius s' = fs_temperature_celsius s4"
    by (simp only: e(8) n(8))
  moreover have "fs_temperature_celsius s3 = fs_temperature_celsius s"
    by (simp only: c(8) b(8) a(8))
  ultimately show "case d_temperature_celsius data of
       None \<Rightarrow> fs_temperature_celsius s' = fs_temperature_celsius s
     | Some v \<Rightarrow> float_if_truthy L (Some v) = Inr (fs_temperature_celsius s')"
    using d(10) by (cases "d_temperature_celsius data") (simp_all add: w(8))
  show "fs_notes s' =
       (case d_notes data of None \<Rightarrow> fs_notes s | Some v \<Rightarrow> text_value (Some v))"
    by (simp only: e(9) n(10) d(9) w(9) c(9) b(9) a(9))
  have du: "fs_duration_minutes s4 = fs_duration_minutes s"
    by (simp only: d(7) w(7) c(6) b(6) a(6))
  show "if d_date data \<noteq> None \<or> d_start_time data \<noteq> None \<or> d_end_time data \<noteq> None
     then \<exists>m. calc_duration (fs_date s') (fs_start_time s') (fs_end_time s') = Inr m \<and>
              fs_duration_minutes s' = Some m
     else fs_duration_minutes s' = fs_duration_minutes s"
    using e(10) by (simp only: e(4) e(5) e(6) n(7) du)
qed

lemma calc_duration_spec:
  assumes "calc_duration d s e = Inr m"
  shows "m = spec_duration s e"
proof (cases "minute_of_day e < minute_of_day s")
  case True
  with assms have v: "valid_date (d + 1)"
    by (auto simp: calc_duration_def Let_def combine_less_iff date_add_days_def split: if_splits)
  from calc_duration_overnight[OF True v] assms True show ?thesis
    by (simp add: spec_duration_def)
next
  case False
  then have "minute_of_day s \<le> minute_of_day e" by simp
  from calc_duration_same_day[OF this] assms False show ?thesis
    by (simp add: spec_duration_def)
qed

subsection \<open>What a successful create or update of a session has done\<close>

lemma create_session_success:
  assumes "create_session L u nid data st = (Json code body, st')"
  shows "\<exists>location_id date_str start_str end_str date start_time end_time m temp.
           required (d_location_id data) = Some location_id \<and>
           required (d_date data) = Some date_str \<and>
           required (d_start_time data) = Some start_str \<and>
           required (d_end_time data) = Some end_str \<and>
           find (\<lambda>l. loc_id l = location_id \<and> loc_user_id l = u) (locations st) \<noteq> None \<and>
           parse_date L date_str = Some date \<and>
           parse_time L start_str = Some start_time \<and>
           parse_time L end_str = Some end_time \<and>
           calc_duration date start_time end_time = Inr m \<and>
           float_if_truthy L (d_temperature_celsius data) = Inr temp \<and>
           nid \<notin> set (map fs_id (sessions st)) \<and>
           code = 201 \<and>
           sd_session body =
             \<lparr>fs_id = nid, fs_user_id = u, fs_location_id = location_id, fs_date = date,
              fs_start_time = start_time, fs_end_time = end_time,
              fs_duration_minutes = Some m,
              fs_weather_conditions = text_value (d_weather_conditions data),
              fs_temperature_celsius = temp,
              fs_notes = text_value (d_notes data)\<rparr> \<and>
           body = session_to_dict st' (sd_session body) \<and>
           st' = st\<lparr>sessions := sessions st @ [sd_session body]\<rparr>"
  using assms
  by (auto simp: create_session_def insert_session_def Let_def session_to_dict_def
           split: option.splits sum.splits if_splits)

lemma update_session_success:
  assumes "update_session L u sid data st = (Json code body, st')"
  shows "\<exists>session s l.
           find (\<lambda>s. fs_id s = sid \<and> fs_user_id s = u) (sessions st) = Some session \<and>
           apply_session_fields L data session = Inr s \<and>
           assigned_location_id (d_location_id data) session = Some l \<and>
           (l = fs_location_id session \<or> l \<in> set (map loc_id (locations st))) \<and>
           code = 200 \<and>
           sd_session body = s\<lparr>fs_location_id := l\<rparr> \<and>
           body = session_to_dict st' (sd_session body) \<and>
           st' = st\<lparr>sessions :=
                    map (\<lambda>r. if fs_id r = fs_id session then sd_session body else r) (sessions st)\<rparr>"
  using assms
  by (auto simp: update_session_def commit_session_def Let_def session_to_dict_def
           split: option.splits sum.splits if_splits)

lemma find_SomeD: "find P xs = Some x \<Longrightarrow> x \<in> set xs \<and> P x"
  by (induction xs) (auto split: if_splits)

subsection \<open>C1: the stored duration\<close>

text \<open>
  C1. A session stored by a successful create, or by a successful update whose
  payload holds one of the keys date, start\_time, end\_time, carries the date and the
  times parsed from the payload (or kept from the row) and the duration
  \<open>end - start\<close> in minutes when the end is not before the start, and
  \<open>end - start + 24h\<close> otherwise; from 22:00 to 02:00 that is 240 minutes.
\<close>

theorem stored_duration_is_spec_duration:
  "(create_session L u nid data st = (Json code body, st') \<longrightarrow>
      sd_session body \<in> set (sessions st') \<and>
      (\<exists>ds ss es. required (d_date data) = Some ds \<and> required (d_start_time data) = Some ss \<and>
          required (d_end_time data) = Some es \<and>
          parse_date L ds = Some (fs_date (sd_session body)) \<and>
          parse_time L ss = Some (fs_start_time (sd_session body)) \<and>
          parse_time L es = Some (fs_end_time (sd_session body))) \<and>
      fs_duration_minutes (sd_session body) =
        Some (spec_duration (fs_start_time (sd_session body)) (fs_end_time (sd_session body))))
   \<and> (update_session L u sid data st = (Json code body, st') \<and>
        (d_date data \<noteq> None \<or> d_start_time data \<noteq> None \<or> d_end_time data \<noteq> None) \<longrightarrow>
      sd_session body \<in> set (sessions st') \<and>
      fs_duration_minutes (sd_session body) =
        Some (spec_duration (fs_start_time (sd_session body)) (fs_end_time (sd_session body))))
   \<and> (valid_date (d + 1) \<longrightarrow>
        calc_duration d \<lparr>hour = 22, minute = 0\<rparr> \<lparr>hour = 2, minute = 0\<rparr> = Inr 240)"
proof (intro conjI impI)
  assume a: "create_session L u nid data st = (Json code body, st')"
  from create_session_success[OF a] obtain location_id date_str start_str end_str date
      start_time end_time m temp where
    r: "required (d_date data) = Some date_str" "required (d_start_time data) = Some start_str"
       "required (d_end_time data) = Some end_str"
       "parse_date L date_str = Some date" "parse_time L start_str = Some start_time"
       "parse_time L end_str = Some end_time" and
    c: "calc_duration date start_time end_time = Inr m" and
    b: "sd_session body =
             \<lparr>fs_id = nid, fs_user_id = u, fs_location_id = location_id, fs_date = date,
              fs_start_time = start_time, fs_end_time = end_time,
              fs_duration_minutes = Some m,
              fs_weather_conditions = text_value (d_weather_conditions data),
              fs_temperature_celsius = temp,
              fs_notes = text_value (d_notes data)\<rparr>" and
    s: "st' = st\<lparr>sessions := sessions st @ [sd_session body]\<rparr>"
    by blast
  show "sd_session body \<in> set (sessions st')" by (simp add: s)
  show "\<exists>ds ss es. required (d_date data) = Some ds \<and> required (d_start_time data) = Some ss \<and>
          required (d_end_time data) = Some es \<and>
          parse_date L ds = Some (fs_date (sd_session body)) \<and>
          parse_time L ss = Some (fs_start_time (sd_session body)) \<and>
          parse_time L es = Some (fs_end_time (sd_session body))"
    using r by (simp add: b)
  show "fs_duration_minutes (sd_session body) =
        Some (spec_duration (fs_start_time (sd_session body)) (fs_end_time (sd_session body)))"
    using calc_duration_spec[OF c] by (simp add: b)
next
  assume a: "update_session L u sid data st = (Json code body, st') \<and>
        (d_date data \<noteq> None \<or> d_start_time data \<noteq> None \<or> d_end_time data \<noteq> None)"
  then have k: "d_date data \<noteq> None \<or> d_start_time data \<noteq> None \<or> d_end_time data \<noteq> None"
    by simp
  from a update_session_success[of L u sid data st code body st'] obtain session s l where
    f: "find (\<lambda>s. fs_id s = sid \<and> fs_user_id s = u) (sessions st) = Some session" and
    p: "apply_session_fields L data session = Inr s" and
    b: "sd_session body = s\<lparr>fs_location_id := l\<rparr>" and
    s: "st' = st\<lparr>sessions :=
                    map (\<lambda>r. if fs_id r = fs_id session then sd_session body else r) (sessions st)\<rparr>"
    by blast
  from find_SomeD[OF f] have "session \<in> set (sessions st)" by simp
  then show "sd_session body \<in> set (sessions st')"
    by (auto simp: s image_iff intro!: bexI[of _ session])
  from apply_session_fields_success(10)[OF p] k obtain m where
    "calc_duration (fs_date s) (fs_start_time s) (fs_end_time s) = Inr m"
    "fs_duration_minutes s = Some m"
    by auto
  with calc_duration_spec[of "fs_date s" "fs_start_time s" "fs_end_time s" m]
  show "fs_duration_minutes (sd_session body) =
        Some (spec_duration (fs_start_time (sd_session body)) (fs_end_time (sd_session body)))"
    by (simp add: b)
next
  assume "valid_date (d + 1)"
  then show "calc_duration d \<lparr>hour = 22, minute = 0\<rparr> \<lparr>hour = 2, minute = 0\<rparr> = Inr 240"
    using calc_duration_overnight[of "\<lparr>hour = 2, minute = 0\<rparr>" "\<lparr>hour = 22, minute = 0\<rparr>" d]
    by (simp add: minute_of_day_def)
qed

lemma create_night:
  "create_session sample_lib ''a'' ''S1'' night_data store_lake =
     (Json 201 \<lparr>sd_session = night_session, sd_location_name = Some ''Lake1'', sd_catches_count = 0\<rparr>,
      store_night)"
  by (simp add: create_session_def night_data_def no_data_def store_lake_def lake1_def
        sample_lib_def parse_date_def parse_time_def valid_date_def MAXORDINAL_def
        calc_duration_def combine_def date_add_days_def int_total_seconds_div_60_def
        insert_session_def session_to_dict_def night_session_def store_night_def Let_def)

lemma update_evening:
  "update_session sample_lib ''a'' ''S1'' evening_data store_night =
     (Json 200 \<lparr>sd_session = evening_session, sd_location_name = Some ''Lake1'', sd_catches_count = 0\<rparr>,
      store_evening)"
  by (simp add: update_session_def evening_data_def no_data_def store_night_def lake1_def
        night_session_def apply_session_fields_def set_weather_conditions_def
        set_temperature_celsius_def set_notes_def recalc_duration_def commit_session_def
        sample_lib_def parse_date_def parse_time_def valid_date_def MAXORDINAL_def
        calc_duration_def combine_def date_add_days_def int_total_seconds_div_60_def
        session_to_dict_def evening_session_def store_evening_def Let_def)

theorem stored_duration_is_spec_duration_witness:
  "create_session sample_lib ''a'' ''S1'' night_data store_lake =
     (Json 201 \<lparr>sd_session = night_session, sd_location_name = Some ''Lake1'', sd_catches_count = 0\<rparr>,
      store_night) \<and>
   fs_duration_minutes night_session = Some 240 \<and>
   update_session sample_lib ''a'' ''S1'' evening_data store_night =
     (Json 200 \<lparr>sd_session = evening_session, sd_location_name = Some ''Lake1'', sd_catches_count = 0\<rparr>,
      store_evening) \<and>
   d_end_time evening_data \<noteq> None \<and>
   fs_duration_minutes evening_session = Some 90 \<and>
   valid_date (738886 + 1) \<and>
   calc_duration 738886 \<lparr>hour = 22, minute = 0\<rparr> \<lparr>hour = 2, minute = 0\<rparr> = Inr 240"
  using stored_duration_is_spec_duration[of sample_lib "''a''" "''S1''" night_data store_lake 201
      "\<lparr>sd_session = night_session, sd_location_name = Some ''Lake1'', sd_catches_count = 0\<rparr>"
      store_night "''S1''" 738886]
    stored_duration_is_spec_duration[of sample_lib "''a''" "''S1''" evening_data store_night 200
      "\<lparr>sd_session = evening_session, sd_location_name = Some ''Lake1'', sd_catches_count = 0\<rparr>"
      store_evening "''S1''" 738886]
    create_night update_evening
  by (simp add: night_session_def evening_session_def evening_data_def no_data_def
        spec_duration_def minute_of_day_def valid_date_def MAXORDINAL_def)

subsection \<open>C7: a partial update changes the keys of the payload only\<close>

lemma update_session_failure:
  "update_session L u sid data st = (JsonError code e, st') \<Longrightarrow> st' = st"
  by (auto simp: update_session_def split: option.splits sum.splits if_splits prod.splits)










subsection \<open>C6: a location with sessions is not deleted\<close>

lemma filter_nonempty_iff: "filter P xs \<noteq> [] \<longleftrightarrow> list_ex P xs"
  by (induction xs) auto

text \<open>
  C6. Deleting a location that has a session: asked by the owner of the location, the
  operation answers 400 and leaves the store as it is; asked by anyone, it does not
  succeed and leaves the store as it is. A delete that succeeds found no session at
  the location, and removes the location only.
\<close>

theorem delete_location_refused_with_sessions:
  "(find (\<lambda>l. loc_id l = lid \<and> loc_user_id l = u) (locations st) \<noteq> None \<and>
    list_ex (\<lambda>s. fs_location_id s = lid) (sessions st) \<longrightarrow>
      delete_location u lid st = (JsonError 400 Local_com_sessoes_associadas, st))
   \<and> (list_ex (\<lambda>s. fs_location_id s = lid) (sessions st) \<longrightarrow>
        snd (delete_location u lid st) = st \<and>
        (\<exists>code e. fst (delete_location u lid st) = JsonError code e))
   \<and> (delete_location u lid st = (Json code body, st') \<longrightarrow>
        \<not> list_ex (\<lambda>s. fs_location_id s = lid) (sessions st) \<and>
        sessions st' = sessions st \<and> catches st' = catches st \<and>
        locations st' = filter (\<lambda>l. loc_id l \<noteq> lid) (locations st))"
proof -
  have 1: "delete_location u lid st = (JsonError 400 Local_com_sessoes_associadas, st)"
    if a: "find (\<lambda>l. loc_id l = lid \<and> loc_user_id l = u) (locations st) \<noteq> None \<and>
      list_ex (\<lambda>s. fs_location_id s = lid) (sessions st)"
  proof -
    from a obtain l where
      f: "find (\<lambda>l. loc_id l = lid \<and> loc_user_id l = u) (locations st) = Some l"
      by auto
    from find_SomeD[OF f] have "loc_id l = lid" by simp
    with a f show ?thesis
      by (simp add: delete_location_def filter_nonempty_iff)
  qed
  have 2: "snd (delete_location u lid st) = st \<and>
        (\<exists>code e. fst (delete_location u lid st) = JsonError code e)"
    if a: "list_ex (\<lambda>s. fs_location_id s = lid) (sessions st)"
  proof (cases "find (\<lambda>l. loc_id l = lid \<and> loc_user_id l = u) (locations st)")
    case None
    then show ?thesis by (simp add: delete_location_def)
  next
    case (Some l)
    from find_SomeD[OF Some] have "loc_id l = lid" by simp
    with a Some show ?thesis by (simp add: delete_location_def filter_nonempty_iff)
  qed
  have 3: "\<not> list_ex (\<lambda>s. fs_location_id s = lid) (sessions st) \<and>
        sessions st' = sessions st \<and> catches st' = catches st \<and>
        locations st' = filter (\<lambda>l. loc_id l \<noteq> lid) (locations st)"
    if a: "delete_location u lid st = (Json code body, st')"
  proof -
    from a obtain l where
      f: "find (\<lambda>l. loc_id l = lid \<and> loc_user_id l = u) (locations st) = Some l"
      by (auto simp: delete_location_def split: option.splits)
    from find_SomeD[OF f] have i: "loc_id l = lid" by simp
    from a f i have n: "filter (\<lambda>s. fs_location_id s = lid) (sessions st) = []"
      and s: "st' = st\<lparr>locations := filter (\<lambda>l. loc_id l \<noteq> lid) (locations st)\<rparr>"
      by (auto simp: delete_location_def split: if_splits)
    from n have "\<not> list_ex (\<lambda>s. fs_location_id s = lid) (sessions st)"
      using filter_nonempty_iff[of "\<lambda>s. fs_location_id s = lid" "sessions st"] by simp
    then show ?thesis by (simp add: s)
  qed
  from 1 2 3 show ?thesis by blast
qed

lemma delete_lake1_night:
  "delete_location ''a'' ''L1'' store_night = (JsonError 400 Local_com_sessoes_associadas, store_night)"
  by (simp add: delete_location_def store_night_def lake1_def night_session_def)

lemma delete_lake1_empty:
  "delete_location ''a'' ''L1'' store_lake =
     (Json 200 ''Lake1'', \<lparr>locations = [], sessions = [], catches = []\<rparr>)"
  by (simp add: delete_location_def store_lake_def lake1_def)

theorem delete_location_refused_with_sessions_witness:
  "find (\<lambda>l. loc_id l = ''L1'' \<and> loc_user_id l = ''a'') (locations store_night) \<noteq> None \<and>
   list_ex (\<lambda>s. fs_location_id s = ''L1'') (sessions store_night) \<and>
   delete_location ''a'' ''L1'' store_night = (JsonError 400 Local_com_sessoes_associadas, store_night) \<and>
   snd (delete_location ''b'' ''L1'' store_night) = store_night \<and>
   delete_location ''a'' ''L1'' store_lake =
     (Json 200 ''Lake1'', \<lparr>locations = [], sessions = [], catches = []\<rparr>) \<and>
   \<not> list_ex (\<lambda>s. fs_location_id s = ''L1'') (sessions store_lake)"
  using delete_location_refused_with_sessions[of "''L1''" "''a''" store_night 200 "''Lake1''"
      "\<lparr>locations = [], sessions = [], catches = []\<rparr>"]
    delete_location_refused_with_sessions[of "''L1''" "''b''" store_night 200 "''Lake1''"
      "\<lparr>locations = [], sessions = [], catches = []\<rparr>"]
    delete_location_refused_with_sessions[of "''L1''" "''a''" store_lake 200 "''Lake1''"
      "\<lparr>locations = [], sessions = [], catches = []\<rparr>"]
    delete_lake1_empty
  by (simp add: store_night_def store_lake_def lake1_def night_session_def)

subsection \<open>C8: creating under a parent that is not the caller's\<close>

lemma create_session_store:
  "create_session L u nid data st = (JsonError code e, st') \<Longrightarrow> st' = st"
  by (auto simp: create_session_def Let_def split: option.splits sum.splits if_splits)

lemma create_catch_store:
  "create_catch L u nid now data st = (JsonError code e, st') \<Longrightarrow> st' = st"
  by (auto simp: create_catch_def Let_def split: option.splits sum.splits if_splits)





subsection \<open>C5: the overview\<close>

lemma set_order_by_desc [simp]: "set (order_by_desc k xs) = set xs"
  by (simp add: order_by_desc_def)

lemma order_by_desc_Nil_iff: "order_by_desc k xs = [] \<longleftrightarrow> xs = []"
  by (metis set_order_by_desc set_empty)

lemma length_order_by_desc [simp]: "length (order_by_desc k xs) = length xs"
  by (simp add: order_by_desc_def)

lemma get_overview_stats_success:
  assumes "get_overview_stats L u st = Json code ov"
  shows "code = 200"
    "ov_total_sessions ov = length (user_sessions st u)"
    "ov_total_catches ov = length (user_catch_rows st u)"
    "ov_total_locations ov = length (user_locations st u)"
    "ov_released_count ov = length (filter (\<lambda>r. c_released (fst r)) (user_catch_rows st u))"
    "ov_kept_count ov = int (ov_total_catches ov) - int (ov_released_count ov)"
    "ov_total_weight_kg ov =
       (let w = (case sum_float L (non_null (map (\<lambda>r. c_weight_kg (fst r)) (user_catch_rows st u)))
                 of None \<Rightarrow> 0 | Some w \<Rightarrow> w)
        in if w = 0 then 0 else py_round L w 2)"
    "ov_total_hours ov =
       (let m = (case sum_int (non_null (map fs_duration_minutes (user_sessions st u)))
                 of None \<Rightarrow> 0 | Some m \<Rightarrow> m)
        in if m > 0 then py_round L (truediv L m 60) 1 else 0)"
  using assms
  by (auto simp: get_overview_stats_def Let_def split: list.splits option.splits)

text \<open>
  C5. In the overview, kept\_count + released\_count = total\_catches; the counts are
  natural numbers and kept\_count is not negative; total\_weight\_kg is 0 when the user
  has no catch with a weight, and total\_hours is 0 when the user has no session with a
  duration; total\_hours is \<^verbatim>\<open>round(m / 60, 1)\<close> for the sum \<open>m\<close> of the durations
  when \<open>m > 0\<close>, and 0 when \<open>m = 0\<close>; \<open>m\<close> is not negative when no stored duration
  is. The operation answers 200 whenever the location of the user's latest session
  exists, in particular when the user has no session.
\<close>

theorem overview_counts_and_totals:
  "(get_overview_stats L u st = Json code ov \<longrightarrow>
      ov_kept_count ov + int (ov_released_count ov) = int (ov_total_catches ov) \<and>
      0 \<le> ov_kept_count ov \<and>
      ov_total_sessions ov = length (user_sessions st u) \<and>
      ov_total_catches ov = length (user_catch_rows st u) \<and>
      ov_total_locations ov = length (user_locations st u) \<and>
      ov_released_count ov = length (filter (\<lambda>r. c_released (fst r)) (user_catch_rows st u)) \<and>
      (non_null (map (\<lambda>r. c_weight_kg (fst r)) (user_catch_rows st u)) = [] \<longrightarrow>
         ov_total_weight_kg ov = 0) \<and>
      (non_null (map fs_duration_minutes (user_sessions st u)) = [] \<longrightarrow>
         ov_total_hours ov = 0) \<and>
      (0 < sum_list (non_null (map fs_duration_minutes (user_sessions st u))) \<longrightarrow>
         ov_total_hours ov =
           py_round L (truediv L (sum_list (non_null (map fs_duration_minutes
                                                      (user_sessions st u)))) 60) 1) \<and>
      (sum_list (non_null (map fs_duration_minutes (user_sessions st u))) = 0 \<longrightarrow>
         ov_total_hours ov = 0))
   \<and> ((\<forall>m \<in> set (non_null (map fs_duration_minutes (user_sessions st u))). 0 \<le> m) \<longrightarrow>
        0 \<le> sum_list (non_null (map fs_duration_minutes (user_sessions st u))))
   \<and> ((\<forall>s \<in> set (user_sessions st u). fs_location_id s \<in> set (map loc_id (locations st))) \<longrightarrow>
        (\<exists>ov. get_overview_stats L u st = Json 200 ov))"
proof -
  have 1: "ov_kept_count ov + int (ov_released_count ov) = int (ov_total_catches ov) \<and>
      0 \<le> ov_kept_count ov \<and>
      ov_total_sessions ov = length (user_sessions st u) \<and>
      ov_total_catches ov = length (user_catch_rows st u) \<and>
      ov_total_locations ov = length (user_locations st u) \<and>
      ov_released_count ov = length (filter (\<lambda>r. c_released (fst r)) (user_catch_rows st u)) \<and>
      (non_null (map (\<lambda>r. c_weight_kg (fst r)) (user_catch_rows st u)) = [] \<longrightarrow>
         ov_total_weight_kg ov = 0) \<and>
      (non_null (map fs_duration_minutes (user_sessions st u)) = [] \<longrightarrow>
         ov_total_hours ov = 0) \<and>
      (0 < sum_list (non_null (map fs_duration_minutes (user_sessions st u))) \<longrightarrow>
         ov_total_hours ov =
           py_round L (truediv L (sum_list (non_null (map fs_duration_minutes
                                                      (user_sessions st u)))) 60) 1) \<and>
      (sum_list (non_null (map fs_duration_minutes (user_sessions st u))) = 0 \<longrightarrow>
         ov_total_hours ov = 0)"
    if a: "get_overview_stats L u st = Json code ov"
  proof -
    note k = get_overview_stats_success[OF a]
    have le: "length (filter (\<lambda>r. c_released (fst r)) (user_catch_rows st u))
                \<le> length (user_catch_rows st u)"
      by (rule length_filter_le)
    have k1: "ov_kept_count ov + int (ov_released_count ov) = int (ov_total_catches ov)"
      by (simp add: k(6))
    have k2: "0 \<le> ov_kept_count ov"
      using le by (simp add: k(6) k(3) k(5))
    have k3: "non_null (map (\<lambda>r. c_weight_kg (fst r)) (user_catch_rows st u)) = [] \<longrightarrow>
         ov_total_weight_kg ov = 0"
      by (simp add: k(7) sum_float_def)
    have k4: "non_null (map fs_duration_minutes (user_sessions st u)) = [] \<longrightarrow>
         ov_total_hours ov = 0"
      by (simp add: k(8) sum_int_def)
    have k5: "0 < sum_list (non_null (map fs_duration_minutes (user_sessions st u))) \<longrightarrow>
         ov_total_hours ov =
           py_round L (truediv L (sum_list (non_null (map fs_duration_minutes
                                                      (user_sessions st u)))) 60) 1"
      by (auto simp: k(8) sum_int_def)
    have k6: "sum_list (non_null (map fs_duration_minutes (user_sessions st u))) = 0 \<longrightarrow>
         ov_total_hours ov = 0"
      by (simp add: k(8) sum_int_def)
    from k1 k2 k(2,3,4,5) k3 k4 k5 k6 show ?thesis by blast
  qed
  have 2: "0 \<le> sum_list (non_null (map fs_duration_minutes (user_sessions st u)))"
    if "\<forall>m \<in> set (non_null (map fs_duration_minutes (user_sessions st u))). 0 \<le> m"
    using that by (simp add: sum_list_nonneg)
  have 3: "\<exists>ov. get_overview_stats L u st = Json 200 ov"
    if a: "\<forall>s \<in> set (user_sessions st u). fs_location_id s \<in> set (map loc_id (locations st))"
  proof (cases "order_by_desc session_order_key (user_sessions st u)")
    case Nil
    show ?thesis unfolding get_overview_stats_def Let_def Nil by simp
  next
    case (Cons s ss)
    then have "s \<in> set (order_by_desc session_order_key (user_sessions st u))" by simp
    then have "s \<in> set (user_sessions st u)" by simp
    with a have "fs_location_id s \<in> set (map loc_id (locations st))" by blast
    then have "find (\<lambda>l. loc_id l = fs_location_id s) (locations st) \<noteq> None"
      by (auto simp: find_None_iff)
    then obtain l where "find (\<lambda>l. loc_id l = fs_location_id s) (locations st) = Some l"
      by blast
    then show ?thesis unfolding get_overview_stats_def Let_def Cons by simp
  qed
  from 1 2 3 show ?thesis by blast
qed


lemma overview_of_scenario:
  "get_overview_stats sample_lib ''a'' store_scenario = Json 200 overview_scenario"
  by (simp add: get_overview_stats_def Let_def store_scenario_def user_sessions_def
        user_catch_rows_def catch_join_def user_locations_def scenario_session_def bass_def
        lake1_def non_null_def sum_float_def sum_int_def sample_lib_def order_by_desc_def
        overview_scenario_def)

lemma overview_of_lake:
  "get_overview_stats sample_lib ''a'' store_lake = Json 200 overview_lake"
  by (simp add: get_overview_stats_def Let_def store_lake_def user_sessions_def
        user_catch_rows_def catch_join_def user_locations_def
        lake1_def non_null_def sum_float_def sum_int_def sample_lib_def order_by_desc_def
        overview_lake_def)

theorem overview_counts_and_totals_witness:
  "get_overview_stats sample_lib ''a'' store_scenario = Json 200 overview_scenario \<and>
   ov_kept_count overview_scenario + int (ov_released_count overview_scenario)
     = int (ov_total_catches overview_scenario) \<and>
   0 < sum_list (non_null (map fs_duration_minutes (user_sessions store_scenario ''a''))) \<and>
   ov_total_hours overview_scenario = 3.5 \<and>
   non_null (map fs_duration_minutes (user_sessions store_scenario ''a'')) = [210] \<and>
   map fs_location_id (user_sessions store_scenario ''a'') = [''L1''] \<and>
   map loc_id (locations store_scenario) = [''L1''] \<and>
   get_overview_stats sample_lib ''a'' store_lake = Json 200 overview_lake \<and>
   non_null (map (\<lambda>r. c_weight_kg (fst r)) (user_catch_rows store_lake ''a'')) = [] \<and>
   non_null (map fs_duration_minutes (user_sessions store_lake ''a'')) = [] \<and>
   sum_list (non_null (map fs_duration_minutes (user_sessions store_lake ''a''))) = 0 \<and>
   ov_total_weight_kg overview_lake = 0 \<and> ov_total_hours overview_lake = 0"
  using overview_counts_and_totals[of sample_lib "''a''" store_scenario 200 overview_scenario]
    overview_counts_and_totals[of sample_lib "''a''" store_lake 200 overview_lake]
    overview_of_scenario overview_of_lake
  by (simp add: store_scenario_def store_lake_def user_sessions_def user_catch_rows_def
        catch_join_def scenario_session_def lake1_def non_null_def overview_scenario_def
        overview_lake_def)

subsection \<open>C2 and C3: the bait and the location breakdown\<close>

lemma bait_entries_unbound:
  "gs \<noteq> [] \<Longrightarrow> bait_entries L None gs = Inl UnboundLocalError"
  by (cases gs) (simp_all add: success_rate_def Let_def)

lemma group_by_Nil_iff: "group_by key rows = [] \<longleftrightarrow> rows = []"
  by (simp add: group_by_def)

lemma get_bait_stats_with_bait:
  assumes "bait_rows st u \<noteq> []" and "0 < limit"
  shows "get_bait_stats L u limit st = JsonError 500 (Exception_text UnboundLocalError)"
proof -
  let ?gs = "order_by_desc (\<lambda>g. length (snd g))
               (group_by (\<lambda>r. c_bait_used (fst r)) (bait_rows st u))"
  from assms(1) have "?gs \<noteq> []"
    by (simp add: order_by_desc_Nil_iff group_by_Nil_iff)
  moreover from assms(2) have "0 < nat limit" by simp
  ultimately have "take (nat limit) ?gs \<noteq> []"
    by (cases ?gs; cases "nat limit") simp_all
  from bait_entries_unbound[OF this] assms(2) show ?thesis
    by (simp add: get_bait_stats_def sql_limit_def)
qed

text \<open>
  C2. The user \<open>a\<close> has one session and one catch, taken with the bait \<open>worm\<close>. The
  first loop of \<^verbatim>\<open>get_bait_stats\<close> reads \<^verbatim>\<open>total_catches\<close> before line 168
  assigns it, so the operation answers 500 with the text of the
  \<^verbatim>\<open>UnboundLocalError\<close> instead of the success rate 100.
\<close>

theorem get_bait_stats_fails_on_first_bait:
  "get_bait_stats sample_lib ''a'' 10 store_worm
     = JsonError 500 (Exception_text UnboundLocalError)"
  by (rule get_bait_stats_with_bait)
     (simp_all add: bait_rows_def user_catch_rows_def catch_join_def store_worm_def
        worm_bass_def bass_def scenario_session_def)

text \<open>
  C3. The user \<open>a\<close> has one location, one session of 210 minutes there, and two
  catches in that session. The double outer join gives the location two rows, one for
  each catch, and \<^verbatim>\<open>get_location_stats\<close> counts the session and adds its duration
  once for each: it reports 2 sessions and 7 hours where the user has 1 session of 3.5
  hours.
\<close>

theorem get_location_stats_counts_join_rows:
  "get_location_stats sample_lib ''a'' store_two_catches =
     Json 200 [\<lparr>le_location_id = ''L1'', le_location_name = ''Lake1'',
                le_sessions_count = 2, le_catches_count = 2, le_total_hours = 7,
                le_avg_weight_kg = Some 2.5\<rparr>] \<and>
   filter (\<lambda>s. fs_location_id s = ''L1'') (user_sessions store_two_catches ''a'')
     = [scenario_session] \<and>
   fs_duration_minutes scenario_session = Some 210"
  by (simp add: get_location_stats_def location_rows_def location_join_def
        user_locations_def user_sessions_def group_by_def location_entry_of_def
        order_by_desc_def store_two_catches_def lake1_def scenario_session_def bass_def
        second_bass_def non_null_def sum_int_def avg_float_def hours_or_zero_def
        round2_or_none_def sample_lib_def Let_def)

subsection \<open>C4: the monthly breakdown\<close>

text \<open>
  C4. Today is 2026-11-03 (ordinal 739923) and the user \<open>a\<close> has one session, dated
  2028-01-15 (ordinal 740361). The query keeps every session dated on or after
  \<open>today - 365\<close> days and has no upper bound, so the breakdown of the "last 12 months"
  holds the month 2028-01, whose first day (ordinal 740347) is after today.
\<close>

theorem monthly_stats_includes_future_month:
  "get_monthly_stats sample_lib ''a'' 739923 store_future =
     Json 200 [\<lparr>m_month = ''2028-01'', m_sessions_count = 1, m_total_hours = 3.5,
                m_catches_count = 0, m_total_weight_kg = 0\<rparr>] \<and>
   sessions store_future = [future_session] \<and> fs_date future_session = 740361 \<and>
   (739923 :: int) < 740347"
  by (simp add: get_monthly_stats_def date_add_days_def valid_date_def MAXORDINAL_def
        monthly_sessions_def monthly_catches_def user_sessions_def user_catch_rows_def
        catch_join_def group_by_def order_by_asc_def add_month_sessions_def
        add_month_catches_def dict_set_def store_future_def future_session_def
        scenario_session_def non_null_def sum_int_def hours_or_zero_def sample_lib_def
        Let_def)

lemma map_fst_replace:
  "map fst (map (\<lambda>kv. if fst kv = k then (k, f kv) else kv) d) = map fst d"
  by (induction d) auto

lemma map_fst_dict_set:
  "map fst (dict_set k v d) = (if k \<in> fst ` set d then map fst d else map fst d @ [k])"
  using map_fst_replace[of k "\<lambda>_. v" d] by (simp add: dict_set_def del: map_map)

lemma keys_dict_set: "fst ` set (dict_set k v d) = insert k (fst ` set d)"
proof -
  have "set (map fst (dict_set k v d)) = insert k (set (map fst d))"
    unfolding map_fst_dict_set by (cases "k \<in> fst ` set d") auto
  then show ?thesis by simp
qed

lemma distinct_dict_set:
  "distinct (map fst d) \<Longrightarrow> distinct (map fst (dict_set k v d))"
  by (simp add: map_fst_dict_set)

lemma keyed_add_month_sessions: "keyed d \<Longrightarrow> keyed (add_month_sessions L row d)"
  unfolding keyed_def add_month_sessions_def Let_def
  by (auto simp: distinct_dict_set) (auto simp: dict_set_def list_all_iff)

lemma keys_add_month_sessions:
  "fst ` set (add_month_sessions L row d) = insert (strftime_ym L (fst row)) (fst ` set d)"
  by (simp add: add_month_sessions_def Let_def keys_dict_set)

lemma map_fst_add_month_catches: "map fst (add_month_catches L row d) = map fst d"
proof -
  have "map fst (map (\<lambda>kv. if fst kv = k then (fst kv, f kv) else kv) d) = map fst d" for k f
    by (induction d) auto
  then show ?thesis by (simp add: add_month_catches_def Let_def del: map_map)
qed

lemma keyed_add_month_catches: "keyed d \<Longrightarrow> keyed (add_month_catches L row d)"
  unfolding keyed_def
  by (simp add: map_fst_add_month_catches) (auto simp: add_month_catches_def Let_def list_all_iff)

lemma keyed_fold_sessions: "keyed d \<Longrightarrow> keyed (fold (add_month_sessions L) rows d)"
  by (induction rows arbitrary: d) (simp_all add: keyed_add_month_sessions)

lemma keyed_fold_catches: "keyed d \<Longrightarrow> keyed (fold (add_month_catches L) rows d)"
  by (induction rows arbitrary: d) (simp_all add: keyed_add_month_catches)

lemma keys_fold_sessions:
  "fst ` set (fold (add_month_sessions L) rows d)
     = (\<lambda>row. strftime_ym L (fst row)) ` set rows \<union> fst ` set d"
  by (induction rows arbitrary: d) (auto simp: keys_add_month_sessions)

lemma keys_fold_catches: "map fst (fold (add_month_catches L) rows d) = map fst d"
  by (induction rows arbitrary: d) (simp_all add: map_fst_add_month_catches)

lemma set_group_by_keys: "fst ` set (group_by key rows) = key ` set rows"
  by (simp add: group_by_def image_image)


lemma keyed_months: "keyed d \<Longrightarrow> map m_month (map snd d) = map fst d"
  by (induction d) (auto simp: keyed_def)

lemma distinct_map_sort_key:
  "distinct (map f xs) \<Longrightarrow> distinct (map f (sort_key f xs))"
  by (simp add: distinct_map)

lemma user_catch_rows_session:
  "r \<in> set (user_catch_rows st u) \<Longrightarrow> snd r \<in> set (user_sessions st u)"
  by (auto simp: user_catch_rows_def catch_join_def user_sessions_def)

lemma get_monthly_stats_success:
  assumes "get_monthly_stats L u today st = Json code ms"
  shows "code = 200"
    "set (map m_month ms) =
       (\<lambda>s. strftime_ym L (date_trunc_month L (fs_date s))) `
         {s \<in> set (user_sessions st u). today - 365 \<le> fs_date s}"
    "sorted_wrt (<) (map m_month ms)"
proof -
  define rows1 where "rows1 = monthly_sessions L st u (today - 365)"
  define rows2 where "rows2 = monthly_catches L st u (today - 365)"
  define d where "d = fold (add_month_catches L) rows2 (fold (add_month_sessions L) rows1 [])"
  from assms have c: "code = 200" and ms: "ms = sort_key m_month (map snd d)"
    by (auto simp: get_monthly_stats_def date_add_days_def Let_def d_def rows1_def rows2_def
          split: if_splits)
  show "code = 200" by (rule c)
  have k: "keyed d"
    unfolding d_def by (intro keyed_fold_catches keyed_fold_sessions) (simp add: keyed_def)
  have m: "map m_month (map snd d) = map fst d" by (rule keyed_months[OF k])
  have "fst ` set d = (\<lambda>row. strftime_ym L (fst row)) ` set rows1"
  proof -
    have "fst ` set d = set (map fst d)" by simp
    also have "\<dots> = set (map fst (fold (add_month_sessions L) rows1 []))"
      by (simp only: d_def keys_fold_catches)
    also have "\<dots> = (\<lambda>row. strftime_ym L (fst row)) ` set rows1"
      using keys_fold_sessions[of L rows1 "[]"] by simp
    finally show ?thesis .
  qed
  also have "\<dots> = strftime_ym L ` (fst ` set rows1)" by (simp add: image_image)
  also have "fst ` set rows1 =
      (\<lambda>s. date_trunc_month L (fs_date s)) `
         {s \<in> set (user_sessions st u). today - 365 \<le> fs_date s}"
  proof -
    have "fst ` set rows1 = fst ` set (group_by (\<lambda>s. date_trunc_month L (fs_date s))
             (filter (\<lambda>s. today - 365 \<le> fs_date s) (user_sessions st u)))"
      by (simp add: rows1_def monthly_sessions_def order_by_asc_def image_image)
    also have "\<dots> = (\<lambda>s. date_trunc_month L (fs_date s)) `
         set (filter (\<lambda>s. today - 365 \<le> fs_date s) (user_sessions st u))"
      by (rule set_group_by_keys)
    finally show ?thesis by simp
  qed
  finally have keys: "fst ` set d =
      (\<lambda>s. strftime_ym L (date_trunc_month L (fs_date s))) `
         {s \<in> set (user_sessions st u). today - 365 \<le> fs_date s}"
    by (simp add: image_image)
  have "set (map m_month ms) = set (map m_month (map snd d))"
    unfolding ms by (simp only: set_map set_sort)
  also have "\<dots> = fst ` set d" by (simp only: m) simp
  finally show "set (map m_month ms) =
       (\<lambda>s. strftime_ym L (date_trunc_month L (fs_date s))) `
         {s \<in> set (user_sessions st u). today - 365 \<le> fs_date s}"
    by (simp only: keys)
  from k have "distinct (map m_month (map snd d))"
    by (simp only: m) (simp add: keyed_def)
  then have "distinct (map m_month ms)"
    unfolding ms by (rule distinct_map_sort_key)
  moreover have "sorted (map m_month ms)"
    unfolding ms by simp
  ultimately show "sorted_wrt (<) (map m_month ms)"
    by (simp add: strict_sorted_iff)
qed

text \<open>
  What holds of the months: the monthly breakdown has exactly one entry for each month in which the
  user has a session dated on or after \<open>today - 365\<close> days: each such month occurs,
  also a month after today's when the session is dated in the future, no other month
  occurs, and the months are strictly ascending in the order of the strings
  \<^verbatim>\<open>YYYY-MM\<close>. A catch is counted in the month of its session, so the months of the
  user's catches in that range are among them. The operation answers 200 whenever
  \<open>today - 365\<close> is a date.
\<close>

theorem monthly_stats_months:
  "(get_monthly_stats L u today st = Json code ms \<longrightarrow>
      set (map m_month ms) =
        (\<lambda>s. strftime_ym L (date_trunc_month L (fs_date s))) `
          {s \<in> set (user_sessions st u). today - 365 \<le> fs_date s} \<and>
      sorted_wrt (<) (map m_month ms) \<and>
      (\<forall>r \<in> set (user_catch_rows st u). today - 365 \<le> fs_date (snd r) \<longrightarrow>
         strftime_ym L (date_trunc_month L (fs_date (snd r))) \<in> set (map m_month ms)))
   \<and> (valid_date (today - 365) \<longrightarrow> (\<exists>ms. get_monthly_stats L u today st = Json 200 ms))"
proof -
  have 1: "set (map m_month ms) =
        (\<lambda>s. strftime_ym L (date_trunc_month L (fs_date s))) `
          {s \<in> set (user_sessions st u). today - 365 \<le> fs_date s} \<and>
      sorted_wrt (<) (map m_month ms) \<and>
      (\<forall>r \<in> set (user_catch_rows st u). today - 365 \<le> fs_date (snd r) \<longrightarrow>
         strftime_ym L (date_trunc_month L (fs_date (snd r))) \<in> set (map m_month ms))"
    if a: "get_monthly_stats L u today st = Json code ms"
  proof -
    note k = get_monthly_stats_success[OF a]
    have "strftime_ym L (date_trunc_month L (fs_date (snd r))) \<in> set (map m_month ms)"
      if "r \<in> set (user_catch_rows st u)" "today - 365 \<le> fs_date (snd r)" for r
      unfolding k(2) using user_catch_rows_session[OF that(1)] that(2) by blast
    with k(2,3) show ?thesis by blast
  qed
  have 2: "\<exists>ms. get_monthly_stats L u today st = Json 200 ms" if "valid_date (today - 365)"
    using that by (simp add: get_monthly_stats_def date_add_days_def Let_def)
  from 1 2 show ?thesis by blast
qed


lemma monthly_of_october:
  "get_monthly_stats sample_lib ''a'' 739923 store_october =
     Json 200 [\<lparr>m_month = ''2026-10'', m_sessions_count = 1, m_total_hours = 3.5,
                m_catches_count = 1, m_total_weight_kg = 2.5\<rparr>]"
  by (simp add: get_monthly_stats_def date_add_days_def valid_date_def MAXORDINAL_def
        monthly_sessions_def monthly_catches_def user_sessions_def user_catch_rows_def
        catch_join_def group_by_def order_by_asc_def add_month_sessions_def
        add_month_catches_def dict_set_def store_october_def october_session_def
        scenario_session_def bass_def non_null_def sum_int_def sum_float_def
        hours_or_zero_def round2_or_zero_def sample_lib_def Let_def)

theorem monthly_stats_months_witness:
  "get_monthly_stats sample_lib ''a'' 739923 store_october =
     Json 200 [\<lparr>m_month = ''2026-10'', m_sessions_count = 1, m_total_hours = 3.5,
                m_catches_count = 1, m_total_weight_kg = 2.5\<rparr>] \<and>
   valid_date (739923 - 365) \<and>
   user_catch_rows store_october ''a'' = [(bass, october_session)] \<and>
   739923 - 365 \<le> fs_date october_session \<and>
   strftime_ym sample_lib (date_trunc_month sample_lib (fs_date october_session)) = ''2026-10''"
  using monthly_stats_months[of sample_lib "''a''" 739923 store_october 200
      "[\<lparr>m_month = ''2026-10'', m_sessions_count = 1, m_total_hours = 3.5,
                m_catches_count = 1, m_total_weight_kg = 2.5\<rparr>]"]
    monthly_of_october
  by (simp add: valid_date_def MAXORDINAL_def user_catch_rows_def catch_join_def
        store_october_def october_session_def scenario_session_def bass_def sample_lib_def)

subsection \<open>C10: the stored durations\<close>

lemma parse_time_valid: "parse_time L x = Some t \<Longrightarrow> valid_time t"
  by (auto simp: parse_time_def valid_time_def split: option.splits prod.splits if_splits)

lemma minute_of_day_range: "valid_time t \<Longrightarrow> 0 \<le> minute_of_day t \<and> minute_of_day t < 1440"
  by (auto simp: valid_time_def minute_of_day_def)

lemma spec_duration_range:
  assumes "valid_time s" "valid_time e"
  shows "0 \<le> spec_duration s e \<and> spec_duration s e < 1440"
  using minute_of_day_range[OF assms(1)] minute_of_day_range[OF assms(2)]
  by (auto simp: spec_duration_def)

lemma spec_duration_same: "spec_duration t t = 0"
  by (simp add: spec_duration_def)

lemma session_ok_range: "session_ok s \<Longrightarrow> duration_in_range s"
  using spec_duration_range[of "fs_start_time s" "fs_end_time s"]
  by (simp add: session_ok_def duration_in_range_def)

lemma session_ok_same:
  "session_ok s \<Longrightarrow> fs_start_time s = fs_end_time s \<Longrightarrow> fs_duration_minutes s = Some 0"
  by (simp add: session_ok_def spec_duration_same)

lemma create_session_ok:
  assumes "create_session L u nid data st = (Json code body, st')"
  shows "session_ok (sd_session body)"
proof -
  from create_session_success[OF assms] obtain location_id date_str start_str end_str date
      start_time end_time m temp where
    p: "parse_time L start_str = Some start_time" "parse_time L end_str = Some end_time" and
    c: "calc_duration date start_time end_time = Inr m" and
    b: "sd_session body =
             \<lparr>fs_id = nid, fs_user_id = u, fs_location_id = location_id, fs_date = date,
              fs_start_time = start_time, fs_end_time = end_time,
              fs_duration_minutes = Some m,
              fs_weather_conditions = text_value (d_weather_conditions data),
              fs_temperature_celsius = temp,
              fs_notes = text_value (d_notes data)\<rparr>"
    by blast
  from calc_duration_spec[OF c] parse_time_valid[OF p(1)] parse_time_valid[OF p(2)]
  show ?thesis by (simp add: session_ok_def b)
qed

lemma update_session_ok:
  assumes a: "update_session L u sid data st = (Json code body, st')"
    and inv: "list_all session_ok (sessions st)"
  shows "session_ok (sd_session body)"
proof -
  from update_session_success[OF a] obtain old s l where
    f: "find (\<lambda>s. fs_id s = sid \<and> fs_user_id s = u) (sessions st) = Some old" and
    p: "apply_session_fields L data old = Inr s" and
    b: "sd_session body = s\<lparr>fs_location_id := l\<rparr>"
    by blast
  from find_SomeD[OF f] inv have o: "session_ok old" by (auto simp: list_all_iff)
  note k = apply_session_fields_success[OF p]
  have vs: "valid_time (fs_start_time s)"
    using k(5) o by (cases "d_start_time data") (auto simp: session_ok_def dest: parse_time_valid)
  have ve: "valid_time (fs_end_time s)"
    using k(6) o by (cases "d_end_time data") (auto simp: session_ok_def dest: parse_time_valid)
  have d: "fs_duration_minutes s = Some (spec_duration (fs_start_time s) (fs_end_time s))"
  proof (cases "d_date data \<noteq> None \<or> d_start_time data \<noteq> None \<or> d_end_time data \<noteq> None")
    case True
    with k(10) obtain m where "calc_duration (fs_date s) (fs_start_time s) (fs_end_time s) = Inr m"
      "fs_duration_minutes s = Some m" by auto
    with calc_duration_spec show ?thesis by blast
  next
    case False
    with k(5,6,10) o show ?thesis by (simp add: session_ok_def)
  qed
  from vs ve d show ?thesis by (simp add: session_ok_def b)
qed

lemma create_session_sessions:
  "sessions (snd (create_session L u nid data st)) = sessions st \<or>
   (\<exists>code body. create_session L u nid data st =
      (Json code body, st\<lparr>sessions := sessions st @ [sd_session body]\<rparr>))"
proof (cases "create_session L u nid data st")
  case (Pair r st')
  show ?thesis
  proof (cases r)
    case (Json code body)
    with Pair create_session_success[of L u nid data st code body st'] show ?thesis by auto
  next
    case (JsonError code e)
    with Pair create_session_store[of L u nid data st code e st'] show ?thesis by auto
  qed
qed

lemma update_session_sessions:
  "sessions (snd (update_session L u sid data st)) = sessions st \<or>
   (\<exists>code body. update_session L u sid data st =
      (Json code body,
       st\<lparr>sessions := map (\<lambda>r. if fs_id r = sid then sd_session body else r) (sessions st)\<rparr>))"
proof (cases "update_session L u sid data st")
  case (Pair r st')
  show ?thesis
  proof (cases r)
    case (Json code body)
    with Pair have a: "update_session L u sid data st = (Json code body, st')" by simp
    from update_session_success[OF a] obtain old where
      f: "find (\<lambda>s. fs_id s = sid \<and> fs_user_id s = u) (sessions st) = Some old" and
      s: "st' = st\<lparr>sessions :=
                    map (\<lambda>r. if fs_id r = fs_id old then sd_session body else r) (sessions st)\<rparr>"
      by blast
    from find_SomeD[OF f] have "fs_id old = sid" by simp
    with a s show ?thesis by auto
  next
    case (JsonError code e)
    with Pair update_session_failure[of L u sid data st code e st'] show ?thesis by auto
  qed
qed

lemma create_session_inv:
  "list_all session_ok (sessions st) \<Longrightarrow>
   list_all session_ok (sessions (snd (create_session L u nid data st)))"
  using create_session_sessions[of L u nid data st] create_session_ok[of L u nid data st]
  by (auto simp: list_all_iff)

lemma update_session_inv:
  "list_all session_ok (sessions st) \<Longrightarrow>
   list_all session_ok (sessions (snd (update_session L u sid data st)))"
  using update_session_sessions[of L u sid data st] update_session_ok[of L u sid data st]
  by (auto simp: list_all_iff)

lemma delete_session_sessions:
  "set (sessions (snd (delete_session u sid st))) \<subseteq> set (sessions st)"
  by (auto simp: delete_session_def split: option.splits)

lemma create_location_sessions: "sessions (snd (create_location L u nid data st)) = sessions st"
  by (auto simp: create_location_def Let_def split: option.splits sum.splits if_splits)

lemma update_location_sessions: "sessions (snd (update_location L u lid data st)) = sessions st"
  by (auto simp: update_location_def Let_def split: option.splits sum.splits if_splits)

lemma delete_location_sessions: "sessions (snd (delete_location u lid st)) = sessions st"
  by (auto simp: delete_location_def split: option.splits)

lemma create_catch_sessions: "sessions (snd (create_catch L u nid now data st)) = sessions st"
  by (auto simp: create_catch_def Let_def split: option.splits sum.splits if_splits)

lemma update_catch_sessions: "sessions (snd (update_catch L u cid data st)) = sessions st"
  by (auto simp: update_catch_def Let_def split: option.splits sum.splits if_splits prod.splits)

lemma delete_catch_sessions: "sessions (snd (delete_catch u cid st)) = sessions st"
  by (auto simp: delete_catch_def split: option.splits)

lemma snd_perform:
  "snd (perform L u (Create_location nid ld) st) = snd (create_location L u nid ld st)"
  "snd (perform L u (Update_location lid ld) st) = snd (update_location L u lid ld st)"
  "snd (perform L u (Delete_location lid) st) = snd (delete_location u lid st)"
  "snd (perform L u (Create_session nid sd) st) = snd (create_session L u nid sd st)"
  "snd (perform L u (Update_session sid sd) st) = snd (update_session L u sid sd st)"
  "snd (perform L u (Delete_session sid) st) = snd (delete_session u sid st)"
  "snd (perform L u (Create_catch nid now cd) st) = snd (create_catch L u nid now cd st)"
  "snd (perform L u (Update_catch cid cd) st) = snd (update_catch L u cid cd st)"
  "snd (perform L u (Delete_catch cid) st) = snd (delete_catch u cid st)"
  by (simp_all split: prod.splits)

lemma perform_inv:
  assumes "list_all session_ok (sessions st)"
  shows "list_all session_ok (sessions (snd (perform L u m st)))"
proof (cases m)
  case (Create_session nid data)
  with create_session_inv[OF assms, of L u nid data] show ?thesis
    by (simp only: snd_perform)
next
  case (Update_session sid data)
  with update_session_inv[OF assms, of L u sid data] show ?thesis
    by (simp only: snd_perform)
next
  case (Delete_session sid)
  with delete_session_sessions[of u sid st] assms show ?thesis
    by (simp only: snd_perform) (auto simp: list_all_iff)
next
  case (Create_location nid data)
  with assms show ?thesis
    by (simp only: snd_perform create_location_sessions)
next
  case (Update_location lid data)
  with assms show ?thesis
    by (simp only: snd_perform update_location_sessions)
next
  case (Delete_location lid)
  with assms show ?thesis
    by (simp only: snd_perform delete_location_sessions)
next
  case (Create_catch nid now data)
  with assms show ?thesis
    by (simp only: snd_perform create_catch_sessions)
next
  case (Update_catch cid data)
  with assms show ?thesis
    by (simp only: snd_perform update_catch_sessions)
next
  case (Delete_catch cid)
  with assms show ?thesis
    by (simp only: snd_perform delete_catch_sessions)
qed

lemma reachable_sessions_ok: "reachable L st \<Longrightarrow> list_all session_ok (sessions st)"
  by (induction rule: reachable.induct) (simp_all add: empty_store_def perform_inv)

lemma duration_sum_nonneg:
  assumes "list_all session_ok (sessions st)" and "set xs \<subseteq> set (sessions st)"
  shows "0 \<le> sum_list (non_null (map fs_duration_minutes xs))"
proof -
  have "\<forall>m \<in> set (non_null (map fs_duration_minutes xs)). 0 \<le> m"
  proof
    fix m assume "m \<in> set (non_null (map fs_duration_minutes xs))"
    then obtain s where s: "s \<in> set xs" "fs_duration_minutes s = Some m"
      by (auto simp: non_null_def split: option.splits)
    with assms have "session_ok s" by (auto simp: list_all_iff)
    from session_ok_range[OF this] s(2) show "0 \<le> m" by (simp add: duration_in_range_def)
  qed
  then show ?thesis by (simp add: sum_list_nonneg)
qed


text \<open>
  C10. A session that a create stores has a duration \<open>m\<close> with \<open>0 \<le> m < 1440\<close>, and
  the duration 0 when its start and end times are equal. In every store that the
  requests of the API build from the empty tables, the same holds of every session, so
  also of a session that an update stores; and the durations of any sessions of such a
  store, in particular of the sessions of one user, add up to a number that is not
  negative.
\<close>

theorem stored_durations_in_range:
  "(create_session L u nid data st = (Json code body, st') \<longrightarrow>
      duration_in_range (sd_session body) \<and>
      (fs_start_time (sd_session body) = fs_end_time (sd_session body) \<longrightarrow>
         fs_duration_minutes (sd_session body) = Some 0))
   \<and> (reachable L st \<and> update_session L u sid data st = (Json code body, st') \<longrightarrow>
      duration_in_range (sd_session body) \<and>
      (fs_start_time (sd_session body) = fs_end_time (sd_session body) \<longrightarrow>
         fs_duration_minutes (sd_session body) = Some 0))
   \<and> (reachable L st \<longrightarrow>
        list_all duration_in_range (sessions st) \<and>
        list_all (\<lambda>s. fs_start_time s = fs_end_time s \<longrightarrow> fs_duration_minutes s = Some 0)
          (sessions st))
   \<and> (reachable L st \<and> set xs \<subseteq> set (sessions st) \<longrightarrow>
        0 \<le> sum_list (non_null (map fs_duration_minutes xs)))
   \<and> (reachable L st \<longrightarrow>
        0 \<le> sum_list (non_null (map fs_duration_minutes (user_sessions st u))))"
proof -
  have 1: "duration_in_range (sd_session body) \<and>
      (fs_start_time (sd_session body) = fs_end_time (sd_session body) \<longrightarrow>
         fs_duration_minutes (sd_session body) = Some 0)"
    if "create_session L u nid data st = (Json code body, st')"
    using create_session_ok[OF that] session_ok_range session_ok_same by blast
  have 2: "duration_in_range (sd_session body) \<and>
      (fs_start_time (sd_session body) = fs_end_time (sd_session body) \<longrightarrow>
         fs_duration_minutes (sd_session body) = Some 0)"
    if "reachable L st \<and> update_session L u sid data st = (Json code body, st')"
  proof -
    from that have "list_all session_ok (sessions st)"
      and "update_session L u sid data st = (Json code body, st')"
      using reachable_sessions_ok[of L st] by blast+
    from update_session_ok[OF this(2) this(1)] session_ok_range session_ok_same
    show ?thesis by blast
  qed
  have 3: "list_all duration_in_range (sessions st) \<and>
        list_all (\<lambda>s. fs_start_time s = fs_end_time s \<longrightarrow> fs_duration_minutes s = Some 0)
          (sessions st)"
    if "reachable L st"
    using reachable_sessions_ok[OF that] session_ok_range session_ok_same
    by (auto simp: list_all_iff)
  have 4: "0 \<le> sum_list (non_null (map fs_duration_minutes xs))"
    if "reachable L st \<and> set xs \<subseteq> set (sessions st)" for xs
    using that duration_sum_nonneg[of st xs] reachable_sessions_ok[of L st] by blast
  have 5: "0 \<le> sum_list (non_null (map fs_duration_minutes (user_sessions st u)))"
    if "reachable L st"
    using that 4[of "user_sessions st u"] by (auto simp: user_sessions_def)
  from 1 2 3 4 5 show ?thesis by blast
qed

lemma create_lake1:
  "snd (perform sample_lib ''a'' (Create_location ''L1'' lake1_data) empty_store) = store_lake"
  by (simp add: create_location_def lake1_data_def empty_store_def store_lake_def lake1_def
        sample_lib_def Let_def)

lemma reachable_store_lake: "reachable sample_lib store_lake"
  using reachable_perform[OF reachable_empty, of sample_lib "''a''" "Create_location ''L1'' lake1_data"]
  by (simp only: create_lake1)

lemma reachable_store_night: "reachable sample_lib store_night"
  using reachable_perform[OF reachable_store_lake, of "''a''" "Create_session ''S1'' night_data"]
  by (simp add: create_night)

lemma update_noon:
  "update_session sample_lib ''a'' ''S1'' noon_data store_night =
     (Json 200 \<lparr>sd_session = noon_session, sd_location_name = Some ''Lake1'', sd_catches_count = 0\<rparr>,
      store_noon)"
  by (simp add: update_session_def noon_data_def no_data_def store_night_def lake1_def
        night_session_def apply_session_fields_def set_weather_conditions_def
        set_temperature_celsius_def set_notes_def recalc_duration_def commit_session_def
        sample_lib_def parse_date_def parse_time_def valid_date_def MAXORDINAL_def
        calc_duration_def combine_def date_add_days_def int_total_seconds_div_60_def
        session_to_dict_def noon_session_def store_noon_def Let_def)

lemma reachable_store_noon: "reachable sample_lib store_noon"
  using reachable_perform[OF reachable_store_night, of "''a''" "Update_session ''S1'' noon_data"]
  by (simp add: update_noon)

theorem stored_durations_in_range_witness:
  "create_session sample_lib ''a'' ''S1'' night_data store_lake =
     (Json 201 \<lparr>sd_session = night_session, sd_location_name = Some ''Lake1'', sd_catches_count = 0\<rparr>,
      store_night) \<and>
   fs_duration_minutes night_session = Some 240 \<and>
   reachable sample_lib store_night \<and>
   update_session sample_lib ''a'' ''S1'' noon_data store_night =
     (Json 200 \<lparr>sd_session = noon_session, sd_location_name = Some ''Lake1'', sd_catches_count = 0\<rparr>,
      store_noon) \<and>
   fs_start_time noon_session = fs_end_time noon_session \<and>
   fs_duration_minutes noon_session = Some 0 \<and>
   reachable sample_lib store_noon \<and>
   sessions store_noon = [noon_session] \<and>
   user_sessions store_noon ''a'' = [noon_session] \<and>
   duration_in_range noon_session \<and>
   sum_list (non_null (map fs_duration_minutes [noon_session])) = 0"
  using stored_durations_in_range[of sample_lib "''a''" "''S1''" night_data store_lake 201
      "\<lparr>sd_session = night_session, sd_location_name = Some ''Lake1'', sd_catches_count = 0\<rparr>"
      store_night "''S1''" "[]" ]
    stored_durations_in_range[of sample_lib "''a''" "''S1''" noon_data store_night 200
      "\<lparr>sd_session = noon_session, sd_location_name = Some ''Lake1'', sd_catches_count = 0\<rparr>"
      store_noon "''S1''" "[]"]
    stored_durations_in_range[of sample_lib "''a''" "''S1''" noon_data store_noon 200
      "\<lparr>sd_session = noon_session, sd_location_name = Some ''Lake1'', sd_catches_count = 0\<rparr>"
      store_noon "''S1''" "[noon_session]"]
    create_night update_noon reachable_store_night reachable_store_noon
  by (simp add: store_noon_def noon_session_def night_session_def user_sessions_def
        duration_in_range_def non_null_def)

subsection \<open>C9: requests see and change the rows of their user only\<close>

lemma find_filter_cong:
  "(\<And>x. x \<in> set xs \<Longrightarrow> P x \<Longrightarrow> Q x) \<Longrightarrow> find P (filter Q xs) = find P xs"
  by (induction xs) auto

lemma filter_filter_absorb:
  "(\<And>x. x \<in> set xs \<Longrightarrow> P x \<Longrightarrow> Q x) \<Longrightarrow> filter P (filter Q xs) = filter P xs"
  by (induction xs) auto

lemma restrict_fields [simp]:
  "locations (restrict u st) = user_locations st u"
  "sessions (restrict u st) = user_sessions st u"
  "catches (restrict u st) = filter (catch_of_user st u) (catches st)"
  by (simp_all add: restrict_def user_locations_def user_sessions_def)

lemma user_locations_restrict [simp]: "user_locations (restrict u st) u = user_locations st u"
  by (simp add: user_locations_def restrict_def)

lemma user_sessions_restrict [simp]: "user_sessions (restrict u st) u = user_sessions st u"
  by (simp add: user_sessions_def restrict_def)

lemma catch_of_user_restrict [simp]: "catch_of_user (restrict u st) u c = catch_of_user st u c"
  by (auto simp: catch_of_user_def user_sessions_def list_ex_iff)

lemma catch_of_user_iff:
  "catch_of_user st u c \<longleftrightarrow> (\<exists>s \<in> set (sessions st). fs_id s = c_session_id c \<and> fs_user_id s = u)"
  by (simp add: catch_of_user_def list_ex_iff)

lemma filter_concat_pairs:
  "filter (\<lambda>r. Q (snd r)) (concat (map (\<lambda>c. map (Pair c) (filter (P c) ss)) cs))
     = concat (map (\<lambda>c. map (Pair c) (filter (P c) (filter Q ss))) cs)"
proof (induction cs)
  case Nil
  show ?case by simp
next
  case (Cons c cs)
  have "filter (\<lambda>r. Q (snd r)) (map (Pair c) (filter (P c) ss))
          = map (Pair c) (filter (P c) (filter Q ss))"
    by (induction ss) auto
  with Cons show ?case by simp
qed

lemma user_catch_rows_alt:
  "user_catch_rows st u =
     concat (map (\<lambda>c. map (Pair c) (filter (\<lambda>s. fs_id s = c_session_id c) (user_sessions st u)))
               (catches st))"
  unfolding user_catch_rows_def catch_join_def user_sessions_def
  by (rule filter_concat_pairs)

lemma concat_map_filter_empty:
  "(\<And>x. x \<in> set xs \<Longrightarrow> \<not> P x \<Longrightarrow> f x = []) \<Longrightarrow>
   concat (map f (filter P xs)) = concat (map f xs)"
  by (induction xs) auto

lemma user_catch_rows_restrict [simp]:
  "user_catch_rows (restrict u st) u = user_catch_rows st u"
proof -
  have "filter (\<lambda>s. fs_id s = c_session_id c) (user_sessions st u) = []"
    if "\<not> catch_of_user st u c" for c
    using that by (auto simp: catch_of_user_iff user_sessions_def filter_empty_conv)
  then have "concat (map (\<lambda>c. map (Pair c) (filter (\<lambda>s. fs_id s = c_session_id c)
                 (user_sessions st u))) (filter (catch_of_user st u) (catches st)))
      = concat (map (\<lambda>c. map (Pair c) (filter (\<lambda>s. fs_id s = c_session_id c)
                 (user_sessions st u))) (catches st))"
    by (intro concat_map_filter_empty) simp
  then show ?thesis
    by (simp add: user_catch_rows_alt)
qed

lemma consistent_location_owner:
  assumes "consistent st" "s \<in> set (sessions st)" "l \<in> set (locations st)"
    "loc_id l = fs_location_id s"
  shows "loc_user_id l = fs_user_id s"
  using assms by (auto simp: consistent_def list_all_iff)

lemma session_catches_restrict:
  assumes "s \<in> set (sessions st)" "fs_user_id s = u"
  shows "filter (\<lambda>c. c_session_id c = fs_id s) (filter (catch_of_user st u) (catches st))
           = filter (\<lambda>c. c_session_id c = fs_id s) (catches st)"
  using assms by (intro filter_filter_absorb) (auto simp: catch_of_user_iff)

lemma session_location_restrict:
  assumes "consistent st" "s \<in> set (sessions st)" "fs_user_id s = u"
  shows "find (\<lambda>l. loc_id l = fs_location_id s) (user_locations st u)
           = find (\<lambda>l. loc_id l = fs_location_id s) (locations st)"
  unfolding user_locations_def
  using consistent_location_owner[OF assms(1,2)] assms(3)
  by (intro find_filter_cong) auto

lemma session_to_dict_restrict:
  assumes "consistent st" "s \<in> set (sessions st)" "fs_user_id s = u"
  shows "session_to_dict (restrict u st) s = session_to_dict st s"
  using session_location_restrict[OF assms] session_catches_restrict[OF assms(2,3)]
  by (simp add: session_to_dict_def)

lemma find_user_location_restrict:
  "find (\<lambda>l. loc_id l = lid \<and> loc_user_id l = u) (user_locations st u)
     = find (\<lambda>l. loc_id l = lid \<and> loc_user_id l = u) (locations st)"
  unfolding user_locations_def by (intro find_filter_cong) simp

lemma find_user_session_restrict:
  "find (\<lambda>s. fs_id s = sid \<and> fs_user_id s = u) (user_sessions st u)
     = find (\<lambda>s. fs_id s = sid \<and> fs_user_id s = u) (sessions st)"
  unfolding user_sessions_def by (intro find_filter_cong) simp

lemma find_user_catch_restrict:
  "find (\<lambda>c. c_id c = cid \<and> catch_of_user st u c) (filter (catch_of_user st u) (catches st))
     = find (\<lambda>c. c_id c = cid \<and> catch_of_user st u c) (catches st)"
  by (intro find_filter_cong) simp

lemma session_catches_restrict':
  assumes "s \<in> set (sessions st)" "fs_user_id s = u"
  shows "filter (\<lambda>c. c_session_id c = fs_id s) (catches (restrict u st))
           = filter (\<lambda>c. c_session_id c = fs_id s) (catches st)"
  using session_catches_restrict[OF assms] by (simp only: restrict_fields)

lemma session_location_restrict':
  assumes "consistent st" "s \<in> set (sessions st)" "fs_user_id s = u"
  shows "find (\<lambda>l. loc_id l = fs_location_id s) (locations (restrict u st))
           = find (\<lambda>l. loc_id l = fs_location_id s) (locations st)"
  using session_location_restrict[OF assms] by (simp only: restrict_fields)

lemma get_locations_restrict: "get_locations u (restrict u st) = get_locations u st"
  by (simp add: get_locations_def user_locations_def)

lemma get_location_restrict: "get_location u lid (restrict u st) = get_location u lid st"
  by (simp add: get_location_def find_user_location_restrict)

lemma get_catch_restrict: "get_catch u cid (restrict u st) = get_catch u cid st"
  by (simp add: get_catch_def find_user_catch_restrict)

lemma map_session_to_dict_restrict:
  assumes "consistent st" "set xs \<subseteq> set (user_sessions st u)"
  shows "map (session_to_dict (restrict u st)) xs = map (session_to_dict st) xs"
proof (rule map_cong[OF refl])
  fix s assume "s \<in> set xs"
  with assms(2) have "s \<in> set (sessions st)" "fs_user_id s = u"
    by (auto simp: user_sessions_def)
  with assms(1) show "session_to_dict (restrict u st) s = session_to_dict st s"
    by (rule session_to_dict_restrict)
qed

lemma set_paginate_items: "set (pg_items (paginate L page per_page rows)) \<subseteq> set rows"
  by (auto simp: paginate_def split: prod.splits dest: in_set_takeD in_set_dropD)

lemma get_sessions_restrict:
  assumes "consistent st"
  shows "get_sessions L u page per_page lid (restrict u st) = get_sessions L u page per_page lid st"
proof -
  define q where "q = order_by_desc session_order_key
     (if param_truthy lid
      then filter (\<lambda>s. Some (fs_location_id s) = lid) (user_sessions st u)
      else user_sessions st u)"
  have "set q \<subseteq> set (user_sessions st u)" by (auto simp: q_def)
  with set_paginate_items[of L page per_page q]
  have "set (pg_items (paginate L page per_page q)) \<subseteq> set (user_sessions st u)" by blast
  from map_session_to_dict_restrict[OF assms this]
  show ?thesis
    by (simp add: get_sessions_def Let_def q_def user_sessions_def[symmetric]
          del: user_sessions_restrict)
       (simp add: user_sessions_def)
qed

lemma get_session_restrict:
  assumes "consistent st"
  shows "get_session u sid (restrict u st) = get_session u sid st"
proof (cases "find (\<lambda>s. fs_id s = sid \<and> fs_user_id s = u) (sessions st)")
  case None
  then show ?thesis by (simp add: get_session_def find_user_session_restrict)
next
  case (Some s)
  from find_SomeD[OF Some] have m: "s \<in> set (sessions st)" "fs_user_id s = u" by simp_all
  have f: "find (\<lambda>s. fs_id s = sid \<and> fs_user_id s = u) (sessions (restrict u st)) = Some s"
    using Some by (simp only: restrict_fields find_user_session_restrict)
  show ?thesis
    unfolding get_session_def f Some option.case
    by (simp only: session_to_dict_restrict[OF assms m] session_catches_restrict'[OF m])
qed

lemma get_catches_restrict:
  "get_catches L u page per_page sid sp rel (restrict u st) = get_catches L u page per_page sid sp rel st"
  by (simp add: get_catches_def)

lemma get_catches_by_session_restrict:
  assumes "consistent st"
  shows "get_catches_by_session u sid (restrict u st) = get_catches_by_session u sid st"
proof (cases "find (\<lambda>s. fs_id s = sid \<and> fs_user_id s = u) (sessions st)")
  case None
  then show ?thesis by (simp add: get_catches_by_session_def find_user_session_restrict)
next
  case (Some s)
  from find_SomeD[OF Some] have m: "s \<in> set (sessions st)" "fs_user_id s = u"
    and i: "fs_id s = sid" by simp_all
  have f: "find (\<lambda>s. fs_id s = sid \<and> fs_user_id s = u) (sessions (restrict u st)) = Some s"
    using Some by (simp only: restrict_fields find_user_session_restrict)
  note c = session_catches_restrict'[OF m, unfolded i]
  show ?thesis
    unfolding get_catches_by_session_def f Some option.case
    by (simp only: session_location_restrict'[OF assms m] c)
qed

lemma get_recent_activity_restrict:
  assumes "consistent st"
  shows "get_recent_activity u limit (restrict u st) = get_recent_activity u limit st"
proof (cases "limit < 0")
  case True
  then show ?thesis by (simp add: get_recent_activity_def sql_limit_def)
next
  case False
  have "set (take (nat limit) (order_by_desc session_order_key (user_sessions st u)))
          \<subseteq> set (user_sessions st u)"
    by (auto dest: in_set_takeD)
  from map_session_to_dict_restrict[OF assms this] False
  show ?thesis by (simp add: get_recent_activity_def sql_limit_def)
qed

lemma get_species_stats_restrict:
  "get_species_stats L u limit (restrict u st) = get_species_stats L u limit st"
  by (simp add: get_species_stats_def)

lemma bait_rows_restrict: "bait_rows (restrict u st) u = bait_rows st u"
  by (simp add: bait_rows_def)

lemma get_bait_stats_restrict:
  "get_bait_stats L u limit (restrict u st) = get_bait_stats L u limit st"
  unfolding get_bait_stats_def bait_rows_restrict user_catch_rows_restrict ..

lemma monthly_sessions_restrict:
  "monthly_sessions L (restrict u st) u d = monthly_sessions L st u d"
  by (simp add: monthly_sessions_def)

lemma monthly_catches_restrict:
  "monthly_catches L (restrict u st) u d = monthly_catches L st u d"
  by (simp add: monthly_catches_def)

lemma get_monthly_stats_restrict:
  "get_monthly_stats L u today (restrict u st) = get_monthly_stats L u today st"
  unfolding get_monthly_stats_def monthly_sessions_restrict monthly_catches_restrict ..

lemma get_overview_stats_restrict:
  assumes "consistent st"
  shows "get_overview_stats L u (restrict u st) = get_overview_stats L u st"
proof (cases "order_by_desc session_order_key (user_sessions st u)")
  case Nil
  show ?thesis
    unfolding get_overview_stats_def user_sessions_restrict user_catch_rows_restrict
      user_locations_restrict Nil list.case ..
next
  case (Cons s ss)
  then have "s \<in> set (order_by_desc session_order_key (user_sessions st u))" by simp
  then have m: "s \<in> set (sessions st)" "fs_user_id s = u"
    by (auto simp: user_sessions_def)
  show ?thesis
    unfolding get_overview_stats_def user_sessions_restrict user_catch_rows_restrict
      user_locations_restrict Cons list.case session_location_restrict'[OF assms m] ..
qed

lemma location_sessions_restrict:
  assumes "consistent st" "l \<in> set (locations st)" "loc_user_id l = u"
  shows "filter (\<lambda>s. fs_location_id s = loc_id l) (sessions (restrict u st))
           = filter (\<lambda>s. fs_location_id s = loc_id l) (sessions st)"
proof -
  have "filter (\<lambda>s. fs_location_id s = loc_id l) (filter (\<lambda>s. fs_user_id s = u) (sessions st))
           = filter (\<lambda>s. fs_location_id s = loc_id l) (sessions st)"
  proof (rule filter_filter_absorb)
    fix s assume "s \<in> set (sessions st)" "fs_location_id s = loc_id l"
    with consistent_location_owner[OF assms(1) this(1) assms(2)] assms(3)
    show "fs_user_id s = u" by simp
  qed
  then show ?thesis by (simp only: restrict_fields user_sessions_def)
qed

lemma location_join_restrict:
  assumes "consistent st" "l \<in> set (locations st)" "loc_user_id l = u"
  shows "location_join (restrict u st) l = location_join st l"
proof -
  let ?ss = "filter (\<lambda>s. fs_location_id s = loc_id l) (sessions st)"
  have "map (\<lambda>s. case filter (\<lambda>c. c_session_id c = fs_id s) (catches (restrict u st)) of
                    [] \<Rightarrow> [(Some s, None)]
                  | cs \<Rightarrow> map (\<lambda>c. (Some s, Some c)) cs) ?ss
        = map (\<lambda>s. case filter (\<lambda>c. c_session_id c = fs_id s) (catches st) of
                    [] \<Rightarrow> [(Some s, None)]
                  | cs \<Rightarrow> map (\<lambda>c. (Some s, Some c)) cs) ?ss"
  proof (rule map_cong[OF refl])
    fix s assume "s \<in> set ?ss"
    then have m: "s \<in> set (sessions st)" "fs_location_id s = loc_id l" by simp_all
    from consistent_location_owner[OF assms(1) m(1) assms(2)] m(2) assms(3)
    have "fs_user_id s = u" by simp
    from session_catches_restrict'[OF m(1) this]
    show "(case filter (\<lambda>c. c_session_id c = fs_id s) (catches (restrict u st)) of
                    [] \<Rightarrow> [(Some s, None)]
                  | cs \<Rightarrow> map (\<lambda>c. (Some s, Some c)) cs)
          = (case filter (\<lambda>c. c_session_id c = fs_id s) (catches st) of
                    [] \<Rightarrow> [(Some s, None)]
                  | cs \<Rightarrow> map (\<lambda>c. (Some s, Some c)) cs)"
      by (simp only:)
  qed
  then have h: "concat (map (\<lambda>s. case filter (\<lambda>c. c_session_id c = fs_id s) (catches (restrict u st)) of
                    [] \<Rightarrow> [(Some s, None)]
                  | cs \<Rightarrow> map (\<lambda>c. (Some s, Some c)) cs) ?ss)
        = concat (map (\<lambda>s. case filter (\<lambda>c. c_session_id c = fs_id s) (catches st) of
                    [] \<Rightarrow> [(Some s, None)]
                  | cs \<Rightarrow> map (\<lambda>c. (Some s, Some c)) cs) ?ss)"
    by (simp only:)
  show ?thesis
  proof (cases ?ss)
    case Nil
    show ?thesis
      unfolding location_join_def location_sessions_restrict[OF assms] Nil list.case ..
  next
    case (Cons a list)
    show ?thesis
      unfolding location_join_def location_sessions_restrict[OF assms] Cons list.case
      using h unfolding Cons .
  qed
qed

lemma location_rows_restrict:
  assumes "consistent st"
  shows "location_rows (restrict u st) u = location_rows st u"
proof -
  have "map (\<lambda>l. map (Pair l) (location_join (restrict u st) l)) (user_locations st u)
          = map (\<lambda>l. map (Pair l) (location_join st l)) (user_locations st u)"
  proof (rule map_cong[OF refl])
    fix l assume "l \<in> set (user_locations st u)"
    then have "l \<in> set (locations st)" "loc_user_id l = u" by (simp_all add: user_locations_def)
    from location_join_restrict[OF assms this]
    show "map (Pair l) (location_join (restrict u st) l) = map (Pair l) (location_join st l)"
      by (simp only:)
  qed
  then show ?thesis
    unfolding location_rows_def user_locations_restrict by (simp only:)
qed

lemma get_location_stats_restrict:
  assumes "consistent st"
  shows "get_location_stats L u (restrict u st) = get_location_stats L u st"
  unfolding get_location_stats_def location_rows_restrict[OF assms] ..

lemma answer_query_restrict:
  assumes "consistent st"
  shows "answer_query L u q (restrict u st) = answer_query L u q st"
  using assms
  by (cases q)
     (simp_all only: answer_query.simps get_locations_restrict get_location_restrict
        get_sessions_restrict get_session_restrict get_catches_restrict get_catch_restrict
        get_catches_by_session_restrict get_overview_stats_restrict
        get_species_stats_restrict get_location_stats_restrict get_bait_stats_restrict
        get_monthly_stats_restrict get_recent_activity_restrict)

lemma consistent_session_unique:
  assumes "consistent st" "s \<in> set (sessions st)" "s' \<in> set (sessions st)" "fs_id s = fs_id s'"
  shows "s = s'"
proof -
  from assms(1) have "inj_on fs_id (set (sessions st))"
    by (simp add: consistent_def distinct_map)
  with assms(2-4) show ?thesis by (auto dest: inj_onD)
qed

lemma consistent_location_unique:
  assumes "consistent st" "l \<in> set (locations st)" "l' \<in> set (locations st)"
    "loc_id l = loc_id l'"
  shows "l = l'"
proof -
  from assms(1) have "inj_on loc_id (set (locations st))"
    by (simp add: consistent_def distinct_map)
  with assms(2-4) show ?thesis by (auto dest: inj_onD)
qed

lemma consistent_catch_unique:
  assumes "consistent st" "c \<in> set (catches st)" "c' \<in> set (catches st)" "c_id c = c_id c'"
  shows "c = c'"
proof -
  from assms(1) have "inj_on c_id (set (catches st))"
    by (simp add: consistent_def distinct_map)
  with assms(2-4) show ?thesis by (auto dest: inj_onD)
qed

lemma catch_of_one_user:
  assumes "consistent st" "catch_of_user st u c" "catch_of_user st v c"
  shows "u = v"
proof -
  from assms(2,3) obtain s s' where
    "s \<in> set (sessions st)" "fs_id s = c_session_id c" "fs_user_id s = u"
    "s' \<in> set (sessions st)" "fs_id s' = c_session_id c" "fs_user_id s' = v"
    by (auto simp: catch_of_user_iff)
  with consistent_session_unique[OF assms(1), of s s'] show ?thesis by simp
qed

lemma catch_of_user_sessions_cong:
  "sessions st' = sessions st \<Longrightarrow> catch_of_user st' = catch_of_user st"
  by (simp add: catch_of_user_def fun_eq_iff)

lemma restrict_cong:
  assumes "filter (\<lambda>l. loc_user_id l = v) (locations st') = filter (\<lambda>l. loc_user_id l = v) (locations st)"
    "filter (\<lambda>s. fs_user_id s = v) (sessions st') = filter (\<lambda>s. fs_user_id s = v) (sessions st)"
    "filter (catch_of_user st' v) (catches st') = filter (catch_of_user st v) (catches st)"
  shows "restrict v st' = restrict v st"
  using assms by (simp add: restrict_def)

subsubsection \<open>Deleting a catch\<close>

lemma delete_catch_restrict:
  "delete_catch u cid (restrict u st) =
     (fst (delete_catch u cid st), restrict u (snd (delete_catch u cid st)))"
proof (cases "find (\<lambda>c. c_id c = cid \<and> catch_of_user st u c) (catches st)")
  case None
  then show ?thesis
    by (simp add: delete_catch_def find_user_catch_restrict)
next
  case (Some c)
  let ?st' = "st\<lparr>catches := filter (\<lambda>x. c_id x \<noteq> c_id c) (catches st)\<rparr>"
  have "catch_of_user ?st' = catch_of_user st"
    by (rule catch_of_user_sessions_cong) simp
  then have "restrict u ?st' =
      (restrict u st)\<lparr>catches := filter (\<lambda>x. c_id x \<noteq> c_id c)
                                    (filter (catch_of_user st u) (catches st))\<rparr>"
    by (simp add: restrict_def conj_commute)
  with Some show ?thesis
    by (simp add: delete_catch_def find_user_catch_restrict)
qed

lemma delete_catch_others:
  assumes "consistent st" "v \<noteq> u"
  shows "restrict v (snd (delete_catch u cid st)) = restrict v st"
proof (cases "find (\<lambda>c. c_id c = cid \<and> catch_of_user st u c) (catches st)")
  case None
  then show ?thesis by (simp add: delete_catch_def)
next
  case (Some c)
  from find_SomeD[OF Some] have c: "c \<in> set (catches st)" "catch_of_user st u c" by simp_all
  let ?st' = "st\<lparr>catches := filter (\<lambda>x. c_id x \<noteq> c_id c) (catches st)\<rparr>"
  have e: "catch_of_user ?st' = catch_of_user st"
    by (rule catch_of_user_sessions_cong) simp
  have "filter (catch_of_user st v) (filter (\<lambda>x. c_id x \<noteq> c_id c) (catches st))
          = filter (catch_of_user st v) (catches st)"
  proof (rule filter_filter_absorb)
    fix x assume x: "x \<in> set (catches st)" "catch_of_user st v x"
    show "c_id x \<noteq> c_id c"
    proof
      assume "c_id x = c_id c"
      from consistent_catch_unique[OF assms(1) x(1) c(1) this] x(2) c(2)
        catch_of_one_user[OF assms(1)] assms(2)
      show False by blast
    qed
  qed
  then have "restrict v ?st' = restrict v st"
    by (intro restrict_cong) (simp_all add: e)
  with Some show ?thesis by (simp add: delete_catch_def)
qed

subsubsection \<open>Deleting a location\<close>

lemma delete_location_restrict:
  assumes "consistent st"
  shows "delete_location u lid (restrict u st) =
     (fst (delete_location u lid st), restrict u (snd (delete_location u lid st)))"
proof (cases "find (\<lambda>l. loc_id l = lid \<and> loc_user_id l = u) (locations st)")
  case None
  then show ?thesis
    by (simp add: delete_location_def find_user_location_restrict)
next
  case (Some l)
  from find_SomeD[OF Some] have l: "l \<in> set (locations st)" "loc_user_id l = u" by simp_all
  note ss = location_sessions_restrict[OF assms l]
  let ?st' = "st\<lparr>locations := filter (\<lambda>x. loc_id x \<noteq> loc_id l) (locations st)\<rparr>"
  have "catch_of_user ?st' = catch_of_user st"
    by (rule catch_of_user_sessions_cong) simp
  then have r: "restrict u ?st' =
      (restrict u st)\<lparr>locations := filter (\<lambda>x. loc_id x \<noteq> loc_id l) (user_locations st u)\<rparr>"
    by (simp add: restrict_def user_locations_def conj_commute)
  have f: "find (\<lambda>l. loc_id l = lid \<and> loc_user_id l = u) (locations (restrict u st)) = Some l"
    using Some by (simp only: restrict_fields find_user_location_restrict)
  show ?thesis
    unfolding delete_location_def f Some option.case ss
    by (simp add: r)
qed

lemma delete_location_others:
  assumes "consistent st" "v \<noteq> u"
  shows "restrict v (snd (delete_location u lid st)) = restrict v st"
proof (cases "find (\<lambda>l. loc_id l = lid \<and> loc_user_id l = u) (locations st)")
  case None
  then show ?thesis by (simp add: delete_location_def)
next
  case (Some l)
  from find_SomeD[OF Some] have l: "l \<in> set (locations st)" "loc_user_id l = u" by simp_all
  let ?st' = "st\<lparr>locations := filter (\<lambda>x. loc_id x \<noteq> loc_id l) (locations st)\<rparr>"
  have e: "catch_of_user ?st' = catch_of_user st"
    by (rule catch_of_user_sessions_cong) simp
  have "filter (\<lambda>x. loc_user_id x = v) (filter (\<lambda>x. loc_id x \<noteq> loc_id l) (locations st))
          = filter (\<lambda>x. loc_user_id x = v) (locations st)"
  proof (rule filter_filter_absorb)
    fix x assume x: "x \<in> set (locations st)" "loc_user_id x = v"
    show "loc_id x \<noteq> loc_id l"
    proof
      assume "loc_id x = loc_id l"
      from consistent_location_unique[OF assms(1) x(1) l(1) this] x(2) l(2) assms(2)
      show False by simp
    qed
  qed
  then have "restrict v ?st' = restrict v st"
    by (intro restrict_cong) (simp_all add: e)
  then show ?thesis
    using Some by (simp add: delete_location_def split: if_splits)
qed

subsubsection \<open>Deleting a session\<close>

lemma catch_of_user_after_delete:
  assumes "c_session_id c \<noteq> sid"
  shows "catch_of_user (st\<lparr>sessions := filter (\<lambda>x. fs_id x \<noteq> sid) (sessions st),
                           catches := cs\<rparr>) w c = catch_of_user st w c"
  using assms by (auto simp: catch_of_user_iff)

lemma delete_session_restrict:
  assumes "consistent st"
  shows "delete_session u sid (restrict u st) =
     (fst (delete_session u sid st), restrict u (snd (delete_session u sid st)))"
proof (cases "find (\<lambda>s. fs_id s = sid \<and> fs_user_id s = u) (sessions st)")
  case None
  then show ?thesis
    by (simp add: delete_session_def find_user_session_restrict)
next
  case (Some s)
  from find_SomeD[OF Some] have m: "s \<in> set (sessions st)" "fs_user_id s = u" by simp_all
  have f: "find (\<lambda>s. fs_id s = sid \<and> fs_user_id s = u) (sessions (restrict u st)) = Some s"
    using Some by (simp only: restrict_fields find_user_session_restrict)
  note lo = session_location_restrict'[OF assms m]
  let ?st' = "st\<lparr>sessions := filter (\<lambda>x. fs_id x \<noteq> fs_id s) (sessions st),
                 catches := filter (\<lambda>c. c_session_id c \<noteq> fs_id s) (catches st)\<rparr>"
  have c: "filter (catch_of_user ?st' u) (filter (\<lambda>c. c_session_id c \<noteq> fs_id s) (catches st))
        = filter (\<lambda>c. c_session_id c \<noteq> fs_id s) (filter (catch_of_user st u) (catches st))"
  proof -
    have "filter (catch_of_user ?st' u) (filter (\<lambda>c. c_session_id c \<noteq> fs_id s) (catches st))
        = filter (catch_of_user st u) (filter (\<lambda>c. c_session_id c \<noteq> fs_id s) (catches st))"
      by (rule filter_cong[OF refl]) (simp add: catch_of_user_after_delete)
    then show ?thesis by (simp add: conj_commute)
  qed
  have r: "restrict u ?st' =
      (restrict u st)\<lparr>sessions := filter (\<lambda>x. fs_id x \<noteq> fs_id s) (user_sessions st u),
                       catches := filter (\<lambda>c. c_session_id c \<noteq> fs_id s)
                                    (filter (catch_of_user st u) (catches st))\<rparr>"
    unfolding restrict_def using c by (simp add: user_sessions_def conj_commute)
  show ?thesis
  proof (cases "find (\<lambda>l. loc_id l = fs_location_id s) (locations st)")
    case None
    show ?thesis
      unfolding delete_session_def f Some option.case lo None by simp
  next
    case (Some l)
    show ?thesis
      unfolding delete_session_def f \<open>find _ (sessions st) = Some s\<close> option.case lo Some
      by (simp add: r)
  qed
qed

lemma delete_session_others:
  assumes "consistent st" "v \<noteq> u"
  shows "restrict v (snd (delete_session u sid st)) = restrict v st"
proof (cases "find (\<lambda>s. fs_id s = sid \<and> fs_user_id s = u) (sessions st)")
  case None
  then show ?thesis by (simp add: delete_session_def)
next
  case (Some s)
  from find_SomeD[OF Some] have m: "s \<in> set (sessions st)" "fs_user_id s = u" by simp_all
  let ?st' = "st\<lparr>sessions := filter (\<lambda>x. fs_id x \<noteq> fs_id s) (sessions st),
                 catches := filter (\<lambda>c. c_session_id c \<noteq> fs_id s) (catches st)\<rparr>"
  have 1: "filter (\<lambda>x. fs_user_id x = v) (filter (\<lambda>x. fs_id x \<noteq> fs_id s) (sessions st))
          = filter (\<lambda>x. fs_user_id x = v) (sessions st)"
  proof (rule filter_filter_absorb)
    fix x assume x: "x \<in> set (sessions st)" "fs_user_id x = v"
    show "fs_id x \<noteq> fs_id s"
    proof
      assume "fs_id x = fs_id s"
      from consistent_session_unique[OF assms(1) x(1) m(1) this] x(2) m(2) assms(2)
      show False by simp
    qed
  qed
  have 2: "filter (catch_of_user ?st' v) (filter (\<lambda>c. c_session_id c \<noteq> fs_id s) (catches st))
          = filter (catch_of_user st v) (catches st)"
  proof -
    have "filter (catch_of_user ?st' v) (filter (\<lambda>c. c_session_id c \<noteq> fs_id s) (catches st))
        = filter (catch_of_user st v) (filter (\<lambda>c. c_session_id c \<noteq> fs_id s) (catches st))"
      by (rule filter_cong[OF refl]) (simp add: catch_of_user_after_delete)
    also have "\<dots> = filter (catch_of_user st v) (catches st)"
    proof (rule filter_filter_absorb)
      fix c assume c: "c \<in> set (catches st)" "catch_of_user st v c"
      show "c_session_id c \<noteq> fs_id s"
      proof
        assume "c_session_id c = fs_id s"
        with m have "catch_of_user st u c" by (auto simp: catch_of_user_iff)
        from catch_of_one_user[OF assms(1) this c(2)] assms(2) show False by simp
      qed
    qed
    finally show ?thesis .
  qed
  have "restrict v ?st' = restrict v st"
    by (intro restrict_cong) (simp_all add: 1 2 del: filter_filter)
  then show ?thesis
    using Some by (simp add: delete_session_def split: option.splits)
qed

subsubsection \<open>Updating a location\<close>

lemma set_latitude_owner:
  "set_latitude L v l = Inr l1 \<Longrightarrow> loc_id l1 = loc_id l \<and> loc_user_id l1 = loc_user_id l"
  by (auto simp: set_latitude_def split: option.splits sum.splits)

lemma set_longitude_owner:
  "set_longitude L v l = Inr l1 \<Longrightarrow> loc_id l1 = loc_id l \<and> loc_user_id l1 = loc_user_id l"
  by (auto simp: set_longitude_def split: option.splits sum.splits)

lemma set_description_owner [simp]:
  "loc_id (set_description v l) = loc_id l" "loc_user_id (set_description v l) = loc_user_id l"
  by (simp_all add: set_description_def split: option.splits)

lemma find_user_location_name_restrict:
  "find (\<lambda>l. loc_user_id l = u \<and> loc_name l = n) (user_locations st u)
     = find (\<lambda>l. loc_user_id l = u \<and> loc_name l = n) (locations st)"
  unfolding user_locations_def by (intro find_filter_cong) simp

lemma filter_map_replace:
  assumes "\<And>r. r \<in> set xs \<Longrightarrow> P (f r) = P r"
  shows "filter P (map f xs) = map f (filter P xs)"
  using assms by (induction xs) auto

lemma restrict_replace_location:
  assumes "consistent st" "l \<in> set (locations st)" "loc_user_id l = u" "loc_user_id l' = u"
  shows "restrict u (st\<lparr>locations := map (\<lambda>r. if loc_id r = loc_id l then l' else r) (locations st)\<rparr>)
       = (restrict u st)\<lparr>locations :=
            map (\<lambda>r. if loc_id r = loc_id l then l' else r) (user_locations st u)\<rparr>"
proof -
  let ?f = "\<lambda>r. if loc_id r = loc_id l then l' else r"
  let ?st' = "st\<lparr>locations := map ?f (locations st)\<rparr>"
  have "filter (\<lambda>x. loc_user_id x = u) (map ?f (locations st))
          = map ?f (filter (\<lambda>x. loc_user_id x = u) (locations st))"
  proof (rule filter_map_replace)
    fix r assume "r \<in> set (locations st)"
    with consistent_location_unique[OF assms(1) this assms(2)] assms(3,4)
    show "(loc_user_id (?f r) = u) = (loc_user_id r = u)" by auto
  qed
  moreover have "catch_of_user ?st' = catch_of_user st"
    by (rule catch_of_user_sessions_cong) simp
  ultimately show ?thesis
    by (simp add: restrict_def user_locations_def)
qed

lemma others_replace_location:
  assumes "consistent st" "l \<in> set (locations st)" "loc_user_id l = u" "loc_user_id l' = u"
    "v \<noteq> u"
  shows "restrict v (st\<lparr>locations := map (\<lambda>r. if loc_id r = loc_id l then l' else r) (locations st)\<rparr>)
       = restrict v st"
proof -
  let ?f = "\<lambda>r. if loc_id r = loc_id l then l' else r"
  let ?st' = "st\<lparr>locations := map ?f (locations st)\<rparr>"
  have "filter (\<lambda>x. loc_user_id x = v) (map ?f (locations st))
          = map ?f (filter (\<lambda>x. loc_user_id x = v) (locations st))"
  proof (rule filter_map_replace)
    fix r assume "r \<in> set (locations st)"
    with consistent_location_unique[OF assms(1) this assms(2)] assms(3,4,5)
    show "(loc_user_id (?f r) = v) = (loc_user_id r = v)" by auto
  qed
  also have "\<dots> = filter (\<lambda>x. loc_user_id x = v) (locations st)"
  proof -
    have "map ?f (filter (\<lambda>x. loc_user_id x = v) (locations st))
            = map (\<lambda>r. r) (filter (\<lambda>x. loc_user_id x = v) (locations st))"
    proof (rule map_cong[OF refl])
      fix r assume "r \<in> set (filter (\<lambda>x. loc_user_id x = v) (locations st))"
      then have r: "r \<in> set (locations st)" "loc_user_id r = v" by simp_all
      with consistent_location_unique[OF assms(1) r(1) assms(2)] assms(3,5)
      show "?f r = r" by auto
    qed
    then show ?thesis by simp
  qed
  finally have 1: "filter (\<lambda>x. loc_user_id x = v) (map ?f (locations st))
      = filter (\<lambda>x. loc_user_id x = v) (locations st)" .
  have e: "catch_of_user ?st' = catch_of_user st"
    by (rule catch_of_user_sessions_cong) simp
  show ?thesis
    by (intro restrict_cong) (simp_all add: 1 e)
qed

lemma update_location_success:
  assumes "update_location L u lid data st = (Json code body, st')"
  shows "\<exists>l. find (\<lambda>l. loc_id l = lid \<and> loc_user_id l = u) (locations st) = Some l \<and>
           loc_user_id body = u \<and>
           st' = st\<lparr>locations := map (\<lambda>r. if loc_id r = loc_id l then body else r) (locations st)\<rparr>"
proof -
  from assms obtain l where
    f: "find (\<lambda>l. loc_id l = lid \<and> loc_user_id l = u) (locations st) = Some l"
    by (auto simp: update_location_def split: option.splits)
  from find_SomeD[OF f] have u: "loc_user_id l = u" by simp
  from assms f obtain l1 l2 name where
    "set_latitude L (d_latitude data) l = Inr l1"
    "set_longitude L (d_longitude data) l1 = Inr l2"
    "body = (set_description (d_description data) l2)\<lparr>loc_name := name\<rparr>"
    "st' = st\<lparr>locations := map (\<lambda>r. if loc_id r = loc_id l then body else r) (locations st)\<rparr>"
    by (auto simp: update_location_def Let_def split: option.splits sum.splits if_splits)
  with set_latitude_owner[of L "d_latitude data" l l1]
    set_longitude_owner[of L "d_longitude data" l1 l2] u f
  show ?thesis by auto
qed

lemma update_location_failure:
  "update_location L u lid data st = (JsonError code e, st') \<Longrightarrow> st' = st"
  by (auto simp: update_location_def Let_def split: option.splits sum.splits if_splits)

lemma update_location_others:
  assumes "consistent st" "v \<noteq> u"
  shows "restrict v (snd (update_location L u lid data st)) = restrict v st"
proof (cases "update_location L u lid data st")
  case (Pair r st')
  show ?thesis
  proof (cases r)
    case (Json code body)
    with Pair update_location_success[of L u lid data st code body st'] obtain l where
      f: "find (\<lambda>l. loc_id l = lid \<and> loc_user_id l = u) (locations st) = Some l" and
      b: "loc_user_id body = u" and
      s: "st' = st\<lparr>locations := map (\<lambda>r. if loc_id r = loc_id l then body else r) (locations st)\<rparr>"
      by auto
    from find_SomeD[OF f] have "l \<in> set (locations st)" "loc_user_id l = u" by simp_all
    from others_replace_location[OF assms(1) this b assms(2)] Pair s show ?thesis by simp
  next
    case (JsonError code e)
    with Pair update_location_failure[of L u lid data st code e st'] show ?thesis by simp
  qed
qed

lemma update_location_restrict:
  assumes "consistent st"
  shows "update_location L u lid data (restrict u st) =
     (fst (update_location L u lid data st), restrict u (snd (update_location L u lid data st)))"
proof (cases "find (\<lambda>l. loc_id l = lid \<and> loc_user_id l = u) (locations st)")
  case None
  then show ?thesis
    by (simp add: update_location_def find_user_location_restrict)
next
  case (Some l)
  from find_SomeD[OF Some] have l: "l \<in> set (locations st)" "loc_user_id l = u" by simp_all
  have f: "find (\<lambda>l. loc_id l = lid \<and> loc_user_id l = u) (locations (restrict u st)) = Some l"
    using Some by (simp only: restrict_fields find_user_location_restrict)
  have n: "find (\<lambda>l. loc_user_id l = u \<and> loc_name l = x) (locations (restrict u st))
             = find (\<lambda>l. loc_user_id l = u \<and> loc_name l = x) (locations st)" for x
    by (simp only: restrict_fields find_user_location_name_restrict)
  have r: "restrict u (st\<lparr>locations := map (\<lambda>r. if loc_id r = loc_id l then l' else r) (locations st)\<rparr>)
       = (restrict u st)\<lparr>locations :=
            map (\<lambda>r. if loc_id r = loc_id l then l' else r) (locations (restrict u st))\<rparr>"
    if "loc_user_id l' = u" for l'
    using restrict_replace_location[OF assms l that] by (simp only: restrict_fields)
  show ?thesis
    unfolding update_location_def f Some option.case n
    by (auto simp: Let_def r dest!: set_latitude_owner set_longitude_owner
             split: option.splits sum.splits simp: l(2))
qed

subsubsection \<open>Updating a session\<close>

lemma catch_of_user_replace_session:
  assumes "consistent st" "old \<in> set (sessions st)" "fs_id s' = fs_id old"
    "fs_user_id s' = fs_user_id old"
  shows "catch_of_user
           (st\<lparr>sessions := map (\<lambda>r. if fs_id r = fs_id old then s' else r) (sessions st)\<rparr>) w c
         = catch_of_user st w c"
proof -
  let ?f = "\<lambda>r. if fs_id r = fs_id old then s' else r"
  have k: "fs_id (?f r) = fs_id r \<and> fs_user_id (?f r) = fs_user_id r" if "r \<in> set (sessions st)" for r
    using consistent_session_unique[OF assms(1) that assms(2)] assms(3,4) by auto
  show ?thesis
    unfolding catch_of_user_iff
  proof
    assume "\<exists>s\<in>set (sessions (st\<lparr>sessions := map ?f (sessions st)\<rparr>)).
              fs_id s = c_session_id c \<and> fs_user_id s = w"
    then obtain r where "r \<in> set (sessions st)" "fs_id (?f r) = c_session_id c"
      "fs_user_id (?f r) = w" by auto
    with k[OF this(1)] show "\<exists>s\<in>set (sessions st). fs_id s = c_session_id c \<and> fs_user_id s = w"
      by auto
  next
    assume "\<exists>s\<in>set (sessions st). fs_id s = c_session_id c \<and> fs_user_id s = w"
    then obtain r where r: "r \<in> set (sessions st)" "fs_id r = c_session_id c" "fs_user_id r = w"
      by auto
    with k[OF r(1)] have "?f r \<in> set (map ?f (sessions st))" "fs_id (?f r) = c_session_id c"
      "fs_user_id (?f r) = w" by auto
    then show "\<exists>s\<in>set (sessions (st\<lparr>sessions := map ?f (sessions st)\<rparr>)).
              fs_id s = c_session_id c \<and> fs_user_id s = w"
      by (intro bexI[of _ "?f r"]) simp_all
  qed
qed

lemma restrict_replace_session:
  assumes "consistent st" "old \<in> set (sessions st)" "fs_user_id old = u" "fs_id s' = fs_id old"
    "fs_user_id s' = u"
  shows "restrict u (st\<lparr>sessions := map (\<lambda>r. if fs_id r = fs_id old then s' else r) (sessions st)\<rparr>)
       = (restrict u st)\<lparr>sessions :=
            map (\<lambda>r. if fs_id r = fs_id old then s' else r) (user_sessions st u)\<rparr>"
proof -
  let ?f = "\<lambda>r. if fs_id r = fs_id old then s' else r"
  let ?st' = "st\<lparr>sessions := map ?f (sessions st)\<rparr>"
  have 1: "filter (\<lambda>x. fs_user_id x = u) (map ?f (sessions st))
          = map ?f (filter (\<lambda>x. fs_user_id x = u) (sessions st))"
  proof (rule filter_map_replace)
    fix r assume "r \<in> set (sessions st)"
    with consistent_session_unique[OF assms(1) this assms(2)] assms(3,5)
    show "(fs_user_id (?f r) = u) = (fs_user_id r = u)" by auto
  qed
  have 2: "catch_of_user ?st' u = catch_of_user st u"
    using catch_of_user_replace_session[OF assms(1,2,4)] assms(3,5) by (simp add: fun_eq_iff)
  show ?thesis
    by (simp add: restrict_def user_sessions_def 1 2)
qed

lemma others_replace_session:
  assumes "consistent st" "old \<in> set (sessions st)" "fs_user_id old = u" "fs_id s' = fs_id old"
    "fs_user_id s' = u" "v \<noteq> u"
  shows "restrict v (st\<lparr>sessions := map (\<lambda>r. if fs_id r = fs_id old then s' else r) (sessions st)\<rparr>)
       = restrict v st"
proof -
  let ?f = "\<lambda>r. if fs_id r = fs_id old then s' else r"
  let ?st' = "st\<lparr>sessions := map ?f (sessions st)\<rparr>"
  have "filter (\<lambda>x. fs_user_id x = v) (map ?f (sessions st))
          = map ?f (filter (\<lambda>x. fs_user_id x = v) (sessions st))"
  proof (rule filter_map_replace)
    fix r assume "r \<in> set (sessions st)"
    with consistent_session_unique[OF assms(1) this assms(2)] assms(3,5,6)
    show "(fs_user_id (?f r) = v) = (fs_user_id r = v)" by auto
  qed
  also have "\<dots> = filter (\<lambda>x. fs_user_id x = v) (sessions st)"
  proof -
    have "map ?f (filter (\<lambda>x. fs_user_id x = v) (sessions st))
            = map (\<lambda>r. r) (filter (\<lambda>x. fs_user_id x = v) (sessions st))"
    proof (rule map_cong[OF refl])
      fix r assume "r \<in> set (filter (\<lambda>x. fs_user_id x = v) (sessions st))"
      then have r: "r \<in> set (sessions st)" "fs_user_id r = v" by simp_all
      with consistent_session_unique[OF assms(1) r(1) assms(2)] assms(3,6)
      show "?f r = r" by auto
    qed
    then show ?thesis by simp
  qed
  finally have 1: "filter (\<lambda>x. fs_user_id x = v) (map ?f (sessions st))
      = filter (\<lambda>x. fs_user_id x = v) (sessions st)" .
  have 2: "catch_of_user ?st' v = catch_of_user st v"
    using catch_of_user_replace_session[OF assms(1,2,4)] assms(3,5) by (simp add: fun_eq_iff)
  show ?thesis
    by (intro restrict_cong) (simp_all add: 1 2)
qed

lemma update_session_others:
  assumes "consistent st" "v \<noteq> u"
  shows "restrict v (snd (update_session L u sid data st)) = restrict v st"
proof (cases "update_session L u sid data st")
  case (Pair r st')
  show ?thesis
  proof (cases r)
    case (Json code body)
    with Pair have a: "update_session L u sid data st = (Json code body, st')" by simp
    from update_session_success[OF a] obtain old s l where
      f: "find (\<lambda>s. fs_id s = sid \<and> fs_user_id s = u) (sessions st) = Some old" and
      p: "apply_session_fields L data old = Inr s" and
      b: "sd_session body = s\<lparr>fs_location_id := l\<rparr>" and
      s: "st' = st\<lparr>sessions :=
                    map (\<lambda>r. if fs_id r = fs_id old then sd_session body else r) (sessions st)\<rparr>"
      by blast
    from find_SomeD[OF f] have o: "old \<in> set (sessions st)" "fs_user_id old = u" by simp_all
    from apply_session_fields_success(1,2)[OF p] b o
    have "fs_id (sd_session body) = fs_id old" "fs_user_id (sd_session body) = u" by simp_all
    from others_replace_session[OF assms(1) o this assms(2)] Pair s show ?thesis by simp
  next
    case (JsonError code e)
    with Pair update_session_failure[of L u sid data st code e st'] show ?thesis by simp
  qed
qed

lemma assigned_location_checked:
  assumes c: "consistent st"
    and o: "old \<in> set (sessions st)" "fs_user_id old = u"
    and chk: "\<not> (case required (d_location_id data) of
                  None \<Rightarrow> False
                | Some l \<Rightarrow> l \<noteq> fs_location_id old \<and>
                    find (\<lambda>x. loc_id x = l \<and> loc_user_id x = u) (locations st) = None)"
    and a: "assigned_location_id (d_location_id data) old = Some l"
  shows "(l \<noteq> fs_location_id old \<and> l \<notin> set (map loc_id (user_locations st u)))
           \<longleftrightarrow> (l \<noteq> fs_location_id old \<and> l \<notin> set (map loc_id (locations st)))"
    and "\<not> (l \<noteq> fs_location_id old \<and> l \<notin> set (map loc_id (locations st))) \<Longrightarrow>
           find (\<lambda>x. loc_id x = l) (user_locations st u) = find (\<lambda>x. loc_id x = l) (locations st)"
proof -
  have own: "loc_user_id x = u" if "x \<in> set (locations st)" "loc_id x = l"
    "\<not> (l \<noteq> fs_location_id old \<and> l \<notin> set (map loc_id (locations st)))" for x
  proof (cases "l = fs_location_id old")
    case True
    with consistent_location_owner[OF c o(1) that(1)] that(2) o(2) show ?thesis by simp
  next
    case False
    show ?thesis
    proof (cases "l = []")
      case True
      from c have "[] \<notin> loc_id ` set (locations st)" by (simp add: consistent_def)
      with that(1,2) True show ?thesis by (metis imageI)
    next
      case n: False
      have "required (d_location_id data) = Some l"
      proof (cases "d_location_id data")
        case None
        with a False show ?thesis by simp
      next
        case (Some v)
        with a n show ?thesis by (cases v) simp_all
      qed
      with chk False obtain y where
        "find (\<lambda>x. loc_id x = l \<and> loc_user_id x = u) (locations st) = Some y" by auto
      from find_SomeD[OF this] have "y \<in> set (locations st)" "loc_id y = l" "loc_user_id y = u"
        by simp_all
      with consistent_location_unique[OF c that(1) this(1)] that(2) show ?thesis by simp
    qed
  qed
  show "(l \<noteq> fs_location_id old \<and> l \<notin> set (map loc_id (user_locations st u)))
           \<longleftrightarrow> (l \<noteq> fs_location_id old \<and> l \<notin> set (map loc_id (locations st)))"
  proof (cases "l \<noteq> fs_location_id old \<and> l \<notin> set (map loc_id (locations st))")
    case True
    then show ?thesis by (auto simp: user_locations_def)
  next
    case False
    with own show ?thesis by (auto simp: user_locations_def)
  qed
  show "find (\<lambda>x. loc_id x = l) (user_locations st u) = find (\<lambda>x. loc_id x = l) (locations st)"
    if "\<not> (l \<noteq> fs_location_id old \<and> l \<notin> set (map loc_id (locations st)))"
    unfolding user_locations_def using own that by (intro find_filter_cong) blast
qed


lemma update_session_restrict:
  assumes c: "consistent st"
  shows "update_session L u sid data (restrict u st) =
     (fst (update_session L u sid data st), restrict u (snd (update_session L u sid data st)))"
proof (cases "find (\<lambda>s. fs_id s = sid \<and> fs_user_id s = u) (sessions st)")
  case None
  then show ?thesis
    by (simp add: update_session_def find_user_session_restrict)
next
  case (Some old)
  from find_SomeD[OF Some] have o: "old \<in> set (sessions st)" "fs_user_id old = u" by simp_all
  have f: "find (\<lambda>s. fs_id s = sid \<and> fs_user_id s = u) (sessions (restrict u st)) = Some old"
    using Some by (simp only: restrict_fields find_user_session_restrict)
  have n: "find (\<lambda>x. loc_id x = l \<and> loc_user_id x = u) (locations (restrict u st))
             = find (\<lambda>x. loc_id x = l \<and> loc_user_id x = u) (locations st)" for l
    by (simp only: restrict_fields find_user_location_restrict)
  let ?chk = "case required (d_location_id data) of
                  None \<Rightarrow> False
                | Some l \<Rightarrow> l \<noteq> fs_location_id old \<and>
                    find (\<lambda>x. loc_id x = l \<and> loc_user_id x = u) (locations st) = None"
  show ?thesis
  proof (cases ?chk)
    case True
    then show ?thesis
      unfolding update_session_def f Some option.case n by simp
  next
    case chk: False
    show ?thesis
    proof (cases "apply_session_fields L data old")
      case (Inl e)
      with chk show ?thesis
        unfolding update_session_def f Some option.case n by simp
    next
      case (Inr s)
      note k = apply_session_fields_success(1,2)[OF Inr]
      show ?thesis
      proof (cases "assigned_location_id (d_location_id data) old")
        case None
        with chk Inr show ?thesis
          unfolding update_session_def f Some option.case n
          by (simp add: commit_session_def)
      next
        case a: (Some l)
        note q = assigned_location_checked[OF c o chk a]
        show ?thesis
        proof (cases "l \<noteq> fs_location_id old \<and> l \<notin> set (map loc_id (locations st))")
          case True
          have "l \<noteq> fs_location_id old \<and> l \<notin> set (map loc_id (locations (restrict u st)))"
            unfolding restrict_fields using q(1) True by blast
          with True chk Inr a show ?thesis
            unfolding update_session_def f Some option.case n
            by (simp add: commit_session_def)
        next
          case False
          have r: "\<not> (l \<noteq> fs_location_id old \<and>
                                  l \<notin> set (map loc_id (locations (restrict u st))))"
            unfolding restrict_fields using q(1) False by blast
          let ?s' = "s\<lparr>fs_location_id := l\<rparr>"
          let ?f = "\<lambda>r. if fs_id r = fs_id old then ?s' else r"
          have i: "fs_id ?s' = fs_id old" "fs_user_id ?s' = u"
            using k o(2) by simp_all
          have st: "restrict u (st\<lparr>sessions := map ?f (sessions st)\<rparr>)
                      = (restrict u st)\<lparr>sessions := map ?f (sessions (restrict u st))\<rparr>"
            using restrict_replace_session[OF c o i] by (simp only: restrict_fields)
          have d: "session_to_dict ((restrict u st)\<lparr>sessions := map ?f (sessions (restrict u st))\<rparr>) ?s'
                     = session_to_dict (st\<lparr>sessions := map ?f (sessions st)\<rparr>) ?s'"
            using q(2)[OF False] session_catches_restrict[OF o] i(1)
            by (simp add: session_to_dict_def)
          from False r chk Inr a show ?thesis
            unfolding update_session_def f Some option.case n
            by (simp add: commit_session_def Let_def st d del: restrict_fields)
        qed
      qed
    qed
  qed
qed

subsubsection \<open>Updating a catch\<close>

lemma restrict_replace_catch:
  assumes "consistent st" "old \<in> set (catches st)" "catch_of_user st u old"
    "catch_of_user st u c'"
  shows "restrict u (st\<lparr>catches := map (\<lambda>r. if c_id r = c_id old then c' else r) (catches st)\<rparr>)
       = (restrict u st)\<lparr>catches :=
            map (\<lambda>r. if c_id r = c_id old then c' else r) (catches (restrict u st))\<rparr>"
proof -
  let ?f = "\<lambda>r. if c_id r = c_id old then c' else r"
  let ?st' = "st\<lparr>catches := map ?f (catches st)\<rparr>"
  have e: "catch_of_user ?st' = catch_of_user st"
    by (rule catch_of_user_sessions_cong) simp
  have "filter (catch_of_user st u) (map ?f (catches st))
          = map ?f (filter (catch_of_user st u) (catches st))"
  proof (rule filter_map_replace)
    fix r assume "r \<in> set (catches st)"
    with consistent_catch_unique[OF assms(1) this assms(2)] assms(3,4)
    show "catch_of_user st u (?f r) = catch_of_user st u r" by auto
  qed
  then show ?thesis
    by (simp add: restrict_def e)
qed

lemma others_replace_catch:
  assumes "consistent st" "old \<in> set (catches st)" "catch_of_user st u old"
    "catch_of_user st u c'" "v \<noteq> u"
  shows "restrict v (st\<lparr>catches := map (\<lambda>r. if c_id r = c_id old then c' else r) (catches st)\<rparr>)
       = restrict v st"
proof -
  let ?f = "\<lambda>r. if c_id r = c_id old then c' else r"
  let ?st' = "st\<lparr>catches := map ?f (catches st)\<rparr>"
  have e: "catch_of_user ?st' = catch_of_user st"
    by (rule catch_of_user_sessions_cong) simp
  from catch_of_one_user[OF assms(1)] assms(3,4,5)
  have n: "\<not> catch_of_user st v old" "\<not> catch_of_user st v c'" by blast+
  have "filter (catch_of_user st v) (map ?f (catches st))
          = map ?f (filter (catch_of_user st v) (catches st))"
  proof (rule filter_map_replace)
    fix r assume "r \<in> set (catches st)"
    with consistent_catch_unique[OF assms(1) this assms(2)] n
    show "catch_of_user st v (?f r) = catch_of_user st v r" by auto
  qed
  also have "\<dots> = filter (catch_of_user st v) (catches st)"
  proof -
    have "map ?f (filter (catch_of_user st v) (catches st))
            = map (\<lambda>r. r) (filter (catch_of_user st v) (catches st))"
    proof (rule map_cong[OF refl])
      fix r assume "r \<in> set (filter (catch_of_user st v) (catches st))"
      then have r: "r \<in> set (catches st)" "catch_of_user st v r" by simp_all
      with consistent_catch_unique[OF assms(1) r(1) assms(2)] n
      show "?f r = r" by auto
    qed
    then show ?thesis by simp
  qed
  finally have 1: "filter (catch_of_user st v) (map ?f (catches st))
      = filter (catch_of_user st v) (catches st)" .
  show ?thesis
    by (intro restrict_cong) (simp_all add: 1 e)
qed

lemma set_weight_kg_keys:
  "set_weight_kg L v c = Inr c1 \<Longrightarrow> c_id c1 = c_id c \<and> c_session_id c1 = c_session_id c"
  by (auto simp: set_weight_kg_def split: option.splits sum.splits)

lemma set_length_cm_keys:
  "set_length_cm L v c = Inr c1 \<Longrightarrow> c_id c1 = c_id c \<and> c_session_id c1 = c_session_id c"
  by (auto simp: set_length_cm_def split: option.splits sum.splits)

lemma catch_of_user_session_id:
  "c_session_id c = c_session_id c' \<Longrightarrow> catch_of_user st u c = catch_of_user st u c'"
  by (simp add: catch_of_user_def)

lemma assigned_session_checked:
  assumes c: "consistent st"
    and o: "catch_of_user st u old"
    and chk: "\<not> (case required (d_session_id data) of
                  None \<Rightarrow> False
                | Some sid \<Rightarrow> sid \<noteq> c_session_id old \<and>
                    find (\<lambda>s. fs_id s = sid \<and> fs_user_id s = u) (sessions st) = None)"
    and a: "assigned_text (d_session_id data) (c_session_id old) = Some sid"
  shows "(sid \<noteq> c_session_id old \<and> sid \<notin> set (map fs_id (user_sessions st u)))
           \<longleftrightarrow> (sid \<noteq> c_session_id old \<and> sid \<notin> set (map fs_id (sessions st)))"
    and "\<not> (sid \<noteq> c_session_id old \<and> sid \<notin> set (map fs_id (sessions st))) \<Longrightarrow>
           c_session_id c' = sid \<Longrightarrow> catch_of_user st u c'"
proof -
  have own: "\<exists>s \<in> set (sessions st). fs_id s = sid \<and> fs_user_id s = u"
    if "\<not> (sid \<noteq> c_session_id old \<and> sid \<notin> set (map fs_id (sessions st)))"
  proof (cases "sid = c_session_id old")
    case True
    with o show ?thesis by (simp add: catch_of_user_iff)
  next
    case False
    from c have e: "[] \<notin> fs_id ` set (sessions st)" by (simp add: consistent_def)
    from that False have "sid \<in> fs_id ` set (sessions st)" by simp
    with e have n: "sid \<noteq> []" by metis
    have "required (d_session_id data) = Some sid"
    proof (cases "d_session_id data")
      case None
      with a False show ?thesis by simp
    next
      case (Some v)
      with a n show ?thesis by (cases v) simp_all
    qed
    with chk False obtain y where
      "find (\<lambda>s. fs_id s = sid \<and> fs_user_id s = u) (sessions st) = Some y" by auto
    from find_SomeD[OF this] show ?thesis by auto
  qed
  show "(sid \<noteq> c_session_id old \<and> sid \<notin> set (map fs_id (user_sessions st u)))
           \<longleftrightarrow> (sid \<noteq> c_session_id old \<and> sid \<notin> set (map fs_id (sessions st)))"
  proof (cases "sid \<noteq> c_session_id old \<and> sid \<notin> set (map fs_id (sessions st))")
    case True
    then show ?thesis by (auto simp: user_sessions_def)
  next
    case False
    from own[OF False] False show ?thesis by (auto simp: user_sessions_def image_iff)
  qed
  show "catch_of_user st u c'"
    if "\<not> (sid \<noteq> c_session_id old \<and> sid \<notin> set (map fs_id (sessions st)))"
      "c_session_id c' = sid"
    using own[OF that(1)] that(2) by (simp add: catch_of_user_iff)
qed


lemma update_catch_restrict_and_others:
  assumes c: "consistent st"
  shows "update_catch L u cid data (restrict u st) =
     (fst (update_catch L u cid data st), restrict u (snd (update_catch L u cid data st)))"
    and "v \<noteq> u \<Longrightarrow> restrict v (snd (update_catch L u cid data st)) = restrict v st"
proof -
  let ?A = "update_catch L u cid data (restrict u st) =
     (fst (update_catch L u cid data st), restrict u (snd (update_catch L u cid data st)))"
  let ?B = "v \<noteq> u \<longrightarrow> restrict v (snd (update_catch L u cid data st)) = restrict v st"
  have "?A \<and> ?B"
  proof (cases "find (\<lambda>c. c_id c = cid \<and> catch_of_user st u c) (catches st)")
    case None
    then show ?thesis
      by (simp add: update_catch_def find_user_catch_restrict)
  next
    case (Some old)
    from find_SomeD[OF Some] have o: "old \<in> set (catches st)" "catch_of_user st u old"
      by simp_all
    have f: "find (\<lambda>c. c_id c = cid \<and> catch_of_user (restrict u st) u c)
               (catches (restrict u st)) = Some old"
      using Some by (simp add: find_user_catch_restrict)
    have n: "find (\<lambda>s. fs_id s = x \<and> fs_user_id s = u) (sessions (restrict u st))
               = find (\<lambda>s. fs_id s = x \<and> fs_user_id s = u) (sessions st)" for x
      by (simp only: restrict_fields find_user_session_restrict)
    let ?chk = "case required (d_session_id data) of
                  None \<Rightarrow> False
                | Some sid \<Rightarrow> sid \<noteq> c_session_id old \<and>
                    find (\<lambda>s. fs_id s = sid \<and> fs_user_id s = u) (sessions st) = None"
    show ?thesis
    proof (cases ?chk)
      case True
      then show ?thesis
        unfolding update_catch_def f Some option.case n by simp
    next
      case chk: False
      show ?thesis
      proof (cases "set_weight_kg L (d_weight_kg data) old")
        case (Inl e)
        with chk show ?thesis
          unfolding update_catch_def f Some option.case n by simp
      next
        case w: (Inr c1)
        show ?thesis
        proof (cases "set_length_cm L (d_length_cm data) c1")
          case (Inl e)
          with chk w show ?thesis
            unfolding update_catch_def f Some option.case n by simp
        next
          case g: (Inr c2)
          from set_weight_kg_keys[OF w] set_length_cm_keys[OF g]
          have k: "c_id c2 = c_id old" by simp
          show ?thesis
          proof (cases "assigned_text (d_session_id data) (c_session_id old)")
            case None
            with chk w g show ?thesis
              unfolding update_catch_def f Some option.case n by simp
          next
            case a: (Some sid)
            show ?thesis
            proof (cases "assigned_text (d_species data) (c_species old)")
              case None
              with chk w g a show ?thesis
                unfolding update_catch_def f Some option.case n by simp
            next
              case sp: (Some species)
              note q = assigned_session_checked[OF c o(2) chk a]
              show ?thesis
              proof (cases "sid \<noteq> c_session_id old \<and> sid \<notin> set (map fs_id (sessions st))")
                case True
                have "sid \<noteq> c_session_id old \<and>
                      sid \<notin> set (map fs_id (sessions (restrict u st)))"
                  unfolding restrict_fields using q(1) True by blast
                with True chk w g a sp show ?thesis
                  unfolding update_catch_def f Some option.case n by simp
              next
                case False
                have r: "\<not> (sid \<noteq> c_session_id old \<and>
                             sid \<notin> set (map fs_id (sessions (restrict u st))))"
                  unfolding restrict_fields using q(1) False by blast
                let ?c' = "(set_photo_url (d_photo_url data)
                               (set_released (d_released data)
                                 (set_bait_used (d_bait_used data) c2)))
                             \<lparr>c_session_id := sid, c_species := species\<rparr>"
                let ?f = "\<lambda>r. if c_id r = c_id old then ?c' else r"
                have own: "catch_of_user st u ?c'"
                  by (rule q(2)[OF False]) simp
                have st: "restrict u (st\<lparr>catches := map ?f (catches st)\<rparr>)
                      = (restrict u st)\<lparr>catches := map ?f (catches (restrict u st))\<rparr>"
                  by (rule restrict_replace_catch[OF c o own])
                have ot: "v \<noteq> u \<longrightarrow> restrict v (st\<lparr>catches := map ?f (catches st)\<rparr>) = restrict v st"
                  using others_replace_catch[OF c o own] by blast
                from False r chk w g a sp ot show ?thesis
                  unfolding update_catch_def f Some option.case n
                  by (simp add: Let_def st del: restrict_fields)
              qed
            qed
          qed
        qed
      qed
    qed
  qed
  then show ?A and "v \<noteq> u \<Longrightarrow> restrict v (snd (update_catch L u cid data st)) = restrict v st"
    by blast+
qed

subsubsection \<open>The requests keep the constraints of the tables\<close>

lemma referential_iff:
  "referential st \<longleftrightarrow>
     distinct (map loc_id (locations st)) \<and>
     distinct (map fs_id (sessions st)) \<and>
     distinct (map c_id (catches st)) \<and>
     [] \<notin> loc_id ` set (locations st) \<and>
     [] \<notin> fs_id ` set (sessions st) \<and>
     (\<forall>s \<in> set (sessions st). \<forall>l \<in> set (locations st).
        loc_id l = fs_location_id s \<longrightarrow> loc_user_id l = fs_user_id s) \<and>
     (\<forall>s \<in> set (sessions st). fs_location_id s \<in> loc_id ` set (locations st))"
  by (auto simp: referential_def consistent_def list_all_iff)

lemma referential_consistent: "referential st \<Longrightarrow> consistent st"
  by (simp add: referential_def)

lemma referential_empty_store: "referential empty_store"
  by (simp add: referential_def consistent_def empty_store_def)

lemma map_replace_key:
  "f y = k \<Longrightarrow> map f (map (\<lambda>r. if f r = k then y else r) xs) = map f xs"
  by (induction xs) auto

lemma set_replace_subset:
  "set (map (\<lambda>r. if f r = k then y else r) xs) \<subseteq> insert y (set xs)"
  by (induction xs) auto

lemma referential_delete_catch:
  "referential st \<Longrightarrow> referential (snd (delete_catch u cid st))"
  by (auto simp: delete_catch_def referential_iff distinct_map_filter split: option.splits)

lemma referential_create_catch:
  "referential st \<Longrightarrow> referential (snd (create_catch L u nid now data st))"
  by (auto simp: create_catch_def referential_iff Let_def split: option.splits sum.splits)

lemma referential_catches:
  assumes "referential st" "map c_id cs = map c_id (catches st)"
  shows "referential (st\<lparr>catches := cs\<rparr>)"
  using assms by (simp add: referential_iff)

lemma keeps_c_id [simp]:
  "c_id (set_photo_url v c) = c_id c" "c_id (set_released w c) = c_id c"
  "c_id (set_bait_used v c) = c_id c"
  by (simp_all add: set_photo_url_def set_released_def set_bait_used_def split: option.splits)

lemma referential_replace_catch:
  assumes "referential st" "c_id c' = k"
  shows "referential (st\<lparr>catches := map (\<lambda>r. if c_id r = k then c' else r) (catches st)\<rparr>)"
  by (rule referential_catches[OF assms(1) map_replace_key[of c_id c' k, OF assms(2)]])

lemma referential_update_catch:
  assumes r: "referential st"
  shows "referential (snd (update_catch L u cid data st))"
  using r
  by (auto simp: update_catch_def Let_def split: option.splits sum.splits prod.splits
        dest!: set_weight_kg_keys set_length_cm_keys intro!: referential_replace_catch)

lemma referential_delete_location:
  "referential st \<Longrightarrow> referential (snd (delete_location u lid st))"
  by (fastforce simp: delete_location_def referential_iff distinct_map_filter filter_empty_conv
        image_iff split: option.splits)

lemma referential_create_location:
  "referential st \<Longrightarrow> nid \<noteq> [] \<Longrightarrow> referential (snd (create_location L u nid data st))"
  by (auto simp: create_location_def referential_iff Let_def split: option.splits sum.splits)

lemma referential_delete_session:
  "referential st \<Longrightarrow> referential (snd (delete_session u sid st))"
  by (auto simp: delete_session_def referential_iff distinct_map_filter split: option.splits)


lemma referential_replace_location:
  assumes r: "referential st" and l: "l \<in> set (locations st)"
    and i: "loc_id l' = loc_id l" and o: "loc_user_id l' = loc_user_id l"
  shows "referential
           (st\<lparr>locations := map (\<lambda>r. if loc_id r = loc_id l then l' else r) (locations st)\<rparr>)"
proof -
  define new where "new = map (\<lambda>r. if loc_id r = loc_id l then l' else r) (locations st)"
  have m: "map loc_id new = map loc_id (locations st)"
    unfolding new_def by (rule map_replace_key[of loc_id l' "loc_id l", OF i])
  then have "set (map loc_id new) = set (map loc_id (locations st))" by (simp only:)
  then have im: "loc_id ` set new = loc_id ` set (locations st)" by (simp only: set_map)
  have sub: "set new \<subseteq> insert l' (set (locations st))"
    unfolding new_def by (rule set_replace_subset)
  have own: "loc_user_id x = fs_user_id s"
    if "s \<in> set (sessions st)" "x \<in> set new" "loc_id x = fs_location_id s" for s x
  proof (cases "x = l'")
    case True
    with that(3) i have "loc_id l = fs_location_id s" by simp
    with r that(1) l have "loc_user_id l = fs_user_id s" by (simp add: referential_iff)
    with True o show ?thesis by simp
  next
    case False
    with sub that(2) have "x \<in> set (locations st)" by auto
    with r that(1,3) show ?thesis by (simp add: referential_iff)
  qed
  from r m im own have "referential (st\<lparr>locations := new\<rparr>)"
    by (simp add: referential_iff)
  then show ?thesis by (simp only: new_def)
qed

lemma update_location_keeps_id:
  "update_location L u lid data st = (Json code body, st') \<Longrightarrow>
   find (\<lambda>l. loc_id l = lid \<and> loc_user_id l = u) (locations st) = Some l \<Longrightarrow>
   loc_id body = loc_id l"
  by (auto simp: update_location_def Let_def split: option.splits sum.splits if_splits
        dest!: set_latitude_owner set_longitude_owner)

lemma referential_update_location:
  assumes r: "referential st"
  shows "referential (snd (update_location L u lid data st))"
proof (cases "update_location L u lid data st")
  case (Pair x st')
  show ?thesis
  proof (cases x)
    case (Json code body)
    with Pair have a: "update_location L u lid data st = (Json code body, st')" by simp
    from update_location_success[OF a] obtain l where
      f: "find (\<lambda>l. loc_id l = lid \<and> loc_user_id l = u) (locations st) = Some l" and
      o: "loc_user_id body = u" and
      s: "st' = st\<lparr>locations := map (\<lambda>r. if loc_id r = loc_id l then body else r) (locations st)\<rparr>"
      by blast
    from find_SomeD[OF f] have l: "l \<in> set (locations st)" "loc_user_id l = u" by simp_all
    from referential_replace_location[OF r l(1) update_location_keeps_id[OF a f]] o l(2) s Pair
    show ?thesis by simp
  next
    case (JsonError code e)
    with Pair update_location_failure[of L u lid data st code e st'] r show ?thesis by simp
  qed
qed

lemma referential_replace_session:
  assumes r: "referential st"
    and i: "fs_id s' = fs_id old" and o: "fs_user_id s' = u"
    and k: "fs_location_id s' \<in> loc_id ` set (locations st)"
    and w: "\<And>l. l \<in> set (locations st) \<Longrightarrow> loc_id l = fs_location_id s' \<Longrightarrow> loc_user_id l = u"
  shows "referential
           (st\<lparr>sessions := map (\<lambda>r. if fs_id r = fs_id old then s' else r) (sessions st)\<rparr>)"
proof -
  define new where "new = map (\<lambda>r. if fs_id r = fs_id old then s' else r) (sessions st)"
  have m: "map fs_id new = map fs_id (sessions st)"
    unfolding new_def by (rule map_replace_key[of fs_id s' "fs_id old", OF i])
  then have "set (map fs_id new) = set (map fs_id (sessions st))" by (simp only:)
  then have im: "fs_id ` set new = fs_id ` set (sessions st)" by (simp only: set_map)
  have sub: "set new \<subseteq> insert s' (set (sessions st))"
    unfolding new_def by (rule set_replace_subset)
  have own: "loc_user_id l = fs_user_id s"
    if "s \<in> set new" "l \<in> set (locations st)" "loc_id l = fs_location_id s" for s l
  proof (cases "s = s'")
    case True
    with w[OF that(2)] that(3) o show ?thesis by simp
  next
    case False
    with sub that(1) have "s \<in> set (sessions st)" by auto
    with r that(2,3) show ?thesis by (simp add: referential_iff)
  qed
  have fk: "fs_location_id s \<in> loc_id ` set (locations st)" if "s \<in> set new" for s
  proof (cases "s = s'")
    case True
    with k show ?thesis by simp
  next
    case False
    with sub that have "s \<in> set (sessions st)" by auto
    with r show ?thesis by (simp add: referential_iff)
  qed
  from r m im own fk have "referential (st\<lparr>sessions := new\<rparr>)"
    by (simp add: referential_iff)
  then show ?thesis by (simp only: new_def)
qed

lemma update_session_checked:
  assumes "update_session L u sid data st = (Json code body, st')"
    and f: "find (\<lambda>s. fs_id s = sid \<and> fs_user_id s = u) (sessions st) = Some old"
  shows "\<not> (case required (d_location_id data) of
              None \<Rightarrow> False
            | Some l \<Rightarrow> l \<noteq> fs_location_id old \<and>
                find (\<lambda>x. loc_id x = l \<and> loc_user_id x = u) (locations st) = None)"
proof
  assume "case required (d_location_id data) of
              None \<Rightarrow> False
            | Some l \<Rightarrow> l \<noteq> fs_location_id old \<and>
                find (\<lambda>x. loc_id x = l \<and> loc_user_id x = u) (locations st) = None"
  then have "update_session L u sid data st = (JsonError 404 Local_nao_encontrado, st)"
    unfolding update_session_def f option.case by simp
  with assms(1) show False by simp
qed

lemma referential_update_session:
  assumes r: "referential st"
  shows "referential (snd (update_session L u sid data st))"
proof (cases "update_session L u sid data st")
  case (Pair x st')
  show ?thesis
  proof (cases x)
    case (Json code body)
    with Pair have a: "update_session L u sid data st = (Json code body, st')" by simp
    from update_session_success[OF a] obtain old s l where
      f: "find (\<lambda>s. fs_id s = sid \<and> fs_user_id s = u) (sessions st) = Some old" and
      p: "apply_session_fields L data old = Inr s" and
      g: "assigned_location_id (d_location_id data) old = Some l" and
      n: "l = fs_location_id old \<or> l \<in> set (map loc_id (locations st))" and
      b: "sd_session body = s\<lparr>fs_location_id := l\<rparr>" and
      s: "st' = st\<lparr>sessions :=
                    map (\<lambda>r. if fs_id r = fs_id old then sd_session body else r) (sessions st)\<rparr>"
      by blast
    from find_SomeD[OF f] have o: "old \<in> set (sessions st)" "fs_user_id old = u" by simp_all
    note c = referential_consistent[OF r]
    from apply_session_fields_success(1,2)[OF p] b o
    have i: "fs_id (sd_session body) = fs_id old" "fs_user_id (sd_session body) = u"
      by simp_all
    from r o(1) have "fs_location_id old \<in> loc_id ` set (locations st)"
      by (simp add: referential_iff)
    with n have k: "l \<in> loc_id ` set (locations st)" by auto
    then have nn: "\<not> (l \<noteq> fs_location_id old \<and> l \<notin> set (map loc_id (locations st)))"
      by simp
    note q = assigned_location_checked(2)[OF c o update_session_checked[OF a f] g nn]
    have w: "loc_user_id x = u" if "x \<in> set (locations st)" "loc_id x = l" for x
    proof -
      from that have "find (\<lambda>x. loc_id x = l) (locations st) \<noteq> None"
        by (auto simp: find_None_iff)
      with q obtain y where y: "find (\<lambda>x. loc_id x = l) (user_locations st u) = Some y"
        and y': "find (\<lambda>x. loc_id x = l) (locations st) = Some y" by auto
      from find_SomeD[OF y] have "loc_user_id y = u" by (simp add: user_locations_def)
      moreover from find_SomeD[OF y'] consistent_location_unique[OF c that(1), of y] that(2)
      have "x = y" by simp
      ultimately show ?thesis by simp
    qed
    have "referential
           (st\<lparr>sessions := map (\<lambda>r. if fs_id r = fs_id old then sd_session body else r)
                             (sessions st)\<rparr>)"
      by (rule referential_replace_session[OF r i]) (use k w b in simp_all)
    with s Pair show ?thesis by simp
  next
    case (JsonError code e)
    with Pair update_session_failure[of L u sid data st code e st'] r show ?thesis by simp
  qed
qed

lemma create_session_failure:
  "create_session L u nid data st = (JsonError code e, st') \<Longrightarrow> st' = st"
  by (auto simp: create_session_def Let_def split: option.splits sum.splits if_splits)

lemma referential_create_session:
  assumes r: "referential st" and n: "nid \<noteq> []"
  shows "referential (snd (create_session L u nid data st))"
proof (cases "create_session L u nid data st")
  case (Pair x st')
  show ?thesis
  proof (cases x)
    case (Json code body)
    with Pair have a: "create_session L u nid data st = (Json code body, st')" by simp
    from create_session_success[OF a] obtain location_id where
      f: "find (\<lambda>l. loc_id l = location_id \<and> loc_user_id l = u) (locations st) \<noteq> None" and
      d: "nid \<notin> set (map fs_id (sessions st))" and
      b: "fs_id (sd_session body) = nid" "fs_user_id (sd_session body) = u"
         "fs_location_id (sd_session body) = location_id" and
      s: "st' = st\<lparr>sessions := sessions st @ [sd_session body]\<rparr>"
      by force
    from f obtain l where "find (\<lambda>l. loc_id l = location_id \<and> loc_user_id l = u) (locations st) = Some l"
      by auto
    from find_SomeD[OF this] have l: "l \<in> set (locations st)" "loc_id l = location_id"
      "loc_user_id l = u" by simp_all
    have w: "loc_user_id x = u" if "x \<in> set (locations st)" "loc_id x = location_id" for x
      using consistent_location_unique[OF referential_consistent[OF r] that(1) l(1)] that(2) l
      by simp
    from l(1,2) have k: "location_id \<in> loc_id ` set (locations st)" by auto
    from r n d b k w have "referential (st\<lparr>sessions := sessions st @ [sd_session body]\<rparr>)"
      by (auto simp: referential_iff)
    with s Pair show ?thesis by simp
  next
    case (JsonError code e)
    with Pair create_session_failure[of L u nid data st code e st'] r show ?thesis by simp
  qed
qed

lemma referential_perform:
  assumes "referential st" "uuid_given m"
  shows "referential (snd (perform L u m st))"
proof (cases m)
  case (Create_location nid data)
  with assms(2) have "nid \<noteq> []" by simp
  from referential_create_location[OF assms(1) this, of L u data] Create_location show ?thesis
    by (simp only: snd_perform)
next
  case (Update_location lid data)
  with referential_update_location[OF assms(1), of L u lid data] show ?thesis
    by (simp only: snd_perform)
next
  case (Delete_location lid)
  with referential_delete_location[OF assms(1), of u lid] show ?thesis
    by (simp only: snd_perform)
next
  case (Create_session nid data)
  with assms(2) have "nid \<noteq> []" by simp
  from referential_create_session[OF assms(1) this, of L u data] Create_session show ?thesis
    by (simp only: snd_perform)
next
  case (Update_session sid data)
  with referential_update_session[OF assms(1), of L u sid data] show ?thesis
    by (simp only: snd_perform)
next
  case (Delete_session sid)
  with referential_delete_session[OF assms(1), of u sid] show ?thesis
    by (simp only: snd_perform)
next
  case (Create_catch nid now data)
  with referential_create_catch[OF assms(1), of L u nid now data] show ?thesis
    by (simp only: snd_perform)
next
  case (Update_catch cid data)
  with referential_update_catch[OF assms(1), of L u cid data] show ?thesis
    by (simp only: snd_perform)
next
  case (Delete_catch cid)
  with referential_delete_catch[OF assms(1), of u cid] show ?thesis
    by (simp only: snd_perform)
qed

lemma referential_run:
  "referential st \<Longrightarrow> list_all (\<lambda>(u, m). uuid_given m) ms \<Longrightarrow> referential (run L ms st)"
proof (induction ms arbitrary: st)
  case Nil
  then show ?case by simp
next
  case (Cons a ms)
  obtain u m where a: "a = (u, m)" by (cases a)
  with Cons.prems have "uuid_given m" "list_all (\<lambda>(u, m). uuid_given m) ms" by simp_all
  with Cons.IH[OF referential_perform[OF Cons.prems(1) this(1), of L u]] a
  show ?case by simp
qed

lemma consistent_run:
  "list_all (\<lambda>(u, m). uuid_given m) ms \<Longrightarrow> consistent (run L ms empty_store)"
  by (rule referential_consistent[OF referential_run[OF referential_empty_store]])

subsubsection \<open>All requests\<close>

lemma perform_restrict:
  assumes "consistent st" "\<not> is_create m"
  shows "perform L u m (restrict u st) =
     (fst (perform L u m st), restrict u (snd (perform L u m st)))"
proof (cases m)
  case (Update_location lid data)
  with update_location_restrict[OF assms(1), of L u lid data] show ?thesis
    by (simp add: split_beta)
next
  case (Delete_location lid)
  with delete_location_restrict[OF assms(1), of u lid] show ?thesis
    by (simp add: split_beta)
next
  case (Update_session sid data)
  with update_session_restrict[OF assms(1), of L u sid data] show ?thesis
    by (simp add: split_beta)
next
  case (Delete_session sid)
  with delete_session_restrict[OF assms(1), of u sid] show ?thesis
    by (simp add: split_beta)
next
  case (Update_catch cid data)
  with update_catch_restrict_and_others(1)[OF assms(1), of L u cid data] show ?thesis
    by (simp add: split_beta)
next
  case (Delete_catch cid)
  with delete_catch_restrict[of u cid st] show ?thesis
    by (simp add: split_beta)
qed (use assms(2) in simp_all)

lemma perform_others:
  assumes "consistent st" "\<not> is_create m" "v \<noteq> u"
  shows "restrict v (snd (perform L u m st)) = restrict v st"
proof (cases m)
  case (Update_location lid data)
  with update_location_others[OF assms(1,3), of L lid data] show ?thesis
    by (simp only: snd_perform)
next
  case (Delete_location lid)
  with delete_location_others[OF assms(1,3), of lid] show ?thesis
    by (simp only: snd_perform)
next
  case (Update_session sid data)
  with update_session_others[OF assms(1,3), of L sid data] show ?thesis
    by (simp only: snd_perform)
next
  case (Delete_session sid)
  with delete_session_others[OF assms(1,3), of sid] show ?thesis
    by (simp only: snd_perform)
next
  case (Update_catch cid data)
  with update_catch_restrict_and_others(2)[OF assms(1,3), of L cid data] show ?thesis
    by (simp only: snd_perform)
next
  case (Delete_catch cid)
  with delete_catch_others[OF assms(1,3), of cid] show ?thesis
    by (simp only: snd_perform)
qed (use assms(2) in simp_all)

text \<open>
  C9. Take two stores that keep the constraints of the tables, as every store does that
  requests build from the empty tables (\<open>consistent_run\<close>), and that hold the same
  rows of a user: the same locations and sessions of the user and the same catches of the
  user's sessions. Every reading and statistics request of that user has the same answer on both
  stores. Every update and delete request of that user has the same reply on both stores
  and leaves the same rows of the user in both. The rows of any other user are after the
  request what they were before it.
\<close>

theorem requests_see_and_change_own_rows_only:
  "consistent st1 \<Longrightarrow> consistent st2 \<Longrightarrow> restrict u st1 = restrict u st2 \<Longrightarrow>
   answer_query L u q st1 = answer_query L u q st2 \<and>
   (\<not> is_create m \<longrightarrow>
      fst (perform L u m st1) = fst (perform L u m st2) \<and>
      restrict u (snd (perform L u m st1)) = restrict u (snd (perform L u m st2)) \<and>
      (v \<noteq> u \<longrightarrow> restrict v (snd (perform L u m st1)) = restrict v st1))"
proof -
  assume c1: "consistent st1" and c2: "consistent st2" and r: "restrict u st1 = restrict u st2"
  have "answer_query L u q st1 = answer_query L u q (restrict u st1)"
    using answer_query_restrict[OF c1] by simp
  also have "\<dots> = answer_query L u q st2"
    using answer_query_restrict[OF c2] r by simp
  finally have 1: "answer_query L u q st1 = answer_query L u q st2" .
  have 2: "fst (perform L u m st1) = fst (perform L u m st2) \<and>
      restrict u (snd (perform L u m st1)) = restrict u (snd (perform L u m st2))"
    if m: "\<not> is_create m"
  proof -
    have "(fst (perform L u m st1), restrict u (snd (perform L u m st1))) =
          perform L u m (restrict u st1)"
      using perform_restrict[OF c1 m] by simp
    also have "\<dots> = (fst (perform L u m st2), restrict u (snd (perform L u m st2)))"
      using perform_restrict[OF c2 m] r by simp
    finally show ?thesis by simp
  qed
  have 3: "restrict v (snd (perform L u m st1)) = restrict v st1"
    if "\<not> is_create m" "v \<noteq> u"
    using perform_others[OF c1 that] .
  from 1 2 3 show ?thesis by blast
qed

lemma consistent_shared: "consistent store_shared" "consistent store_scenario"
  by (simp_all add: consistent_def store_shared_def store_scenario_def lake1_def pond_b_def
        scenario_session_def session_b_def bass_def catch_b_def)

lemma restrict_shared:
  "restrict ''a'' store_shared = store_scenario"
  "restrict ''a'' store_scenario = store_scenario"
  "restrict ''b'' store_shared = store_b"
  by (simp_all add: restrict_def catch_of_user_def store_shared_def store_scenario_def store_b_def
        lake1_def pond_b_def scenario_session_def session_b_def bass_def catch_b_def)

theorem requests_see_and_change_own_rows_only_witness:
  "consistent store_shared \<and> consistent store_scenario \<and>
   restrict ''a'' store_shared = restrict ''a'' store_scenario \<and>
   locations store_shared = [lake1, pond_b] \<and> locations store_scenario = [lake1] \<and>
   loc_user_id pond_b = ''b'' \<and>
   answer_query sample_lib ''a'' (Get_catch ''C2'') store_shared =
     answer_query sample_lib ''a'' (Get_catch ''C2'') store_scenario \<and>
   answer_query sample_lib ''a'' (Get_catch ''C2'') store_shared =
     Catch_answer (JsonError 404 Captura_nao_encontrada) \<and>
   answer_query sample_lib ''b'' (Get_catch ''C2'') store_shared = Catch_answer (Json 200 catch_b) \<and>
   \<not> is_create (Delete_session ''S2'') \<and>
   fst (perform sample_lib ''a'' (Delete_session ''S2'') store_shared) =
     fst (perform sample_lib ''a'' (Delete_session ''S2'') store_scenario) \<and>
   perform sample_lib ''a'' (Delete_session ''S2'') store_shared =
     (Deleted_session_reply (JsonError 404 Sessao_nao_encontrada), store_shared) \<and>
   restrict ''a'' (snd (perform sample_lib ''a'' (Delete_session ''S2'') store_shared)) =
     restrict ''a'' (snd (perform sample_lib ''a'' (Delete_session ''S2'') store_scenario)) \<and>
   \<not> is_create (Delete_session ''S1'') \<and>
   fst (perform sample_lib ''a'' (Delete_session ''S1'') store_shared) =
     Deleted_session_reply (Json 200 (738886, ''Lake1'')) \<and>
   restrict ''b'' (snd (perform sample_lib ''a'' (Delete_session ''S1'') store_shared)) =
     restrict ''b'' store_shared \<and>
   restrict ''b'' store_shared = store_b"
  using requests_see_and_change_own_rows_only[of store_shared store_scenario "''a''" sample_lib
      "Get_catch ''C2''" "Delete_session ''S2''" "''b''"]
    requests_see_and_change_own_rows_only[of store_shared store_scenario "''a''" sample_lib
      "Get_catch ''C2''" "Delete_session ''S1''" "''b''"]
    consistent_shared restrict_shared
  by (simp add: get_catch_def delete_session_def catch_of_user_def store_shared_def
        store_scenario_def lake1_def pond_b_def scenario_session_def session_b_def bass_def
        catch_b_def)

end
